(* ===== verification/Umbra_Prelude.thy ===== *)
theory Umbra_Prelude
  imports Main "HOL-Library.Word"
begin

text \<open>
  Shared vocabulary of the development: the machine integers of the C code, the
  identifiers of relations and forks (\<^verbatim>\<open>src/include/storage/block.h\<close>,
  \<^verbatim>\<open>src/include/storage/relfilelocator.h\<close>, \<^verbatim>\<open>src/include/common/relpath.h\<close>,
  \<^verbatim>\<open>src/include/storage/um_defs.h\<close>), the outcomes of \<^verbatim>\<open>elog/ereport\<close>, and the
  state-and-error functions in which the stateful components are written.

  An operation on a component state \<open>'s\<close> is a function \<open>'s \<Rightarrow> (um_error + 'a) \<times> 's\<close>.
  The state is returned on the error side too: an \<^verbatim>\<open>ereport(ERROR)\<close> in the C code unwinds
  the C stack, but whatever it had already written to shared memory stays written.
\<close>

unbundle bit_operations_syntax

named_theorems um_defs \<open>unfoldings of the state-and-error combinators\<close>
named_theorems runU \<open>running the combinators from a given state\<close>
named_theorems fork_simps \<open>per-fork accessor laws\<close>

subsection \<open>Machine integers and identifiers\<close>

type_synonym u8 = "8 word"
type_synonym u32 = "32 word"
type_synonym u64 = "64 word"
type_synonym BlockNumber = u32
type_synonym XLogRecPtr = u64
type_synonym Oid = u32

definition InvalidBlockNumber :: BlockNumber where
  "InvalidBlockNumber = 0xFFFFFFFF"

definition MaxBlockNumber :: BlockNumber where
  "MaxBlockNumber = 0xFFFFFFFE"

definition InvalidXLogRecPtr :: XLogRecPtr where
  "InvalidXLogRecPtr = 0"

text \<open>The default build configuration: 8 kB blocks, 1 GB segments.\<close>

definition BLCKSZ :: nat where
  "BLCKSZ = 8192"

definition RELSEG_SIZE :: nat where
  "RELSEG_SIZE = 131072"

datatype ForkNumber =
    InvalidForkNumber | MAIN_FORKNUM | FSM_FORKNUM | VISIBILITYMAP_FORKNUM | INIT_FORKNUM
  | UMBRA_METADATA_FORKNUM

record RelFileLocator =
  spcOid :: Oid
  dbOid :: Oid
  relNumber :: Oid

definition RelFileLocatorEquals :: "RelFileLocator \<Rightarrow> RelFileLocator \<Rightarrow> bool" where
  "RelFileLocatorEquals a b \<longleftrightarrow>
     relNumber a = relNumber b \<and> dbOid a = dbOid b \<and> spcOid a = spcOid b"

lemma RelFileLocatorEquals_iff [simp]: "RelFileLocatorEquals a b \<longleftrightarrow> a = b"
  by (cases a; cases b) (auto simp: RelFileLocatorEquals_def)

subsection \<open>Outcomes of elog and ereport\<close>

datatype elevel = ERROR | FATAL | PANIC

datatype errcode =
    E_UNSUPPORTED_FORK        \<comment> \<open>\<^verbatim>\<open>elog(ERROR, "unsupported fork number ...")\<close>\<close>
  | E_PROGRAM_LIMIT           \<comment> \<open>\<^verbatim>\<open>ERRCODE_PROGRAM_LIMIT_EXCEEDED\<close>\<close>
  | E_DATA_CORRUPTED          \<comment> \<open>\<^verbatim>\<open>ERRCODE_DATA_CORRUPTED\<close>\<close>
  | E_TABLE_FULL              \<comment> \<open>the superblock index or slot table is full\<close>
  | E_MAP_MISSING             \<comment> \<open>the metadata fork is missing\<close>
  | E_LOCK_NOT_AVAILABLE      \<comment> \<open>\<^verbatim>\<open>ERRCODE_LOCK_NOT_AVAILABLE\<close>\<close>
  | E_INTERNAL                \<comment> \<open>any other \<^verbatim>\<open>elog(ERROR)\<close>\<close>
  | E_FILE_ACCESS             \<comment> \<open>\<^verbatim>\<open>errcode_for_file_access()\<close>\<close>
  | E_WAIT                    \<comment> \<open>the code sleeps and retries until another backend acts\<close>

type_synonym um_error = "elevel \<times> errcode"

subsection \<open>State-and-error functions\<close>

type_synonym ('s, 'a) um = "'s \<Rightarrow> (um_error + 'a) \<times> 's"

definition returnU :: "'a \<Rightarrow> ('s, 'a) um" where
  [um_defs]: "returnU x = (\<lambda>s. (Inr x, s))"

definition throwU :: "um_error \<Rightarrow> ('s, 'a) um" where
  [um_defs]: "throwU e = (\<lambda>s. (Inl e, s))"

definition bindU :: "('s, 'a) um \<Rightarrow> ('a \<Rightarrow> ('s, 'b) um) \<Rightarrow> ('s, 'b) um" where
  [um_defs]: "bindU m f = (\<lambda>s. case m s of (Inl e, t) \<Rightarrow> (Inl e, t) | (Inr x, t) \<Rightarrow> f x t)"

definition getU :: "('s \<Rightarrow> 'a) \<Rightarrow> ('s, 'a) um" where
  [um_defs]: "getU f = (\<lambda>s. (Inr (f s), s))"

definition modifyU :: "('s \<Rightarrow> 's) \<Rightarrow> ('s, unit) um" where
  [um_defs]: "modifyU f = (\<lambda>s. (Inr (), f s))"

definition whenU :: "bool \<Rightarrow> ('s, unit) um \<Rightarrow> ('s, unit) um" where
  [um_defs]: "whenU b m = (if b then m else returnU ())"

text \<open>A plain fallible computation lifted to a stateful one.\<close>

definition liftU :: "um_error + 'a \<Rightarrow> ('s, 'a) um" where
  [um_defs]: "liftU r = (\<lambda>s. (r, s))"

text \<open>\<^verbatim>\<open>PG_TRY() { m } PG_CATCH() { h; PG_RE_THROW(); }\<close>: the handler runs on the state
  the body left behind and the original error is raised again.\<close>

definition catchU :: "('s, 'a) um \<Rightarrow> ('s, unit) um \<Rightarrow> ('s, 'a) um" where
  [um_defs]: "catchU m h = (\<lambda>s. case m s of
       (Inl e, t) \<Rightarrow> (case h t of (Inl e', t') \<Rightarrow> (Inl e', t') | (Inr _, t') \<Rightarrow> (Inl e, t'))
     | (Inr x, t) \<Rightarrow> (Inr x, t))"

text \<open>A \<^verbatim>\<open>for\<close> loop whose body may raise.\<close>

primrec forU :: "'i list \<Rightarrow> ('i \<Rightarrow> ('s, unit) um) \<Rightarrow> ('s, unit) um" where
  "forU [] body = returnU ()"
| "forU (i # is) body = bindU (body i) (\<lambda>_. forU is body)"

lemma bindU_returnU [simp]: "bindU (returnU x) f = f x"
  by (simp add: um_defs)

lemma bindU_throwU [simp]: "bindU (throwU e) f = throwU e"
  by (simp add: um_defs)

lemma whenU_simps [simp]: "whenU True m = m" "whenU False m = returnU ()"
  by (simp_all add: whenU_def)

lemma bindU_returnU_right [simp]: "bindU m returnU = m" "bindU m (\<lambda>_. returnU ()) = m"
  by (auto simp: um_defs fun_eq_iff split: prod.splits sum.splits)

lemma bindU_assoc: "bindU (bindU m f) g = bindU m (\<lambda>x. bindU (f x) g)"
  by (auto simp: um_defs fun_eq_iff split: prod.splits sum.splits)

lemma returnU_apply [runU]: "returnU x s = (Inr x, s)"
  by (simp add: um_defs)

lemma throwU_apply [runU]: "throwU e s = (Inl e, s)"
  by (simp add: um_defs)

lemma getU_apply [runU]: "getU f s = (Inr (f s), s)"
  by (simp add: um_defs)

lemma modifyU_apply [runU]: "modifyU f s = (Inr (), f s)"
  by (simp add: um_defs)

lemma liftU_apply [runU]: "liftU r s = (r, s)"
  by (simp add: um_defs)

lemma bindU_Inr: "m s = (Inr x, t) \<Longrightarrow> bindU m f s = f x t"
  by (simp add: bindU_def)

lemma bindU_Inl: "m s = (Inl e, t) \<Longrightarrow> bindU m f s = (Inl e, t)"
  by (simp add: bindU_def)

lemma bindU_eq_Inr:
  "bindU m f s = (Inr y, u) \<longleftrightarrow> (\<exists>x t. m s = (Inr x, t) \<and> f x t = (Inr y, u))"
  by (auto simp: bindU_def split: prod.splits sum.splits)

lemma bindU_eq_Inl:
  "bindU m f s = (Inl e, u) \<longleftrightarrow>
     m s = (Inl e, u) \<or> (\<exists>x t. m s = (Inr x, t) \<and> f x t = (Inl e, u))"
  by (auto simp: bindU_def split: prod.splits sum.splits)

lemma bindU_getU [runU]: "bindU (getU g) f s = f (g s) s"
  by (simp add: um_defs)

lemma bindU_modifyU [runU]: "bindU (modifyU g) f s = f () (g s)"
  by (simp add: um_defs)

lemma bindU_whenU [runU]: "bindU (whenU b m) f s = (if b then bindU m f s else f () s)"
  by (simp add: um_defs)

subsection \<open>Weakest preconditions\<close>

text \<open>\<open>wpU m Q s\<close> holds if running \<open>m\<close> from \<open>s\<close> ends with an outcome and a state that satisfy \<open>Q\<close>.
  The collection \<open>wp\<close> computes it through the combinators; facts about an operation are stated with
  it and carried over to callers by \<open>wpU_mono\<close>.\<close>

named_theorems wp \<open>weakest-precondition equations\<close>

definition wpU :: "('s, 'a) um \<Rightarrow> (um_error + 'a \<Rightarrow> 's \<Rightarrow> bool) \<Rightarrow> 's \<Rightarrow> bool" where
  "wpU m Q s = (case m s of (r, t) \<Rightarrow> Q r t)"

lemma wpU_returnU [wp]: "wpU (returnU x) Q s = Q (Inr x) s"
  by (simp add: wpU_def runU)

lemma wpU_Pair [wp]: "wpU (Pair r) Q s = Q r s"
  by (simp add: wpU_def runU)

lemma wpU_throwU [wp]: "wpU (throwU e) Q s = Q (Inl e) s"
  by (simp add: wpU_def runU)

lemma wpU_getU [wp]: "wpU (getU f) Q s = Q (Inr (f s)) s"
  by (simp add: wpU_def runU)

lemma wpU_modifyU [wp]: "wpU (modifyU f) Q s = Q (Inr ()) (f s)"
  by (simp add: wpU_def runU)

lemma wpU_liftU [wp]: "wpU (liftU r) Q s = Q r s"
  by (simp add: wpU_def runU)

lemma wpU_whenU [wp]: "wpU (whenU b m) Q s = (if b then wpU m Q s else Q (Inr ()) s)"
  by (simp add: wpU_def whenU_def runU)

lemma wpU_bindU [wp]:
  "wpU (bindU m f) Q s =
     wpU m (\<lambda>r t. case r of Inl e \<Rightarrow> Q (Inl e) t | Inr x \<Rightarrow> wpU (f x) Q t) s"
  by (auto simp: wpU_def bindU_def split: prod.splits sum.splits)

lemma wpU_if [wp]: "wpU (if b then m else n) Q s = (if b then wpU m Q s else wpU n Q s)"
  by simp

lemma wpU_case_option [wp]:
  "wpU (case x of None \<Rightarrow> m | Some y \<Rightarrow> n y) Q s =
     (case x of None \<Rightarrow> wpU m Q s | Some y \<Rightarrow> wpU (n y) Q s)"
  by (cases x) simp_all

lemma wpU_Let [wp]: "wpU (let x = a in m x) Q s = (let x = a in wpU (m x) Q s)"
  by (simp add: Let_def)

lemma wpU_mono:
  assumes "wpU m Q s" and "\<And>r t. Q r t \<Longrightarrow> R r t"
  shows "wpU m R s"
  using assms by (auto simp: wpU_def)

lemma wpU_conj: "wpU m P s \<Longrightarrow> wpU m Q s \<Longrightarrow> wpU m (\<lambda>r t. P r t \<and> Q r t) s"
  by (auto simp: wpU_def)

lemma wpU_bindI:
  assumes "wpU m P s" and "\<And>e t. P (Inl e) t \<Longrightarrow> Q (Inl e) t"
    and "\<And>x t. P (Inr x) t \<Longrightarrow> wpU (f x) Q t"
  shows "wpU (bindU m f) Q s"
  unfolding wpU_bindU using assms by (auto intro!: wpU_mono [OF assms(1)] split: sum.splits)

lemma wpU_eqI: "m s = n s \<Longrightarrow> wpU n Q s \<Longrightarrow> wpU m Q s"
  by (simp add: wpU_def runU)

lemma wpU_runD: "wpU m Q s \<Longrightarrow> m s = (r, t) \<Longrightarrow> Q r t"
  by (simp add: wpU_def runU)

lemma wpU_I: "(\<And>r t. m s = (r, t) \<Longrightarrow> Q r t) \<Longrightarrow> wpU m Q s"
  by (auto simp: wpU_def)

subsection \<open>Generic lemmas\<close>

lemma unat_u32_bound [simp]: "unat (w :: u32) < 4294967296"
  using unsigned_less [of w] by simp

lemma unat_ucast_u64 [simp]: "unat (ucast (w :: u32) :: u64) = unat w"
  by (simp add: unsigned_ucast_eq take_bit_nat_eq_self_iff order_less_trans [OF unat_u32_bound])

lemma u32_eq_iff_unat: "(a :: u32) = b \<longleftrightarrow> unat a = unat b"
  by (rule word_eq_iff_unsigned)

lemma unat_add_u64_small:
  "unat a + unat b < 2 ^ 64 \<Longrightarrow> unat ((a :: u64) + b) = unat a + unat b"
  by (simp add: unat_word_ariths)

lemma unat_mult_u64_small:
  "unat a * unat b < 2 ^ 64 \<Longrightarrow> unat ((a :: u64) * b) = unat a * unat b"
  by (simp add: unat_word_ariths)

lemma unat_InvalidBlockNumber [simp]: "unat InvalidBlockNumber = 4294967295"
  by (simp add: InvalidBlockNumber_def)

lemma unat_MaxBlockNumber [simp]: "unat MaxBlockNumber = 4294967294"
  by (simp add: MaxBlockNumber_def)

lemma RELSEG_SIZE_pos [simp]: "0 < RELSEG_SIZE"
  by (simp add: RELSEG_SIZE_def)

end
