(* ===== verification/MapLayout.thy ===== *)
theory MapLayout
  imports Umbra_Prelude
begin

text \<open>
  The layout of the metadata fork: the pure address arithmetic of
  \<^verbatim>\<open>src/backend/storage/map/map.c\<close> and the layout constants of
  \<^verbatim>\<open>src/include/storage/map.h\<close>, together with the free-space-map address arithmetic of
  \<^verbatim>\<open>src/backend/storage/freespace/freespace.c\<close> that decides which FSM blocks must be
  addressable. Block numbers are 32-bit words and the intermediate values are 64-bit words
  exactly where the C code widens them.
\<close>

subsection \<open>Layout constants\<close>

definition MAP_ENTRIES_PER_PAGE :: u32 where
  "MAP_ENTRIES_PER_PAGE = of_nat (BLCKSZ div 4)"

definition MAP_BLOCK_SUPER :: u32 where
  "MAP_BLOCK_SUPER = 0"

definition MAP_BLOCK_FIRST_GROUP :: u32 where
  "MAP_BLOCK_FIRST_GROUP = 1"

definition MAP_GROUP_FSM_PAGES :: u64 where
  "MAP_GROUP_FSM_PAGES = 1"

definition MAP_GROUP_VM_PAGES :: u64 where
  "MAP_GROUP_VM_PAGES = 1"

definition MAP_GROUP_MAIN_PAGES :: u64 where
  "MAP_GROUP_MAIN_PAGES = 8192"

definition MAP_GROUP_TOTAL_PAGES :: u64 where
  "MAP_GROUP_TOTAL_PAGES = MAP_GROUP_FSM_PAGES + MAP_GROUP_VM_PAGES + MAP_GROUP_MAIN_PAGES"

lemmas map_layout_defs =
  MAP_ENTRIES_PER_PAGE_def MAP_BLOCK_SUPER_def MAP_BLOCK_FIRST_GROUP_def BLCKSZ_def
  MAP_GROUP_FSM_PAGES_def MAP_GROUP_VM_PAGES_def MAP_GROUP_MAIN_PAGES_def
  MAP_GROUP_TOTAL_PAGES_def

subsection \<open>Address arithmetic\<close>

definition MapForkPageIndexToMapBlkno :: "ForkNumber \<Rightarrow> BlockNumber \<Rightarrow> um_error + BlockNumber"
  where
  "MapForkPageIndexToMapBlkno forknum fork_page_idx =
     (if forknum = UMBRA_METADATA_FORKNUM then Inl (ERROR, E_INTERNAL)
      else
        let group_page_idx = (ucast fork_page_idx :: u64);
            blkno64 = (case forknum of
                FSM_FORKNUM \<Rightarrow>
                  Some (ucast MAP_BLOCK_FIRST_GROUP + group_page_idx * MAP_GROUP_TOTAL_PAGES)
              | VISIBILITYMAP_FORKNUM \<Rightarrow>
                  Some (ucast MAP_BLOCK_FIRST_GROUP + group_page_idx * MAP_GROUP_TOTAL_PAGES +
                        MAP_GROUP_FSM_PAGES)
              | MAIN_FORKNUM \<Rightarrow>
                  Some (ucast MAP_BLOCK_FIRST_GROUP +
                        (group_page_idx div MAP_GROUP_MAIN_PAGES) * MAP_GROUP_TOTAL_PAGES +
                        MAP_GROUP_FSM_PAGES + MAP_GROUP_VM_PAGES +
                        group_page_idx mod MAP_GROUP_MAIN_PAGES)
              | _ \<Rightarrow> None)
        in case blkno64 of
             None \<Rightarrow> Inl (ERROR, E_UNSUPPORTED_FORK)
           | Some b \<Rightarrow> if b > ucast MaxBlockNumber then Inl (ERROR, E_PROGRAM_LIMIT)
                       else Inr (ucast b))"

definition MapLblknoToMapBlkno :: "ForkNumber \<Rightarrow> BlockNumber \<Rightarrow> um_error + BlockNumber" where
  "MapLblknoToMapBlkno forknum lblkno =
     (case MapForkPageIndexToMapBlkno forknum (lblkno div MAP_ENTRIES_PER_PAGE) of
        Inl e \<Rightarrow> Inl e
      | Inr b \<Rightarrow>
          let entry64 = (ucast b :: u64) * ucast MAP_ENTRIES_PER_PAGE +
                        ucast (lblkno mod MAP_ENTRIES_PER_PAGE)
          in if entry64 > ucast MaxBlockNumber then Inl (ERROR, E_PROGRAM_LIMIT)
             else Inr (ucast entry64))"

definition MapDecodeMapBlkno :: "BlockNumber \<Rightarrow> (ForkNumber \<times> BlockNumber) option" where
  "MapDecodeMapBlkno map_blkno =
     (if map_blkno = MAP_BLOCK_SUPER \<or> map_blkno < MAP_BLOCK_FIRST_GROUP then None
      else
        let offset = (ucast (map_blkno - MAP_BLOCK_FIRST_GROUP) :: u64);
            group_no = offset div MAP_GROUP_TOTAL_PAGES;
            in_group = offset mod MAP_GROUP_TOTAL_PAGES
        in if in_group < MAP_GROUP_FSM_PAGES then Some (FSM_FORKNUM, ucast group_no)
           else let in_group = in_group - MAP_GROUP_FSM_PAGES
           in if in_group < MAP_GROUP_VM_PAGES then Some (VISIBILITYMAP_FORKNUM, ucast group_no)
              else let in_group = in_group - MAP_GROUP_VM_PAGES
              in if in_group < MAP_GROUP_MAIN_PAGES
                 then Some (MAIN_FORKNUM, ucast (group_no * MAP_GROUP_MAIN_PAGES + in_group))
                 else None)"

text \<open>The split of a linear MAP entry number into page and slot that every caller repeats
  (\<^verbatim>\<open>map_blkno % MAP_ENTRIES_PER_PAGE\<close>, \<^verbatim>\<open>map_blkno / MAP_ENTRIES_PER_PAGE\<close>; in
  \<^verbatim>\<open>mapinflight.c\<close> it is the function \<^verbatim>\<open>MapInflightDecode\<close>).\<close>

definition MapInflightDecode ::
  "ForkNumber \<Rightarrow> BlockNumber \<Rightarrow> um_error + (BlockNumber \<times> nat)" where
  "MapInflightDecode forknum lblkno =
     (case MapLblknoToMapBlkno forknum lblkno of
        Inl e \<Rightarrow> Inl e
      | Inr e \<Rightarrow> Inr (e div MAP_ENTRIES_PER_PAGE, unat (e mod MAP_ENTRIES_PER_PAGE)))"

record MapTruncateRange =
  start_map_page :: BlockNumber
  start_entry_idx :: nat
  end_map_page :: BlockNumber
  end_entry_idx :: nat

definition MapTruncateEntryRange ::
  "ForkNumber \<Rightarrow> BlockNumber \<Rightarrow> BlockNumber \<Rightarrow> MapTruncateRange option" where
  "MapTruncateEntryRange forknum n_lblknos old_n_lblknos =
     (if old_n_lblknos \<le> n_lblknos then None
      else Some \<lparr>start_map_page = n_lblknos div MAP_ENTRIES_PER_PAGE,
                 start_entry_idx = unat (n_lblknos mod MAP_ENTRIES_PER_PAGE),
                 end_map_page = (old_n_lblknos - 1) div MAP_ENTRIES_PER_PAGE,
                 end_entry_idx = unat ((old_n_lblknos - 1) mod MAP_ENTRIES_PER_PAGE)\<rparr>)"

subsection \<open>Preallocation settings\<close>

text \<open>The \<^verbatim>\<open>map_prealloc_*\<close> settings are signed C ints.\<close>

record MapPreallocGucs =
  map_prealloc_main_low :: int
  map_prealloc_main_hard :: int
  map_prealloc_main_batch :: int
  map_prealloc_fsm_low :: int
  map_prealloc_fsm_hard :: int
  map_prealloc_fsm_batch :: int
  map_prealloc_vm_low :: int
  map_prealloc_vm_hard :: int
  map_prealloc_vm_batch :: int

definition MapForkPreallocSettings ::
  "MapPreallocGucs \<Rightarrow> ForkNumber \<Rightarrow> (BlockNumber \<times> BlockNumber \<times> BlockNumber) option" where
  "MapForkPreallocSettings g forknum =
     (case (case forknum of
          MAIN_FORKNUM \<Rightarrow>
            Some (map_prealloc_main_low g, map_prealloc_main_hard g, map_prealloc_main_batch g)
        | FSM_FORKNUM \<Rightarrow>
            Some (map_prealloc_fsm_low g, map_prealloc_fsm_hard g, map_prealloc_fsm_batch g)
        | VISIBILITYMAP_FORKNUM \<Rightarrow>
            Some (map_prealloc_vm_low g, map_prealloc_vm_hard g, map_prealloc_vm_batch g)
        | _ \<Rightarrow> None) of
        None \<Rightarrow> None
      | Some (low, hard, batch) \<Rightarrow>
          if low \<le> 0 \<or> batch \<le> 0 then None
          else
            let hard = (if hard \<le> 0 then 1 else hard);
                hard = (if hard > low then low else hard)
            in Some (word_of_int low, word_of_int hard, word_of_int batch))"

subsection \<open>Free-space-map addresses\<close>

definition SlotsPerFSMPage :: nat where
  "SlotsPerFSMPage = (BLCKSZ - 24 - 4) - (BLCKSZ div 2 - 1)"

definition FSM_TREE_DEPTH :: nat where
  "FSM_TREE_DEPTH = (if SlotsPerFSMPage \<ge> 1626 then 3 else 4)"

record FSMAddress =
  level :: nat
  logpageno :: nat

definition fsm_get_location :: "BlockNumber \<Rightarrow> FSMAddress \<times> nat" where
  "fsm_get_location heapblk =
     (\<lparr>level = 0, logpageno = unat heapblk div SlotsPerFSMPage\<rparr>, unat heapblk mod SlotsPerFSMPage)"

text \<open>The counting loop over the tree levels, on the values it has in range: for a location
  returned by \<^const>\<open>fsm_get_location\<close> none of the C \<^verbatim>\<open>int\<close> operations overflows
  (\<open>fsm_leaf_small\<close> below).\<close>

primrec fsm_count_pages :: "nat \<Rightarrow> nat \<Rightarrow> nat" where
  "fsm_count_pages 0 leafno = 0"
| "fsm_count_pages (Suc l) leafno =
     (leafno + 1) + fsm_count_pages l (leafno div SlotsPerFSMPage)"

definition fsm_logical_to_physical :: "FSMAddress \<Rightarrow> nat" where
  "fsm_logical_to_physical addr =
     fsm_count_pages FSM_TREE_DEPTH (logpageno addr * SlotsPerFSMPage ^ level addr)
       - level addr - 1"

subsection \<open>Numeric characterisations\<close>

text \<open>The word arithmetic never wraps before the limit test, so each function has a plain
  description on natural numbers.\<close>

fun map_page_nat :: "ForkNumber \<Rightarrow> nat \<Rightarrow> nat option" where
  "map_page_nat FSM_FORKNUM i = Some (1 + i * 8194)"
| "map_page_nat VISIBILITYMAP_FORKNUM i = Some (2 + i * 8194)"
| "map_page_nat MAIN_FORKNUM i = Some (3 + (i div 8192) * 8194 + i mod 8192)"
| "map_page_nat _ i = None"

lemma MAP_ENTRIES_PER_PAGE_unat [simp]: "unat MAP_ENTRIES_PER_PAGE = 2048"
  by (simp add: map_layout_defs)

lemma unat_div_entries [simp]: "unat (l div MAP_ENTRIES_PER_PAGE) = unat l div 2048"
  by (simp add: unat_div)

lemma unat_mod_entries [simp]: "unat (l mod MAP_ENTRIES_PER_PAGE) = unat l mod 2048"
  by (simp add: unat_mod)

lemma group_nat:
  "unat ((ucast (i :: u32) :: u64) div MAP_GROUP_MAIN_PAGES) = unat i div 8192"
  "unat ((ucast (i :: u32) :: u64) mod MAP_GROUP_MAIN_PAGES) = unat i mod 8192"
  "unat ((ucast (i :: u32) :: u64) div MAP_GROUP_TOTAL_PAGES) = unat i div 8194"
  "unat ((ucast (i :: u32) :: u64) mod MAP_GROUP_TOTAL_PAGES) = unat i mod 8194"
  by (simp_all add: unat_div unat_mod map_layout_defs)

lemma ucast_u64_limit:
  fixes b :: u64
  shows "b > ucast MaxBlockNumber \<longleftrightarrow> unat b > 4294967294"
    and "\<not> b > ucast MaxBlockNumber \<Longrightarrow> unat (ucast b :: u32) = unat b"
  by (simp_all add: word_less_nat_alt unsigned_ucast_eq take_bit_nat_eq_self_iff)

lemma map_page_word_nat:
  fixes i :: u32
  shows "unat (ucast MAP_BLOCK_FIRST_GROUP + ucast i * MAP_GROUP_TOTAL_PAGES :: u64) =
      1 + unat i * 8194" (is ?fsm)
    and "unat (ucast MAP_BLOCK_FIRST_GROUP + ucast i * MAP_GROUP_TOTAL_PAGES +
      MAP_GROUP_FSM_PAGES :: u64) = 2 + unat i * 8194" (is ?vm)
    and "unat (ucast MAP_BLOCK_FIRST_GROUP +
      (ucast i div MAP_GROUP_MAIN_PAGES) * MAP_GROUP_TOTAL_PAGES +
      MAP_GROUP_FSM_PAGES + MAP_GROUP_VM_PAGES + ucast i mod MAP_GROUP_MAIN_PAGES :: u64) =
      3 + (unat i div 8192) * 8194 + unat i mod 8192" (is ?main)
proof -
  have bound: "unat i * 8194 < 40000000000000" "(unat i div 8192) * 8194 < 40000000000000"
    "unat i mod 8192 < 8192" "(2 :: nat) ^ 64 = 18446744073709551616"
    using unat_u32_bound [of i] by (linarith, linarith, simp_all)
  have c: "unat MAP_GROUP_TOTAL_PAGES = 8194" "unat (ucast MAP_BLOCK_FIRST_GROUP :: u64) = 1"
    "unat MAP_GROUP_FSM_PAGES = 1" "unat MAP_GROUP_VM_PAGES = 1"
    by (simp_all add: map_layout_defs)
  have m: "unat ((ucast i :: u64) * MAP_GROUP_TOTAL_PAGES) = unat i * 8194"
    by (subst unat_mult_u64_small) (unfold c unat_ucast_u64, use bound in linarith, simp)
  have add: "unat (x + y) = a + b"
    if "unat x = a" "unat y = b" "a + b < 40000000100000" for x y :: u64 and a b
    by (subst unat_add_u64_small) (use that bound in linarith)+
  show fsm: ?fsm
    by (rule add [OF c(2) m]) (use bound in linarith)
  show ?vm
    using add [OF fsm c(3)] bound by linarith
  have m2: "unat ((ucast i div MAP_GROUP_MAIN_PAGES :: u64) * MAP_GROUP_TOTAL_PAGES) =
      (unat i div 8192) * 8194"
    by (subst unat_mult_u64_small) (unfold c group_nat, use bound in linarith, simp)
  have s1: "1 + (unat i div 8192) * 8194 < 40000000100000"
    "1 + (unat i div 8192) * 8194 + 1 < 40000000100000"
    "1 + (unat i div 8192) * 8194 + 1 + 1 < 40000000100000"
    "1 + (unat i div 8192) * 8194 + 1 + 1 + unat i mod 8192 < 40000000100000"
    using bound by linarith+
  show ?main
    using add [OF add [OF add [OF add [OF c(2) m2 s1(1)] c(3) s1(2)] c(4) s1(3)]
      group_nat(2) s1(4)] by linarith
qed

lemma MapForkPageIndexToMapBlkno_nat:
  "MapForkPageIndexToMapBlkno f i = Inr b \<longleftrightarrow>
     map_page_nat f (unat i) = Some (unat b) \<and> unat b \<le> 4294967294"
proof -
  have lim: "(if x > ucast MaxBlockNumber then Inl e else Inr (ucast x)) = Inr b \<longleftrightarrow>
      unat x = unat b \<and> unat b \<le> 4294967294" for x :: u64 and e :: um_error
    using ucast_u64_limit [of x] by (auto simp: u32_eq_iff_unat)
  show ?thesis
    by (cases f)
      (auto simp: MapForkPageIndexToMapBlkno_def Let_def lim map_page_word_nat)
qed

lemma MapForkPageIndexToMapBlkno_fails:
  "map_page_nat f (unat i) = Some n \<Longrightarrow> n > 4294967294 \<Longrightarrow>
     MapForkPageIndexToMapBlkno f i = Inl (ERROR, E_PROGRAM_LIMIT)"
  by (cases f)
    (auto simp: MapForkPageIndexToMapBlkno_def Let_def ucast_u64_limit map_page_word_nat)

lemma MapLblknoToMapBlkno_nat:
  "MapLblknoToMapBlkno f l = Inr e \<longleftrightarrow>
     (\<exists>p. map_page_nat f (unat l div 2048) = Some p \<and>
          p * 2048 + unat l mod 2048 = unat e \<and> unat e \<le> 4294967294)" (is "?L \<longleftrightarrow> ?R")
proof -
  have entry: "unat ((ucast (b :: u32) :: u64) * ucast MAP_ENTRIES_PER_PAGE +
      ucast (l mod MAP_ENTRIES_PER_PAGE)) = unat b * 2048 + unat l mod 2048" for b
  proof -
    have bb: "unat b * 2048 < 8796093022208" "(2 :: nat) ^ 64 = 18446744073709551616"
      "unat l mod 2048 < 2048"
      using unat_u32_bound [of b] by (linarith, simp_all)
    have m: "unat ((ucast b :: u64) * ucast MAP_ENTRIES_PER_PAGE) = unat b * 2048"
      by (subst unat_mult_u64_small)
        (unfold unat_ucast_u64 MAP_ENTRIES_PER_PAGE_unat, use bb in linarith, simp)
    show ?thesis
      by (subst unat_add_u64_small)
        (unfold m unat_ucast_u64 unat_mod_entries, use bb in linarith, simp)
  qed
  have lim: "(if x > ucast MaxBlockNumber then Inl er else Inr (ucast x)) = Inr e \<longleftrightarrow>
      unat x = unat e \<and> unat e \<le> 4294967294" for x :: u64 and er :: um_error
    using ucast_u64_limit [of x] by (auto simp: u32_eq_iff_unat)
  show ?thesis
  proof
    assume ?L
    then obtain b where b: "MapForkPageIndexToMapBlkno f (l div MAP_ENTRIES_PER_PAGE) = Inr b"
      by (auto simp: MapLblknoToMapBlkno_def split: sum.splits)
    with \<open>?L\<close> show ?R
      using b [unfolded MapForkPageIndexToMapBlkno_nat]
      unfolding MapLblknoToMapBlkno_def Let_def b sum.case lim entry by simp
  next
    assume ?R
    then obtain p where p: "map_page_nat f (unat l div 2048) = Some p"
      "p * 2048 + unat l mod 2048 = unat e" "unat e \<le> 4294967294"
      by blast
    have u: "unat (of_nat p :: u32) = p"
      using p(2,3) by (simp add: unat_of_nat)
    have b: "MapForkPageIndexToMapBlkno f (l div MAP_ENTRIES_PER_PAGE) = Inr (of_nat p)"
      using p by (simp add: MapForkPageIndexToMapBlkno_nat u)
    show ?L
      unfolding MapLblknoToMapBlkno_def Let_def b sum.case lim entry
      using p u by simp
  qed
qed

lemma MapInflightDecode_nat:
  "MapInflightDecode f l = Inr (p, s) \<longleftrightarrow>
     map_page_nat f (unat l div 2048) = Some (unat p) \<and> s = unat l mod 2048 \<and>
     unat p * 2048 + s \<le> 4294967294"
proof -
  have "MapInflightDecode f l = Inr (p, s) \<longleftrightarrow>
      (\<exists>e. MapLblknoToMapBlkno f l = Inr e \<and> unat p = unat e div 2048 \<and> s = unat e mod 2048)"
    by (auto simp: MapInflightDecode_def u32_eq_iff_unat split: sum.splits)
  also have "\<dots> \<longleftrightarrow> (\<exists>n. map_page_nat f (unat l div 2048) = Some n \<and>
      n * 2048 + unat l mod 2048 \<le> 4294967294 \<and> unat p = n \<and> s = unat l mod 2048)"
    (is "?A \<longleftrightarrow> ?B")
  proof
    assume ?A
    then obtain e :: u32 and n where en: "map_page_nat f (unat l div 2048) = Some n"
      "n * 2048 + unat l mod 2048 = unat e" "unat e \<le> 4294967294"
      "unat p = unat e div 2048" "s = unat e mod 2048"
      unfolding MapLblknoToMapBlkno_nat by blast
    then show ?B by (intro exI [of _ n]) (simp flip: en(2))
  next
    assume ?B
    then obtain n where n: "map_page_nat f (unat l div 2048) = Some n"
      "n * 2048 + unat l mod 2048 \<le> 4294967294" "unat p = n" "s = unat l mod 2048"
      by blast
    then have "unat (of_nat (n * 2048 + unat l mod 2048) :: u32) = n * 2048 + unat l mod 2048"
      by (simp add: unat_of_nat del: of_nat_add of_nat_mult)
    with n show ?A
      unfolding MapLblknoToMapBlkno_nat
      by (intro exI [of _ "of_nat (n * 2048 + unat l mod 2048)"]) (simp del: of_nat_add of_nat_mult)
  qed
  finally show ?thesis by auto
qed

fun map_decode_nat :: "nat \<Rightarrow> ForkNumber \<times> nat" where
  "map_decode_nat off =
     (if off mod 8194 = 0 then (FSM_FORKNUM, off div 8194)
      else if off mod 8194 = 1 then (VISIBILITYMAP_FORKNUM, off div 8194)
      else (MAIN_FORKNUM, off div 8194 * 8192 + (off mod 8194 - 2)))"

lemma map_decode_page_nat:
  "map_page_nat f i = Some n \<Longrightarrow> n \<noteq> 0 \<and> map_decode_nat (n - 1) = (f, i)"
proof (induction f i rule: map_page_nat.induct)
  case (1 i)
  then have "n - 1 = i * 8194" by simp
  then show ?case using 1 by simp
next
  case (2 i)
  then have n: "n - 1 = 1 + i * 8194" by simp
  have "(n - 1) mod 8194 = 1" "(n - 1) div 8194 = i"
    unfolding n by (simp_all only: mod_mult_self1 div_mult_self1) simp_all
  then show ?case using 2 by simp
next
  case (3 i)
  then have n: "n - 1 = (2 + i mod 8192) + (i div 8192) * 8194" by simp
  have "(n - 1) mod 8194 = 2 + i mod 8192" "(n - 1) div 8194 = i div 8192"
    unfolding n by (simp_all only: mod_mult_self1 div_mult_self1) simp_all
  then show ?case using 3 by simp
qed simp_all

lemma map_page_decode_nat:
  assumes "map_decode_nat off = (f, i)"
  shows "map_page_nat f i = Some (off + 1)"
proof -
  have split: "off = off div 8194 * 8194 + off mod 8194" by simp
  consider "off mod 8194 = 0" | "off mod 8194 = 1" | "off mod 8194 \<ge> 2" by linarith
  then show ?thesis
  proof cases
    case 3
    then have i: "f = MAIN_FORKNUM" "i = off div 8194 * 8192 + (off mod 8194 - 2)"
      using assms by auto
    have m: "off mod 8194 - 2 < 8192"
      using mod_less_divisor [of 8194 off] 3 by linarith
    have "i div 8192 = off div 8194" "i mod 8192 = off mod 8194 - 2"
      unfolding i(2) using m by simp_all
    then show ?thesis using i(1) split 3 by simp
  qed (use assms split in auto)
qed

lemma MapDecodeMapBlkno_nat:
  assumes "b \<noteq> MAP_BLOCK_SUPER"
  shows "\<exists>f i. MapDecodeMapBlkno b = Some (f, i) \<and> map_decode_nat (unat b - 1) = (f, unat i)"
proof -
  have pos: "unat b \<noteq> 0"
    using assms by (simp add: MAP_BLOCK_SUPER_def unat_eq_zero)
  have off: "unat (b - MAP_BLOCK_FIRST_GROUP) = unat b - 1"
    using pos by (subst unat_sub) (simp_all add: MAP_BLOCK_FIRST_GROUP_def word_le_nat_alt)
  define g r where "g = (ucast (b - MAP_BLOCK_FIRST_GROUP) :: u64) div MAP_GROUP_TOTAL_PAGES"
    and "r = (ucast (b - MAP_BLOCK_FIRST_GROUP) :: u64) mod MAP_GROUP_TOTAL_PAGES"
  have gr: "unat g = (unat b - 1) div 8194" "unat r = (unat b - 1) mod 8194"
    unfolding g_def r_def group_nat off by simp_all
  have bnd: "unat b < 4294967296" "unat r < 8194"
    using gr by simp_all
  have narrow: "unat (ucast x :: u32) = unat x" if "unat x < 4294967296" for x :: u64
    using that by (simp add: unsigned_ucast_eq take_bit_nat_eq_self_iff)
  have ug: "unat (ucast g :: u32) = unat g"
    using bnd gr by (intro narrow) linarith
  have c: "unat MAP_GROUP_FSM_PAGES = 1" "unat MAP_GROUP_VM_PAGES = 1"
    "unat MAP_GROUP_MAIN_PAGES = 8192"
    by (simp_all add: map_layout_defs)
  have s1: "unat (r - MAP_GROUP_FSM_PAGES) = unat r - 1" if "unat r \<ge> 1"
    using that by (subst unat_sub) (simp_all add: word_le_nat_alt c)
  have s2: "unat (r - MAP_GROUP_FSM_PAGES - MAP_GROUP_VM_PAGES) = unat r - 2" if "unat r \<ge> 2"
    using that s1 by (subst unat_sub) (simp_all add: word_le_nat_alt c)
  have m: "unat (ucast (g * MAP_GROUP_MAIN_PAGES + (r - MAP_GROUP_FSM_PAGES - MAP_GROUP_VM_PAGES))
      :: u32) = unat g * 8192 + (unat r - 2)" if "unat r \<ge> 2"
  proof -
    have lt: "unat g * 8192 + (unat r - 2) < 4294967296"
      using gr bnd div_mult_mod_eq [of "unat b - 1" 8194] by linarith
    then have mul: "unat (g * MAP_GROUP_MAIN_PAGES) = unat g * 8192"
      by (subst unat_mult_u64_small) (simp_all add: c)
    have "unat (g * MAP_GROUP_MAIN_PAGES + (r - MAP_GROUP_FSM_PAGES - MAP_GROUP_VM_PAGES)) =
        unat g * 8192 + (unat r - 2)"
      using lt by (subst unat_add_u64_small) (simp_all add: mul s2 that)
    then show ?thesis using lt by (simp add: narrow)
  qed
  have first: "\<not> b < MAP_BLOCK_FIRST_GROUP"
    using pos by (simp add: word_less_nat_alt MAP_BLOCK_FIRST_GROUP_def)
  have dec: "map_decode_nat (unat b - 1) =
      (if unat r = 0 then (FSM_FORKNUM, unat g)
       else if unat r = 1 then (VISIBILITYMAP_FORKNUM, unat g)
       else (MAIN_FORKNUM, unat g * 8192 + (unat r - 2)))"
    by (simp only: map_decode_nat.simps gr)
  consider "unat r = 0" | "unat r = 1" | "unat r \<ge> 2" by linarith
  then show ?thesis
    unfolding MapDecodeMapBlkno_def Let_def g_def [symmetric] r_def [symmetric] dec
    by cases (use assms first bnd in
      \<open>auto simp: word_less_nat_alt c s1 s2 m ug simp del: map_decode_nat.simps\<close>)
qed

subsection \<open>Properties of the layout\<close>

text \<open>C17: decoding inverts encoding in both directions. A metadata block other than the
  superblock and the invalid block number belongs to exactly one page of exactly one fork: the
  decoder answers a fork page exactly when the encoder maps that page to the block.\<close>

theorem MapDecodeMapBlkno_iff_encode:
  assumes "b \<noteq> InvalidBlockNumber"
  shows "MapDecodeMapBlkno b = Some (f, i) \<longleftrightarrow> MapForkPageIndexToMapBlkno f i = Inr b"
    (is "?D \<longleftrightarrow> ?E")
proof
  assume d: ?D
  then have nz: "b \<noteq> MAP_BLOCK_SUPER"
    by (auto simp: MapDecodeMapBlkno_def)
  with d have "map_decode_nat (unat b - 1) = (f, unat i)"
    using MapDecodeMapBlkno_nat [OF nz] by auto
  then have "map_page_nat f (unat i) = Some (unat b - 1 + 1)"
    by (rule map_page_decode_nat)
  moreover have "unat b - 1 + 1 = unat b"
    using nz by (cases "unat b") (simp_all add: MAP_BLOCK_SUPER_def unat_eq_zero)
  moreover have "unat b \<le> 4294967294"
    using assms unat_u32_bound [of b] unfolding u32_eq_iff_unat unat_InvalidBlockNumber
    by linarith
  ultimately show ?E
    by (simp add: MapForkPageIndexToMapBlkno_nat)
next
  assume ?E
  then have p: "map_page_nat f (unat i) = Some (unat b)"
    by (simp add: MapForkPageIndexToMapBlkno_nat)
  from map_decode_page_nat [OF p]
  have nz: "b \<noteq> MAP_BLOCK_SUPER" and dec: "map_decode_nat (unat b - 1) = (f, unat i)"
    by (auto simp: MAP_BLOCK_SUPER_def)
  show ?D
    using MapDecodeMapBlkno_nat [OF nz] dec by (auto simp: u32_eq_iff_unat)
qed

theorem MapDecodeMapBlkno_iff_encode_witness:
  "MapDecodeMapBlkno 8195 = Some (FSM_FORKNUM, 1) \<and>
   MapForkPageIndexToMapBlkno FSM_FORKNUM 1 = Inr 8195"
proof -
  have "(8195 :: u32) \<noteq> InvalidBlockNumber"
    by (simp add: InvalidBlockNumber_def)
  moreover have "MapDecodeMapBlkno 8195 = Some (FSM_FORKNUM, 1)"
    by (simp add: MapDecodeMapBlkno_def map_layout_defs)
  ultimately show ?thesis
    using MapDecodeMapBlkno_iff_encode [of 8195 FSM_FORKNUM 1] by simp
qed

text \<open>C27: the decoder is total on data blocks: every metadata block other than the superblock
  decodes to a page of the MAIN, FSM or visibility-map fork, so the C function's two internal
  error branches for unknown offsets are unreachable.\<close>

theorem MapDecodeMapBlkno_total:
  "(\<exists>f i. MapDecodeMapBlkno b = Some (f, i) \<and>
      f \<in> {MAIN_FORKNUM, FSM_FORKNUM, VISIBILITYMAP_FORKNUM}) \<longleftrightarrow> b \<noteq> MAP_BLOCK_SUPER"
proof
  assume "b \<noteq> MAP_BLOCK_SUPER"
  from MapDecodeMapBlkno_nat [OF this]
  show "\<exists>f i. MapDecodeMapBlkno b = Some (f, i) \<and>
      f \<in> {MAIN_FORKNUM, FSM_FORKNUM, VISIBILITYMAP_FORKNUM}"
    by (auto split: if_splits)
qed (auto simp: MapDecodeMapBlkno_def)

text \<open>C18: no two logical blocks share a MAP entry. If two fork blocks are given the same
  metadata page and slot then they are the same block of the same fork, and the page is never
  the superblock.\<close>

theorem MapInflightDecode_injective:
  assumes "MapInflightDecode f l = Inr (p, s)" and "MapInflightDecode f' l' = Inr (p, s)"
  shows "f = f' \<and> l = l' \<and> p \<noteq> MAP_BLOCK_SUPER \<and> s < unat MAP_ENTRIES_PER_PAGE"
proof -
  have a: "map_page_nat f (unat l div 2048) = Some (unat p)" "s = unat l mod 2048"
    "map_page_nat f' (unat l' div 2048) = Some (unat p)" "s = unat l' mod 2048"
    using assms by (auto simp: MapInflightDecode_nat)
  have d: "f = f'" "unat l div 2048 = unat l' div 2048" "unat p \<noteq> 0"
    using map_decode_page_nat [OF a(1)] map_decode_page_nat [OF a(3)] by simp_all
  then have "unat l = unat l'"
    using a div_mult_mod_eq [of "unat l" 2048] div_mult_mod_eq [of "unat l'" 2048] by simp
  then show ?thesis
    using d a by (auto simp: u32_eq_iff_unat MAP_BLOCK_SUPER_def)
qed

theorem MapInflightDecode_injective_witness:
  "MapInflightDecode MAIN_FORKNUM 2049 = Inr (4, 1) \<and> (4 :: u32) \<noteq> MAP_BLOCK_SUPER"
proof -
  have e: "MapInflightDecode MAIN_FORKNUM 2049 = Inr (4, 1)"
    by (simp add: MapInflightDecode_nat)
  then show ?thesis
    using MapInflightDecode_injective [OF e e] by simp
qed

lemma MapLblknoToMapBlkno_defined_nat:
  "(\<exists>e. MapLblknoToMapBlkno f l = Inr e) \<longleftrightarrow>
     (\<exists>p. map_page_nat f (unat l div 2048) = Some p \<and>
          p * 2048 + unat l mod 2048 \<le> 4294967294)" (is "?L \<longleftrightarrow> ?R")
proof
  assume ?R
  then obtain p where p: "map_page_nat f (unat l div 2048) = Some p"
    "p * 2048 + unat l mod 2048 \<le> 4294967294" by blast
  then have "unat (of_nat (p * 2048 + unat l mod 2048) :: u32) = p * 2048 + unat l mod 2048"
    by (simp add: unat_of_nat del: of_nat_add of_nat_mult)
  with p have "MapLblknoToMapBlkno f l = Inr (of_nat (p * 2048 + unat l mod 2048))"
    by (simp add: MapLblknoToMapBlkno_nat del: of_nat_add of_nat_mult)
  then show ?L by blast
qed (auto simp: MapLblknoToMapBlkno_nat)

lemma aux_fork_limit:
  assumes "c \<le> 2"
  shows "(c + n div 2048 * 8194) * 2048 + n mod 2048 \<le> 4294967294 \<longleftrightarrow> n < (524288 :: nat)"
proof -
  obtain q r where q: "n div 2048 = q" "n mod 2048 = r" by simp
  have n: "n = 2048 * q + r" "r < 2048"
    unfolding q [symmetric] by (simp_all only: mult_div_mod_eq mod_less_divisor zero_less_numeral)
  consider "q \<le> 255" | "q \<ge> 256" by linarith
  then show ?thesis
  proof cases
    case 1
    with n assms have "c * 2048 + q * 8194 * 2048 + r \<le> 4294967294" "n < 524288" by linarith+
    then show ?thesis unfolding q distrib_right by blast
  next
    case 2
    with n assms have "\<not> c * 2048 + q * 8194 * 2048 + r \<le> 4294967294" "\<not> n < 524288"
      by linarith+
    then show ?thesis unfolding q distrib_right by blast
  qed
qed

lemma main_fork_limit:
  "(3 + n div 2048 div 8192 * 8194 + n div 2048 mod 8192) * 2048 + n mod 2048
     \<le> 4294967294 \<longleftrightarrow> n \<le> (4293916670 :: nat)"
proof -
  obtain g m r where q: "n div 2048 div 8192 = g" "n div 2048 mod 8192 = m" "n mod 2048 = r"
    by simp
  have "n = 2048 * (8192 * g + m) + r"
    unfolding q [symmetric] by (simp_all only: mult_div_mod_eq)
  then have n: "n = 2048 * (8192 * g) + 2048 * m + r" "m < 8192" "r < 2048"
    unfolding q [symmetric] by (simp_all only: distrib_left mod_less_divisor zero_less_numeral)
  let ?e = "3 * 2048 + g * 8194 * 2048 + m * 2048 + r"
  consider "g \<le> 254" | "g = 255" | "g \<ge> 256" by linarith
  then have "?e \<le> 4294967294 \<longleftrightarrow> n \<le> 4293916670"
  proof cases
    case 1
    with n have "?e \<le> 4294967294" "n \<le> 4293916670" by linarith+
    then show ?thesis by blast
  next
    case 2
    with n have "?e = 4279240704 + m * 2048 + r" "n = 4278190080 + m * 2048 + r" by linarith+
    then show ?thesis by linarith
  next
    case 3
    with n have "\<not> ?e \<le> 4294967294" "\<not> n \<le> 4293916670" by linarith+
    then show ?thesis by blast
  qed
  then show ?thesis unfolding q distrib_right .
qed

text \<open>C24: exact addressing limits. A MAIN block has a MAP entry if and only if its number is at
  most 4293916670; an FSM or visibility-map block if and only if its number is below 524288; no
  other fork has MAP entries.\<close>

theorem MapLblknoToMapBlkno_addressable:
  "(\<exists>e. MapLblknoToMapBlkno f l = Inr e) \<longleftrightarrow>
     (case f of MAIN_FORKNUM \<Rightarrow> unat l \<le> 4293916670
      | FSM_FORKNUM \<Rightarrow> unat l < 524288
      | VISIBILITYMAP_FORKNUM \<Rightarrow> unat l < 524288
      | _ \<Rightarrow> False)"
  unfolding MapLblknoToMapBlkno_defined_nat
  using main_fork_limit [of "unat l"] aux_fork_limit [of 1 "unat l"]
    aux_fork_limit [of 2 "unat l"]
  by (cases f) simp_all

text \<open>C25: the entry range of a truncation is exact. The page and slot bounds computed for a
  truncation from \<open>old\<close> to \<open>n\<close> blocks select a logical block's entry if and only if the block is
  at or above \<open>n\<close> and below \<open>old\<close>, and there is no range exactly when nothing is cut off.\<close>

theorem MapTruncateEntryRange_exact:
  "case MapTruncateEntryRange f n old of
     None \<Rightarrow> old \<le> n
   | Some r \<Rightarrow> n < old \<and>
       (n \<le> l \<and> l < old \<longleftrightarrow>
          (let page = l div MAP_ENTRIES_PER_PAGE; slot = unat (l mod MAP_ENTRIES_PER_PAGE)
           in start_map_page r \<le> page \<and> page \<le> end_map_page r \<and>
              (if page = start_map_page r then start_entry_idx r else 0) \<le> slot \<and>
              slot \<le> (if page = end_map_page r then end_entry_idx r
                       else unat MAP_ENTRIES_PER_PAGE - 1)))"
proof (cases "old \<le> n")
  case False
  then have lt: "unat n < unat old" by (simp add: word_le_nat_alt)
  then have o: "unat (old - 1) = unat old - 1"
    by (subst unat_sub) (simp_all add: word_le_nat_alt)
  have lex: "a \<le> b \<longleftrightarrow> a div 2048 \<le> b div 2048 \<and>
      (b div 2048 = a div 2048 \<longrightarrow> a mod 2048 \<le> b mod 2048)" for a b :: nat
  proof -
    obtain q r q' r' where q: "a div 2048 = q" "a mod 2048 = r" "b div 2048 = q'"
      "b mod 2048 = r'" by simp
    have "a = 2048 * q + r" "b = 2048 * q' + r'" "r < 2048" "r' < 2048"
      unfolding q [symmetric]
      by (simp_all only: mult_div_mod_eq mod_less_divisor zero_less_numeral)
    then show ?thesis unfolding q by linarith
  qed
  have below: "unat l < unat old \<longleftrightarrow> unat l \<le> unat old - 1"
    using lt by linarith
  have m: "unat l mod 2048 \<le> 2047"
    using mod_less_divisor [of 2048 "unat l"] by simp
  show ?thesis
    using False lt lex [of "unat n" "unat l"] lex [of "unat l" "unat old - 1"] m
    by (auto simp: MapTruncateEntryRange_def Let_def word_le_nat_alt word_less_nat_alt o below
        u32_eq_iff_unat)
qed (simp add: MapTruncateEntryRange_def)

text \<open>C28: the watermarks handed to the preallocator are usable: whenever a fork has settings
  (and the configured values are C ints), the hard watermark is positive and not above the soft
  one and the batch is positive, as unsigned block counts.\<close>

theorem MapForkPreallocSettings_watermarks:
  assumes "MapForkPreallocSettings g f = Some (soft, hard, batch)"
    and "\<And>get. get \<in> {map_prealloc_main_low, map_prealloc_main_hard, map_prealloc_main_batch,
           map_prealloc_fsm_low, map_prealloc_fsm_hard, map_prealloc_fsm_batch,
           map_prealloc_vm_low, map_prealloc_vm_hard, map_prealloc_vm_batch} \<Longrightarrow>
         get g < 2 ^ 31"
  shows "0 < hard \<and> hard \<le> soft \<and> 0 < batch"
proof -
  have ints: "map_prealloc_main_low g < 2 ^ 31" "map_prealloc_main_batch g < 2 ^ 31"
    "map_prealloc_fsm_low g < 2 ^ 31" "map_prealloc_fsm_batch g < 2 ^ 31"
    "map_prealloc_vm_low g < 2 ^ 31" "map_prealloc_vm_batch g < 2 ^ 31"
    by (intro assms(2); blast)+
  have w: "unat (word_of_int x :: u32) = nat x" if "0 \<le> x" "x < 2 ^ 31" for x
    using that by (simp add: unat_eq_nat_uint uint_word_of_int)
  have pos: "0 < (x :: u32) \<longleftrightarrow> 0 < unat x" for x
    by (simp add: word_less_nat_alt)
  show ?thesis
    using assms(1) ints
    by (cases f)
      (auto simp: MapForkPreallocSettings_def Let_def pos word_le_nat_alt w split: if_splits)
qed

theorem MapForkPreallocSettings_watermarks_witness:
  "\<exists>g soft hard batch. MapForkPreallocSettings g FSM_FORKNUM = Some (soft, hard, batch) \<and>
     0 < hard \<and> hard \<le> soft \<and> 0 < batch"
proof -
  let ?g = "\<lparr>map_prealloc_main_low = 8, map_prealloc_main_hard = 9, map_prealloc_main_batch = 4,
     map_prealloc_fsm_low = 8, map_prealloc_fsm_hard = 9, map_prealloc_fsm_batch = 4,
     map_prealloc_vm_low = 8, map_prealloc_vm_hard = 9, map_prealloc_vm_batch = 4\<rparr>"
  have s: "MapForkPreallocSettings ?g FSM_FORKNUM = Some (8, 8, 4)"
    by (simp add: MapForkPreallocSettings_def)
  have "0 < (8 :: u32) \<and> (8 :: u32) \<le> 8 \<and> 0 < (4 :: u32)"
    by (rule MapForkPreallocSettings_watermarks [OF s]) auto
  with s show ?thesis by blast
qed

lemma SlotsPerFSMPage_val [simp]: "SlotsPerFSMPage = 4069"
  by (simp add: SlotsPerFSMPage_def BLCKSZ_def)

lemma fsm_leaf_small: "unat (h :: u32) div 4069 < 1055535"
  using unat_u32_bound [of h] by linarith

lemma fsm_leaf_block:
  "fsm_logical_to_physical (fst (fsm_get_location h)) =
     unat h div 4069 + unat h div 4069 div 4069 + 2"
proof -
  have "unat h div 4069 div 4069 < 4069"
    using fsm_leaf_small [of h] by linarith
  then show ?thesis
    by (simp add: fsm_logical_to_physical_def fsm_get_location_def FSM_TREE_DEPTH_def
        numeral_3_eq_3 div_mult2_eq)
qed

text \<open>C26: the free-space map of a large heap outgrows the layout. The FSM page that records the
  free space of heap block \<open>h\<close> has a MAP entry if and only if \<open>h < 2132798902\<close>, although heap
  blocks themselves are addressable up to 4293916670: from about 15.9 TB on, recording the free
  space of an existing MAIN block is refused with the program-limit error.\<close>

theorem fsm_page_addressable_iff:
  "(\<exists>e. MapLblknoToMapBlkno FSM_FORKNUM
      (of_nat (fsm_logical_to_physical (fst (fsm_get_location h)))) = Inr e) \<longleftrightarrow>
   unat h < 2132798902"
proof -
  define q where "q = unat h div 4069"
  have q: "q < 1055535" using fsm_leaf_small by (simp add: q_def)
  define r where "r = q div 4069"
  have r: "q = 4069 * r + q mod 4069" "q mod 4069 < 4069"
    by (simp_all add: r_def)
  have u: "unat (of_nat (q + r + 2) :: u32) = q + r + 2"
    using q r by (subst unat_of_nat) simp
  have "q + r + 2 < 524288 \<longleftrightarrow> q < 524158"
    using r by linarith
  also have "\<dots> \<longleftrightarrow> unat h < 2132798902"
    unfolding q_def using div_mult_mod_eq [of "unat h" 4069] mod_less_divisor [of 4069 "unat h"]
    by linarith
  finally show ?thesis
    unfolding fsm_leaf_block MapLblknoToMapBlkno_defined_nat q_def [symmetric] r_def [symmetric] u
    using aux_fork_limit [of 1 "q + r + 2"] by simp
qed

end
