(* ===== verification/Umfile.thy ===== *)
theory Umfile
  imports Umbra_Prelude
begin

text \<open>
  The physical file layer \<^verbatim>\<open>src/backend/storage/smgr/umfile.c\<close>: backend-local file contexts with
  their vectors of open segments, and the operations on segmented fork files. The operating
  system is a directory of paths, each naming an inode, and an inode is a list of blocks; a block
  is a list of 32-bit words. A path is structured (relation, fork, segment number). An open
  descriptor is the inode it was opened on, so a descriptor that outlives its path is represented.
  System calls that do not fail for a reason visible in this state succeed; preallocation support
  of the file system is a parameter.

  MAIN, FSM and visibility-map forks allow missing segments (sparse); the other forks are dense.
\<close>

subsection \<open>The operating system\<close>

type_synonym block = "u32 list"

definition BLOCK_WORDS :: nat where "BLOCK_WORDS = BLCKSZ div 4"

definition zero_block :: block where "zero_block = replicate BLOCK_WORDS 0"

record RelFileLocatorBackend =
  locator :: RelFileLocator
  backend :: int

definition RelFileLocatorBackendIsTemp :: "RelFileLocatorBackend \<Rightarrow> bool" where
  "RelFileLocatorBackendIsTemp r \<longleftrightarrow> backend r \<noteq> -1"

type_synonym seg_path = "RelFileLocatorBackend \<times> ForkNumber \<times> nat"

type_synonym FileTag = "RelFileLocator \<times> ForkNumber \<times> nat"

datatype sync_request =
    SYNC_REQUEST FileTag | SYNC_UNLINK_REQUEST FileTag | SYNC_FORGET_REQUEST FileTag
  | SYNC_RECLAIM_REQUEST FileTag | SYNC_FILTER_REQUEST FileTag

record UmfdVec =
  umfd_vfd :: "nat option"
  umfd_segno :: nat

record UmbraFileContext =
  ctx_rlocator :: RelFileLocatorBackend
  seg_fds :: "ForkNumber \<Rightarrow> UmfdVec list"

record um_fs =
  um_dir :: "(seg_path \<times> nat) list"
  um_inode :: "nat \<Rightarrow> block list"
  um_next_inode :: nat
  um_ctxs :: "nat \<Rightarrow> UmbraFileContext"
  um_next_ctx :: nat
  UmCtxRegistry :: "RelFileLocatorBackend \<rightharpoonup> nat"
  um_sync :: "sync_request list"
  InRecovery :: bool

definition path_inode :: "'x um_fs_scheme \<Rightarrow> seg_path \<Rightarrow> nat option" where
  "path_inode s p = map_of (um_dir s) p"

definition path_exists :: "'x um_fs_scheme \<Rightarrow> seg_path \<Rightarrow> bool" where
  "path_exists s p \<longleftrightarrow> path_inode s p \<noteq> None"

definition file_pad :: "nat \<Rightarrow> block list \<Rightarrow> block list" where
  "file_pad n bs = bs @ replicate (n - length bs) zero_block"

definition file_write :: "nat \<Rightarrow> u32 list \<Rightarrow> block list \<Rightarrow> block list" where
  "file_write i ws bs =
     (let bs' = file_pad (i + 1) bs in bs'[i := ws @ drop (length ws) (bs' ! i)])"

definition file_zero :: "nat \<Rightarrow> nat \<Rightarrow> block list \<Rightarrow> block list" where
  "file_zero i n bs =
     (let bs' = file_pad (i + n) bs in take i bs' @ replicate n zero_block @ drop (i + n) bs')"

definition file_truncate :: "nat \<Rightarrow> block list \<Rightarrow> block list" where
  "file_truncate n bs = take n (file_pad n bs)"

definition upd_inode ::
  "nat \<Rightarrow> (block list \<Rightarrow> block list) \<Rightarrow> 'x um_fs_scheme \<Rightarrow> 'x um_fs_scheme" where
  "upd_inode ino f s = s\<lparr>um_inode := (um_inode s)(ino := f (um_inode s ino))\<rparr>"

text \<open>\<^verbatim>\<open>PathNameOpenFile\<close> with its \<^verbatim>\<open>O_CREAT\<close> and \<^verbatim>\<open>O_EXCL\<close> flags; \<^const>\<open>None\<close> is a failed open.\<close>

definition PathNameOpenFile ::
  "seg_path \<Rightarrow> bool \<Rightarrow> bool \<Rightarrow> ('x um_fs_scheme, nat option) um" where
  "PathNameOpenFile p creat excl = (\<lambda>s.
     case path_inode s p of
       Some ino \<Rightarrow> (Inr (if creat \<and> excl then None else Some ino), s)
     | None \<Rightarrow>
         if creat then
           (Inr (Some (um_next_inode s)),
            s\<lparr>um_dir := (p, um_next_inode s) # um_dir s,
              um_inode := (um_inode s)(um_next_inode s := []),
              um_next_inode := um_next_inode s + 1\<rparr>)
         else (Inr None, s))"

text \<open>An operation on the file behind a segment entry; a closed entry is a programming error.\<close>

definition with_vfd ::
  "UmfdVec \<Rightarrow> (nat \<Rightarrow> ('x um_fs_scheme, 'a) um) \<Rightarrow> ('x um_fs_scheme, 'a) um" where
  "with_vfd v k = (case umfd_vfd v of None \<Rightarrow> throwU (ERROR, E_INTERNAL) | Some ino \<Rightarrow> k ino)"

subsection \<open>Contexts and segment vectors\<close>

definition ctx_segs :: "'x um_fs_scheme \<Rightarrow> nat \<Rightarrow> ForkNumber \<Rightarrow> UmfdVec list" where
  "ctx_segs s c f = seg_fds (um_ctxs s c) f"

definition set_ctx_segs ::
  "nat \<Rightarrow> ForkNumber \<Rightarrow> UmfdVec list \<Rightarrow> 'x um_fs_scheme \<Rightarrow> 'x um_fs_scheme" where
  "set_ctx_segs c f vs s =
     s\<lparr>um_ctxs := (um_ctxs s)(c := (um_ctxs s c)\<lparr>seg_fds := (seg_fds (um_ctxs s c))(f := vs)\<rparr>)\<rparr>"

definition umfile_ctx_create :: "RelFileLocatorBackend \<Rightarrow> ('x um_fs_scheme, nat) um" where
  "umfile_ctx_create rlocator = (\<lambda>s.
     (Inr (um_next_ctx s),
      s\<lparr>um_ctxs := (um_ctxs s)(um_next_ctx s := \<lparr>ctx_rlocator = rlocator, seg_fds = (\<lambda>f. [])\<rparr>),
        um_next_ctx := um_next_ctx s + 1\<rparr>))"

definition umfile_ctx_lookup ::
  "RelFileLocatorBackend \<Rightarrow> ('x um_fs_scheme, nat option) um" where
  "umfile_ctx_lookup rlocator = getU (\<lambda>s. UmCtxRegistry s rlocator)"

definition umfile_ctx_acquire :: "RelFileLocatorBackend \<Rightarrow> ('x um_fs_scheme, nat) um" where
  "umfile_ctx_acquire rlocator =
     bindU (getU (\<lambda>s. UmCtxRegistry s rlocator)) (\<lambda>found.
       case found of
         Some c \<Rightarrow> returnU c
       | None \<Rightarrow>
           bindU (umfile_ctx_create rlocator) (\<lambda>c.
           bindU (modifyU (\<lambda>s. s\<lparr>UmCtxRegistry := (UmCtxRegistry s)(rlocator \<mapsto> c)\<rparr>)) (\<lambda>_.
           returnU c)))"

definition umfile_ctx_create_temporary ::
  "RelFileLocatorBackend \<Rightarrow> ('x um_fs_scheme, nat) um" where
  "umfile_ctx_create_temporary rlocator = umfile_ctx_create rlocator"

text \<open>Closing descriptors has no visible effect on files: the vectors become empty.\<close>

definition umfile_ctx_destroy_internal :: "nat \<Rightarrow> ('x um_fs_scheme, unit) um" where
  "umfile_ctx_destroy_internal c =
     modifyU (\<lambda>s. s\<lparr>um_ctxs := (um_ctxs s)(c := (um_ctxs s c)\<lparr>seg_fds := (\<lambda>f. [])\<rparr>)\<rparr>)"

definition umfile_ctx_forget :: "RelFileLocatorBackend \<Rightarrow> ('x um_fs_scheme, unit) um" where
  "umfile_ctx_forget rlocator =
     bindU (getU (\<lambda>s. UmCtxRegistry s rlocator)) (\<lambda>found.
       case found of
         None \<Rightarrow> returnU ()
       | Some c \<Rightarrow>
           bindU (umfile_ctx_destroy_internal c) (\<lambda>_.
           modifyU (\<lambda>s. s\<lparr>UmCtxRegistry := (UmCtxRegistry s)(rlocator := None)\<rparr>)))"

definition umfile_ctx_destroy_temporary :: "nat \<Rightarrow> ('x um_fs_scheme, unit) um" where
  "umfile_ctx_destroy_temporary c = umfile_ctx_destroy_internal c"

definition umfile_seg_entry_is_open :: "UmfdVec \<Rightarrow> bool" where
  "umfile_seg_entry_is_open v \<longleftrightarrow> umfd_vfd v \<noteq> None"

definition umfile_seg_entry_reset :: UmfdVec where
  "umfile_seg_entry_reset = \<lparr>umfd_vfd = None, umfd_segno = unat InvalidBlockNumber\<rparr>"

text \<open>New entries of a grown vector are written by the caller before they are read; here they
  start out closed.\<close>

definition umfile_fdvec_resize ::
  "nat \<Rightarrow> ForkNumber \<Rightarrow> nat \<Rightarrow> ('x um_fs_scheme, unit) um" where
  "umfile_fdvec_resize c f nseg =
     modifyU (\<lambda>s. let vs = ctx_segs s c f in
       set_ctx_segs c f (take nseg vs @ replicate (nseg - length vs) umfile_seg_entry_reset) s)"

definition umfile_v_get :: "'x um_fs_scheme \<Rightarrow> nat \<Rightarrow> ForkNumber \<Rightarrow> nat \<Rightarrow> UmfdVec" where
  "umfile_v_get s c f i = ctx_segs s c f ! i"

definition umfile_v_set :: "nat \<Rightarrow> ForkNumber \<Rightarrow> nat \<Rightarrow> UmfdVec \<Rightarrow> ('x um_fs_scheme, unit) um" where
  "umfile_v_set c f i v = modifyU (\<lambda>s. set_ctx_segs c f ((ctx_segs s c f)[i := v]) s)"

fun umfile_fork_allows_sparse_segments :: "ForkNumber \<Rightarrow> bool" where
  "umfile_fork_allows_sparse_segments MAIN_FORKNUM = True"
| "umfile_fork_allows_sparse_segments FSM_FORKNUM = True"
| "umfile_fork_allows_sparse_segments VISIBILITYMAP_FORKNUM = True"
| "umfile_fork_allows_sparse_segments _ = False"

definition ctx_rloc :: "'x um_fs_scheme \<Rightarrow> nat \<Rightarrow> RelFileLocatorBackend" where
  "ctx_rloc s c = ctx_rlocator (um_ctxs s c)"

definition umfile_nblocks_in_seg :: "UmfdVec \<Rightarrow> ('x um_fs_scheme, nat) um" where
  "umfile_nblocks_in_seg v = with_vfd v (\<lambda>ino. getU (\<lambda>s. length (um_inode s ino)))"

definition umfile_openseg ::
  "nat \<Rightarrow> RelFileLocatorBackend \<Rightarrow> ForkNumber \<Rightarrow> nat \<Rightarrow> bool \<Rightarrow>
   ('x um_fs_scheme, UmfdVec option) um" where
  "umfile_openseg c rlocator f segno creat =
     bindU (PathNameOpenFile (rlocator, f, segno) creat False) (\<lambda>fd.
       case fd of
         None \<Rightarrow> returnU None
       | Some ino \<Rightarrow>
           bindU (getU (\<lambda>s. length (ctx_segs s c f))) (\<lambda>old_nseg.
           bindU (whenU (\<not> umfile_fork_allows_sparse_segments f \<or> segno \<ge> old_nseg)
                    (umfile_fdvec_resize c f (segno + 1))) (\<lambda>_.
           bindU (umfile_v_set c f segno \<lparr>umfd_vfd = Some ino, umfd_segno = segno\<rparr>) (\<lambda>_.
           returnU (Some \<lparr>umfd_vfd = Some ino, umfd_segno = segno\<rparr>)))))"

datatype um_behavior =
    UM_EXTENSION_FAIL | UM_EXTENSION_RETURN_NULL | UM_EXTENSION_CREATE
  | UM_EXTENSION_CREATE_RECOVERY | UM_EXTENSION_DONT_OPEN

definition umfile_openfork ::
  "nat \<Rightarrow> RelFileLocatorBackend \<Rightarrow> ForkNumber \<Rightarrow> um_behavior set \<Rightarrow>
   ('x um_fs_scheme, UmfdVec option) um" where
  "umfile_openfork c rlocator f behavior =
     bindU (getU (\<lambda>s. ctx_segs s c f)) (\<lambda>vs.
       if length vs > 0 then returnU (Some (vs ! 0))
       else
         bindU (PathNameOpenFile (rlocator, f, 0) False False) (\<lambda>fd.
           case fd of
             None \<Rightarrow> if UM_EXTENSION_RETURN_NULL \<in> behavior then returnU None
                     else throwU (ERROR, E_FILE_ACCESS)
           | Some ino \<Rightarrow>
               bindU (umfile_fdvec_resize c f 1) (\<lambda>_.
               bindU (umfile_v_set c f 0 \<lparr>umfd_vfd = Some ino, umfd_segno = 0\<rparr>) (\<lambda>_.
               returnU (Some \<lparr>umfd_vfd = Some ino, umfd_segno = 0\<rparr>)))))"

subsection \<open>Directory scans and existence\<close>

text \<open>The segment numbers a directory scan finds for a fork, sorted and without repetitions.\<close>

definition umfile_collect_existing_segnos ::
  "'x um_fs_scheme \<Rightarrow> RelFileLocatorBackend \<Rightarrow> ForkNumber \<Rightarrow> nat list" where
  "umfile_collect_existing_segnos s rlocator f =
     remdups_adj (sort (map (\<lambda>((r, g, n), ino). n)
       (filter (\<lambda>((r, g, n), ino). r = rlocator \<and> g = f) (um_dir s))))"

definition umfile_any_segment_exists ::
  "'x um_fs_scheme \<Rightarrow> RelFileLocatorBackend \<Rightarrow> ForkNumber \<Rightarrow> bool" where
  "umfile_any_segment_exists s rlocator f \<longleftrightarrow>
     list_ex (\<lambda>((r, g, n), ino). r = rlocator \<and> g = f) (um_dir s)"

definition umfile_sparse_fork_scan_segments ::
  "'x um_fs_scheme \<Rightarrow> RelFileLocatorBackend \<Rightarrow> ForkNumber \<Rightarrow> (nat \<times> nat) option" where
  "umfile_sparse_fork_scan_segments s rlocator f =
     (let segnos = umfile_collect_existing_segnos s rlocator f
      in if segnos = [] then None else Some (hd segnos, last segnos))"

definition umfile_fork_has_open_segment :: "'x um_fs_scheme \<Rightarrow> nat \<Rightarrow> ForkNumber \<Rightarrow> bool" where
  "umfile_fork_has_open_segment s c f \<longleftrightarrow> list_ex umfile_seg_entry_is_open (ctx_segs s c f)"

definition umfile_fork_has_open_segment_on_disk ::
  "nat \<Rightarrow> RelFileLocatorBackend \<Rightarrow> ForkNumber \<Rightarrow> ('x um_fs_scheme, bool) um" where
  "umfile_fork_has_open_segment_on_disk c rlocator f =
     bindU (getU (\<lambda>s. ctx_segs s c f)) (\<lambda>vs.
     bindU (getU (\<lambda>s v. path_exists s (rlocator, f, umfd_segno v))) (\<lambda>live.
     bindU (modifyU (set_ctx_segs c f
        (map (\<lambda>v. if umfile_seg_entry_is_open v \<and> \<not> live v then umfile_seg_entry_reset else v)
             vs))) (\<lambda>_.
     returnU (list_ex (\<lambda>v. umfile_seg_entry_is_open v \<and> live v) vs))))"

definition umfile_ctx_close_fork :: "nat \<Rightarrow> ForkNumber \<Rightarrow> ('x um_fs_scheme, unit) um" where
  "umfile_ctx_close_fork c f = modifyU (set_ctx_segs c f [])"

datatype UmFileExistsMode = UMFILE_EXISTS_DENSE | UMFILE_EXISTS_SPARSE
datatype UmFileNblocksMode = UMFILE_NBLOCKS_DENSE | UMFILE_NBLOCKS_SPARSE

definition umfile_exists ::
  "nat \<Rightarrow> ForkNumber \<Rightarrow> UmFileExistsMode \<Rightarrow> ('x um_fs_scheme, bool) um" where
  "umfile_exists c f mode =
     bindU (getU (\<lambda>s. ctx_rloc s c)) (\<lambda>rlocator.
     bindU (getU (\<lambda>s. \<not> InRecovery s \<and> umfile_fork_has_open_segment s c f)) (\<lambda>openseg.
     bindU (if openseg
            then bindU (umfile_fork_has_open_segment_on_disk c rlocator f) (\<lambda>live.
                   if live then returnU True
                   else bindU (umfile_ctx_close_fork c f) (\<lambda>_. returnU False))
            else returnU False) (\<lambda>found.
     if found then returnU True
     else
       bindU (umfile_openfork c rlocator f {UM_EXTENSION_RETURN_NULL}) (\<lambda>v.
       if mode = UMFILE_EXISTS_SPARSE \<and> v = None
       then getU (\<lambda>s. umfile_any_segment_exists s rlocator f)
       else returnU (v \<noteq> None)))))"

definition umfile_ctx_fork_exists ::
  "nat \<Rightarrow> ForkNumber \<Rightarrow> UmFileExistsMode \<Rightarrow> ('x um_fs_scheme, bool) um" where
  "umfile_ctx_fork_exists c f mode = umfile_exists c f mode"

subsection \<open>Sync requests\<close>

definition umfile_register_dirty_seg ::
  "RelFileLocatorBackend \<Rightarrow> ForkNumber \<Rightarrow> UmfdVec \<Rightarrow> ('x um_fs_scheme, unit) um" where
  "umfile_register_dirty_seg rlocator f v =
     (if relNumber (locator rlocator) = 0 \<or> spcOid (locator rlocator) = 0
      then throwU (PANIC, E_INTERNAL)
      else modifyU (\<lambda>s.
        s\<lparr>um_sync := um_sync s @ [SYNC_REQUEST (locator rlocator, f, umfd_segno v)]\<rparr>))"

definition umfile_register_unlink_seg ::
  "RelFileLocatorBackend \<Rightarrow> ForkNumber \<Rightarrow> nat \<Rightarrow> ('x um_fs_scheme, unit) um" where
  "umfile_register_unlink_seg rlocator f segno =
     modifyU (\<lambda>s.
       s\<lparr>um_sync := um_sync s @ [SYNC_UNLINK_REQUEST (locator rlocator, f, segno)]\<rparr>)"

definition umfile_register_forget_seg ::
  "RelFileLocatorBackend \<Rightarrow> ForkNumber \<Rightarrow> nat \<Rightarrow> ('x um_fs_scheme, unit) um" where
  "umfile_register_forget_seg rlocator f segno =
     modifyU (\<lambda>s.
       s\<lparr>um_sync := um_sync s @ [SYNC_FORGET_REQUEST (locator rlocator, f, segno)]\<rparr>)"

text \<open>The loop stops at the first missing segment; the directory length bounds its iterations.\<close>

primrec umfile_register_dense_loop ::
  "nat \<Rightarrow> RelFileLocatorBackend \<Rightarrow> ForkNumber \<Rightarrow> nat \<Rightarrow> ('x um_fs_scheme, unit) um" where
  "umfile_register_dense_loop 0 rlocator f segno = returnU ()"
| "umfile_register_dense_loop (Suc n) rlocator f segno =
     bindU (getU (\<lambda>s. path_exists s (rlocator, f, segno))) (\<lambda>ex.
       if \<not> ex then returnU ()
       else bindU (umfile_register_unlink_seg rlocator f segno) (\<lambda>_.
              umfile_register_dense_loop n rlocator f (segno + 1)))"

definition umfile_register_dense_existing_segs_for_unlink ::
  "RelFileLocatorBackend \<Rightarrow> ForkNumber \<Rightarrow> ('x um_fs_scheme, unit) um" where
  "umfile_register_dense_existing_segs_for_unlink rlocator f =
     bindU (getU (\<lambda>s. Suc (length (um_dir s)))) (\<lambda>n. umfile_register_dense_loop n rlocator f 0)"

subsection \<open>Opening the segment of a block\<close>

definition seg_of :: "BlockNumber \<Rightarrow> nat" where
  "seg_of blkno = unat blkno div RELSEG_SIZE"

definition seg_off :: "BlockNumber \<Rightarrow> nat" where
  "seg_off blkno = unat blkno mod RELSEG_SIZE"

text \<open>The padding write of the dense path: \<^verbatim>\<open>umfile_extend\<close> of the last block of a segment that is
  already open.\<close>

definition umfile_pad_segment ::
  "RelFileLocatorBackend \<Rightarrow> ForkNumber \<Rightarrow> UmfdVec \<Rightarrow> bool \<Rightarrow> ('x um_fs_scheme, unit) um" where
  "umfile_pad_segment rlocator f v skipFsync =
     bindU (with_vfd v (\<lambda>ino. modifyU (upd_inode ino (file_write (RELSEG_SIZE - 1) zero_block))))
       (\<lambda>_. whenU (\<not> skipFsync \<and> \<not> RelFileLocatorBackendIsTemp rlocator)
              (umfile_register_dirty_seg rlocator f v))"

primrec umfile_getseg_dense ::
  "nat \<Rightarrow> nat \<Rightarrow> RelFileLocatorBackend \<Rightarrow> ForkNumber \<Rightarrow> bool \<Rightarrow> um_behavior set \<Rightarrow> nat \<Rightarrow>
   UmfdVec \<Rightarrow> ('x um_fs_scheme, UmfdVec option) um" where
  "umfile_getseg_dense 0 c rlocator f skipFsync behavior nextsegno v = returnU (Some v)"
| "umfile_getseg_dense (Suc n) c rlocator f skipFsync behavior nextsegno v =
     bindU (umfile_nblocks_in_seg v) (\<lambda>nblocks.
     bindU (getU InRecovery) (\<lambda>rec.
       if nblocks > RELSEG_SIZE then throwU (FATAL, E_INTERNAL)
       else
         let create = UM_EXTENSION_CREATE \<in> behavior \<or>
                      rec \<and> UM_EXTENSION_CREATE_RECOVERY \<in> behavior
         in if \<not> create \<and> nblocks < RELSEG_SIZE
            then (if UM_EXTENSION_RETURN_NULL \<in> behavior then returnU None
                  else throwU (ERROR, E_FILE_ACCESS))
            else
              bindU (whenU (create \<and> nblocks < RELSEG_SIZE)
                       (umfile_pad_segment rlocator f v skipFsync)) (\<lambda>_.
              bindU (umfile_openseg c rlocator f nextsegno create) (\<lambda>v'.
                case v' of
                  None \<Rightarrow> if UM_EXTENSION_RETURN_NULL \<in> behavior then returnU None
                          else throwU (ERROR, E_FILE_ACCESS)
                | Some w \<Rightarrow>
                    umfile_getseg_dense n c rlocator f skipFsync behavior (nextsegno + 1) w))))"

definition umfile_getseg ::
  "nat \<Rightarrow> ForkNumber \<Rightarrow> BlockNumber \<Rightarrow> bool \<Rightarrow> um_behavior set \<Rightarrow>
   ('x um_fs_scheme, UmfdVec option) um" where
  "umfile_getseg c f blkno skipFsync behavior =
     bindU (getU (\<lambda>s. ctx_rloc s c)) (\<lambda>rlocator.
     bindU (getU (\<lambda>s. ctx_segs s c f)) (\<lambda>vs.
       let targetseg = seg_of blkno;
           sparse = umfile_fork_allows_sparse_segments f
       in if targetseg < length vs \<and> (\<not> sparse \<or> umfile_seg_entry_is_open (vs ! targetseg))
          then returnU (Some (vs ! targetseg))
          else if UM_EXTENSION_DONT_OPEN \<in> behavior then returnU None
          else if sparse then
            bindU (getU InRecovery) (\<lambda>rec.
            bindU (umfile_openseg c rlocator f targetseg
                     (UM_EXTENSION_CREATE \<in> behavior \<or>
                      rec \<and> UM_EXTENSION_CREATE_RECOVERY \<in> behavior)) (\<lambda>v.
              if v = None \<and> UM_EXTENSION_RETURN_NULL \<notin> behavior
              then throwU (ERROR, E_FILE_ACCESS)
              else returnU v))
          else
            bindU (if length vs > 0 then returnU (Some (vs ! (length vs - 1)))
                   else umfile_openfork c rlocator f behavior) (\<lambda>v0.
              case v0 of
                None \<Rightarrow> returnU None
              | Some v \<Rightarrow>
                  bindU (getU (\<lambda>s. length (ctx_segs s c f))) (\<lambda>n.
                    umfile_getseg_dense (targetseg + 1 - n) c rlocator f skipFsync behavior n v))))"

text \<open>Callers that pass no \<^verbatim>\<open>RETURN_NULL\<close> use the returned segment unconditionally.\<close>

definition umfile_getseg_some ::
  "nat \<Rightarrow> ForkNumber \<Rightarrow> BlockNumber \<Rightarrow> bool \<Rightarrow> um_behavior set \<Rightarrow>
   ('x um_fs_scheme, UmfdVec) um" where
  "umfile_getseg_some c f blkno skipFsync behavior =
     bindU (umfile_getseg c f blkno skipFsync behavior) (\<lambda>v.
       case v of None \<Rightarrow> throwU (ERROR, E_INTERNAL) | Some w \<Rightarrow> returnU w)"

subsection \<open>Creating, extending, unlinking\<close>

definition umfile_create :: "nat \<Rightarrow> ForkNumber \<Rightarrow> bool \<Rightarrow> ('x um_fs_scheme, unit) um" where
  "umfile_create c f isRedo =
     bindU (getU (\<lambda>s. ctx_rloc s c)) (\<lambda>rlocator.
     bindU (getU (\<lambda>s. length (ctx_segs s c f))) (\<lambda>nopen.
       if isRedo \<and> nopen > 0 then returnU ()
       else
         bindU (umfile_ctx_close_fork c f) (\<lambda>_.
         bindU (PathNameOpenFile (rlocator, f, 0) True True) (\<lambda>fd1.
         bindU (if fd1 = None \<and> isRedo then PathNameOpenFile (rlocator, f, 0) False False
                else returnU fd1) (\<lambda>fd.
           case fd of
             None \<Rightarrow> throwU (ERROR, E_FILE_ACCESS)
           | Some ino \<Rightarrow>
               bindU (umfile_fdvec_resize c f 1) (\<lambda>_.
               bindU (umfile_v_set c f 0 \<lparr>umfd_vfd = Some ino, umfd_segno = 0\<rparr>) (\<lambda>_.
               whenU (\<not> RelFileLocatorBackendIsTemp rlocator)
                 (umfile_register_dirty_seg rlocator f
                    \<lparr>umfd_vfd = Some ino, umfd_segno = 0\<rparr>))))))))"

definition umfile_open_or_create ::
  "nat \<Rightarrow> ForkNumber \<Rightarrow> bool \<Rightarrow> ('x um_fs_scheme, bool \<times> bool) um" where
  "umfile_open_or_create c f isRedo =
     bindU (getU (\<lambda>s. ctx_rloc s c)) (\<lambda>rlocator.
     bindU (if isRedo then umfile_openfork c rlocator f {UM_EXTENSION_RETURN_NULL}
            else returnU None) (\<lambda>v.
       if v \<noteq> None then returnU (True, False)
       else
         bindU (umfile_create c f isRedo) (\<lambda>_.
         bindU (umfile_openfork c rlocator f {UM_EXTENSION_RETURN_NULL}) (\<lambda>v.
           returnU (v \<noteq> None, v \<noteq> None)))))"

definition dir_remove :: "seg_path \<Rightarrow> 'x um_fs_scheme \<Rightarrow> 'x um_fs_scheme" where
  "dir_remove p s = s\<lparr>um_dir := filter (\<lambda>(q, ino). q \<noteq> p) (um_dir s)\<rparr>"

definition path_truncate :: "seg_path \<Rightarrow> ('x um_fs_scheme, bool) um" where
  "path_truncate p = (\<lambda>s. case path_inode s p of
       None \<Rightarrow> (Inr False, s)
     | Some ino \<Rightarrow> (Inr True, upd_inode ino (file_truncate 0) s))"

definition path_unlink :: "seg_path \<Rightarrow> ('x um_fs_scheme, bool) um" where
  "path_unlink p = (\<lambda>s. if path_exists s p then (Inr True, dir_remove p s) else (Inr False, s))"

text \<open>Removal of the additional segments; each successful iteration removes a directory entry, so
  the directory length bounds the loop.\<close>

primrec umfile_unlink_segs ::
  "nat \<Rightarrow> RelFileLocatorBackend \<Rightarrow> ForkNumber \<Rightarrow> nat \<Rightarrow> ('x um_fs_scheme, unit) um" where
  "umfile_unlink_segs 0 rlocator f segno = returnU ()"
| "umfile_unlink_segs (Suc n) rlocator f segno =
     bindU (whenU (\<not> RelFileLocatorBackendIsTemp rlocator)
              (bindU (path_truncate (rlocator, f, segno)) (\<lambda>_.
               umfile_register_forget_seg rlocator f segno))) (\<lambda>_.
     bindU (path_unlink (rlocator, f, segno)) (\<lambda>ok.
       if \<not> ok then returnU () else umfile_unlink_segs n rlocator f (segno + 1)))"

definition umfile_unlink_fork ::
  "RelFileLocatorBackend \<Rightarrow> ForkNumber \<Rightarrow> bool \<Rightarrow> bool \<Rightarrow> ('x um_fs_scheme, unit) um" where
  "umfile_unlink_fork rlocator f isRedo IsBinaryUpgrade =
     (let temp = RelFileLocatorBackendIsTemp rlocator in
      if \<not> isRedo \<and> \<not> temp \<and> f = UMBRA_METADATA_FORKNUM
      then umfile_register_dense_existing_segs_for_unlink rlocator f
      else
        bindU (if isRedo \<or> IsBinaryUpgrade \<or> f \<noteq> MAIN_FORKNUM \<or> temp
               then
                 bindU (if temp then returnU True
                        else bindU (path_truncate (rlocator, f, 0)) (\<lambda>ok.
                             bindU (umfile_register_forget_seg rlocator f 0) (\<lambda>_. returnU ok)))
                   (\<lambda>ok. if ok then path_unlink (rlocator, f, 0) else returnU False)
               else
                 bindU (path_truncate (rlocator, f, 0)) (\<lambda>ok.
                 bindU (umfile_register_unlink_seg rlocator f 0) (\<lambda>_. returnU ok))) (\<lambda>ok.
        if ok then bindU (getU (\<lambda>s. Suc (length (um_dir s)))) (\<lambda>n.
                     umfile_unlink_segs n rlocator f 1)
        else returnU ()))"

definition umfile_unlink ::
  "RelFileLocatorBackend \<Rightarrow> ForkNumber \<Rightarrow> bool \<Rightarrow> bool \<Rightarrow> ('x um_fs_scheme, unit) um" where
  "umfile_unlink rlocator f isRedo IsBinaryUpgrade =
     (if f = InvalidForkNumber
      then forU [MAIN_FORKNUM, FSM_FORKNUM, VISIBILITYMAP_FORKNUM, INIT_FORKNUM,
                 UMBRA_METADATA_FORKNUM]
             (\<lambda>g. umfile_unlink_fork rlocator g isRedo IsBinaryUpgrade)
      else umfile_unlink_fork rlocator f isRedo IsBinaryUpgrade)"

definition umfile_extend ::
  "nat \<Rightarrow> ForkNumber \<Rightarrow> BlockNumber \<Rightarrow> block \<Rightarrow> bool \<Rightarrow> ('x um_fs_scheme, unit) um" where
  "umfile_extend c f blocknum buffer skipFsync =
     bindU (getU (\<lambda>s. ctx_rloc s c)) (\<lambda>rlocator.
     bindU (umfile_getseg_some c f blocknum skipFsync
              {UM_EXTENSION_FAIL, UM_EXTENSION_CREATE}) (\<lambda>v.
     bindU (with_vfd v (\<lambda>ino. modifyU (upd_inode ino (file_write (seg_off blocknum) buffer)))) (\<lambda>_.
     whenU (\<not> skipFsync \<and> \<not> RelFileLocatorBackendIsTemp rlocator)
       (umfile_register_dirty_seg rlocator f v))))"

definition PG_IOV_MAX :: nat where "PG_IOV_MAX = 128"

text \<open>The loop body makes at least one block of progress, so \<open>nblocks\<close> iterations suffice.\<close>

primrec umfile_zeroextend_loop ::
  "nat \<Rightarrow> nat \<Rightarrow> ForkNumber \<Rightarrow> BlockNumber \<Rightarrow> nat \<Rightarrow> bool \<Rightarrow> ('x um_fs_scheme, unit) um" where
  "umfile_zeroextend_loop 0 c f blocknum nblocks skipFsync = returnU ()"
| "umfile_zeroextend_loop (Suc n) c f blocknum nblocks skipFsync =
     (if nblocks = 0 then returnU ()
      else
        let numblocks = min (min nblocks (RELSEG_SIZE - seg_off blocknum)) PG_IOV_MAX in
        bindU (getU (\<lambda>s. ctx_rloc s c)) (\<lambda>rlocator.
        bindU (umfile_getseg_some c f blocknum skipFsync
                 {UM_EXTENSION_FAIL, UM_EXTENSION_CREATE}) (\<lambda>v.
        bindU (with_vfd v (\<lambda>ino.
                 modifyU (upd_inode ino (file_zero (seg_off blocknum) numblocks)))) (\<lambda>_.
        bindU (whenU (\<not> skipFsync \<and> \<not> RelFileLocatorBackendIsTemp rlocator)
                 (umfile_register_dirty_seg rlocator f v)) (\<lambda>_.
        umfile_zeroextend_loop n c f (blocknum + of_nat numblocks) (nblocks - numblocks)
          skipFsync)))))"

definition umfile_zeroextend ::
  "nat \<Rightarrow> ForkNumber \<Rightarrow> BlockNumber \<Rightarrow> nat \<Rightarrow> bool \<Rightarrow> ('x um_fs_scheme, unit) um" where
  "umfile_zeroextend c f blocknum nblocks skipFsync =
     umfile_zeroextend_loop nblocks c f blocknum nblocks skipFsync"

subsection \<open>Block access for the MAP layer\<close>

definition umfile_ctx_block_exists ::
  "nat \<Rightarrow> ForkNumber \<Rightarrow> BlockNumber \<Rightarrow> ('x um_fs_scheme, bool) um" where
  "umfile_ctx_block_exists c f blkno =
     bindU (getU (\<lambda>s. ctx_segs s c f)) (\<lambda>vs.
     bindU (getU (\<lambda>s. ctx_rloc s c)) (\<lambda>rlocator.
       let segno = seg_of blkno in
       bindU (if segno < length vs
              then returnU (if umfile_seg_entry_is_open (vs ! segno) then Some (vs ! segno)
                            else None)
              else if \<not> umfile_fork_allows_sparse_segments f \<and> segno > length vs
              then returnU None
              else umfile_openseg c rlocator f segno False) (\<lambda>v.
         case v of
           None \<Rightarrow> returnU False
         | Some w \<Rightarrow> bindU (umfile_nblocks_in_seg w) (\<lambda>segblocks.
                     returnU (seg_off blkno < segblocks)))))"

definition umfile_ctx_segment_exists ::
  "nat \<Rightarrow> ForkNumber \<Rightarrow> nat \<Rightarrow> ('x um_fs_scheme, bool) um" where
  "umfile_ctx_segment_exists c f segno = getU (\<lambda>s. path_exists s (ctx_rloc s c, f, segno))"

definition umfile_ctx_ensure_fork :: "nat \<Rightarrow> ForkNumber \<Rightarrow> ('x um_fs_scheme, unit) um" where
  "umfile_ctx_ensure_fork c f =
     bindU (umfile_exists c f (if umfile_fork_allows_sparse_segments f then UMFILE_EXISTS_SPARSE
                               else UMFILE_EXISTS_DENSE)) (\<lambda>ex.
     whenU (\<not> ex) (umfile_create c f False))"

definition umfile_ctx_ensure_block_exists ::
  "nat \<Rightarrow> ForkNumber \<Rightarrow> BlockNumber \<Rightarrow> ('x um_fs_scheme, unit) um" where
  "umfile_ctx_ensure_block_exists c f blkno =
     bindU (umfile_ctx_block_exists c f blkno) (\<lambda>ex.
     whenU (\<not> ex) (umfile_zeroextend c f blkno 1 True))"

definition umfile_ctx_read ::
  "nat \<Rightarrow> ForkNumber \<Rightarrow> BlockNumber \<Rightarrow> nat \<Rightarrow> ('x um_fs_scheme, u32 list) um" where
  "umfile_ctx_read c f blkno nbytes =
     bindU (umfile_getseg_some c f blkno False {UM_EXTENSION_FAIL}) (\<lambda>v.
     with_vfd v (\<lambda>ino.
       bindU (getU (\<lambda>s. um_inode s ino)) (\<lambda>bs.
         if seg_off blkno < length bs then returnU (take (nbytes div 4) (bs ! seg_off blkno))
         else throwU (ERROR, E_DATA_CORRUPTED))))"

definition umfile_ctx_write ::
  "nat \<Rightarrow> ForkNumber \<Rightarrow> BlockNumber \<Rightarrow> u32 list \<Rightarrow> ('x um_fs_scheme, unit) um" where
  "umfile_ctx_write c f blkno buffer =
     bindU (umfile_ctx_ensure_block_exists c f blkno) (\<lambda>_.
     bindU (umfile_getseg_some c f blkno True {UM_EXTENSION_FAIL, UM_EXTENSION_CREATE}) (\<lambda>v.
     with_vfd v (\<lambda>ino. modifyU (upd_inode ino (file_write (seg_off blkno) buffer)))))"

definition umfile_ctx_extend ::
  "nat \<Rightarrow> ForkNumber \<Rightarrow> BlockNumber \<Rightarrow> block \<Rightarrow> ('x um_fs_scheme, unit) um" where
  "umfile_ctx_extend c f blkno buffer =
     bindU (umfile_ctx_ensure_fork c f) (\<lambda>_. umfile_extend c f blkno buffer True)"

definition umfile_ctx_register_dirty ::
  "nat \<Rightarrow> ForkNumber \<Rightarrow> BlockNumber \<Rightarrow> bool \<Rightarrow> bool \<Rightarrow> ('x um_fs_scheme, unit) um" where
  "umfile_ctx_register_dirty c f blkno skipFsync isTempRelation =
     (if skipFsync \<or> isTempRelation then returnU ()
      else
        bindU (getU (\<lambda>s. ctx_rloc s c)) (\<lambda>rlocator.
        bindU (umfile_getseg_some c f blkno False {UM_EXTENSION_FAIL}) (\<lambda>v.
        umfile_register_dirty_seg rlocator f v)))"

definition umfile_ctx_unlinkfork ::
  "RelFileLocatorBackend \<Rightarrow> ForkNumber \<Rightarrow> bool \<Rightarrow> bool \<Rightarrow> ('x um_fs_scheme, unit) um" where
  "umfile_ctx_unlinkfork rlocator f isRedo IsBinaryUpgrade =
     umfile_unlink rlocator f isRedo IsBinaryUpgrade"

subsection \<open>Sizes, truncation, preallocation, sync\<close>

definition umfile_nblocks_sparse :: "nat \<Rightarrow> ForkNumber \<Rightarrow> ('x um_fs_scheme, BlockNumber) um" where
  "umfile_nblocks_sparse c f =
     bindU (getU (\<lambda>s. ctx_rloc s c)) (\<lambda>rlocator.
     bindU (getU (\<lambda>s. umfile_sparse_fork_scan_segments s rlocator f)) (\<lambda>scan.
       case scan of
         None \<Rightarrow> returnU 0
       | Some (minsegno, maxsegno) \<Rightarrow>
           bindU (getU (\<lambda>s. ctx_segs s c f)) (\<lambda>vs.
           bindU (if maxsegno \<ge> length vs \<or> \<not> umfile_seg_entry_is_open (vs ! maxsegno)
                  then bindU (umfile_openseg c rlocator f maxsegno False) (\<lambda>v.
                         case v of None \<Rightarrow> throwU (ERROR, E_FILE_ACCESS) | Some w \<Rightarrow> returnU w)
                  else returnU (vs ! maxsegno)) (\<lambda>v.
           bindU (umfile_nblocks_in_seg v) (\<lambda>nblocks.
             if nblocks > RELSEG_SIZE then throwU (FATAL, E_INTERNAL)
             else returnU (of_nat (maxsegno * RELSEG_SIZE + nblocks)))))))"

text \<open>Every iteration of the dense loop opens a segment file of its own, so one more than the
  number of directory entries bounds it.\<close>

primrec umfile_nblocks_dense_loop ::
  "nat \<Rightarrow> nat \<Rightarrow> RelFileLocatorBackend \<Rightarrow> ForkNumber \<Rightarrow> nat \<Rightarrow> UmfdVec \<Rightarrow>
   ('x um_fs_scheme, BlockNumber) um" where
  "umfile_nblocks_dense_loop 0 c rlocator f segno v = throwU (FATAL, E_INTERNAL)"
| "umfile_nblocks_dense_loop (Suc n) c rlocator f segno v =
     bindU (umfile_nblocks_in_seg v) (\<lambda>nblocks.
       if nblocks > RELSEG_SIZE then throwU (FATAL, E_INTERNAL)
       else if nblocks < RELSEG_SIZE then returnU (of_nat (segno * RELSEG_SIZE + nblocks))
       else
         bindU (umfile_openseg c rlocator f (segno + 1) False) (\<lambda>v'.
           case v' of
             None \<Rightarrow> returnU (of_nat ((segno + 1) * RELSEG_SIZE))
           | Some w \<Rightarrow> umfile_nblocks_dense_loop n c rlocator f (segno + 1) w))"

definition umfile_nblocks_dense :: "nat \<Rightarrow> ForkNumber \<Rightarrow> ('x um_fs_scheme, BlockNumber) um" where
  "umfile_nblocks_dense c f =
     bindU (getU (\<lambda>s. ctx_rloc s c)) (\<lambda>rlocator.
     bindU (umfile_openfork c rlocator f {UM_EXTENSION_RETURN_NULL}) (\<lambda>v0.
       if v0 = None then returnU 0
       else
         bindU (getU (\<lambda>s. ctx_segs s c f)) (\<lambda>vs.
         bindU (getU (\<lambda>s. Suc (length (um_dir s)))) (\<lambda>fuel.
         umfile_nblocks_dense_loop fuel c rlocator f (length vs - 1) (vs ! (length vs - 1))))))"

definition umfile_nblocks ::
  "nat \<Rightarrow> ForkNumber \<Rightarrow> UmFileNblocksMode \<Rightarrow> ('x um_fs_scheme, BlockNumber) um" where
  "umfile_nblocks c f mode =
     (if mode = UMFILE_NBLOCKS_SPARSE then umfile_nblocks_sparse c f
      else umfile_nblocks_dense c f)"

definition umfile_ctx_get_nblocks ::
  "nat \<Rightarrow> ForkNumber \<Rightarrow> UmFileNblocksMode \<Rightarrow> ('x um_fs_scheme, BlockNumber) um" where
  "umfile_ctx_get_nblocks c f mode = umfile_nblocks c f mode"

primrec umfile_truncate_loop ::
  "nat \<Rightarrow> nat \<Rightarrow> ForkNumber \<Rightarrow> BlockNumber \<Rightarrow> ('x um_fs_scheme, unit) um" where
  "umfile_truncate_loop 0 c f nblocks = returnU ()"
| "umfile_truncate_loop (Suc curopensegs) c f nblocks =
     (let priorblocks = curopensegs * RELSEG_SIZE in
      bindU (getU (\<lambda>s. ctx_rloc s c)) (\<lambda>rlocator.
      bindU (getU (\<lambda>s. umfile_v_get s c f curopensegs)) (\<lambda>v.
        if priorblocks > unat nblocks then
          bindU (with_vfd v (\<lambda>ino. modifyU (upd_inode ino (file_truncate 0)))) (\<lambda>_.
          bindU (whenU (\<not> RelFileLocatorBackendIsTemp rlocator)
                   (umfile_register_dirty_seg rlocator f v)) (\<lambda>_.
          bindU (umfile_fdvec_resize c f curopensegs) (\<lambda>_.
          umfile_truncate_loop curopensegs c f nblocks)))
        else if priorblocks + RELSEG_SIZE > unat nblocks then
          bindU (with_vfd v (\<lambda>ino.
                   modifyU (upd_inode ino (file_truncate (unat nblocks - priorblocks))))) (\<lambda>_.
          bindU (whenU (\<not> RelFileLocatorBackendIsTemp rlocator)
                   (umfile_register_dirty_seg rlocator f v)) (\<lambda>_.
          umfile_truncate_loop curopensegs c f nblocks))
        else returnU ())))"

definition umfile_truncate ::
  "nat \<Rightarrow> ForkNumber \<Rightarrow> BlockNumber \<Rightarrow> BlockNumber \<Rightarrow> ('x um_fs_scheme, unit) um" where
  "umfile_truncate c f curnblk nblocks =
     bindU (getU InRecovery) (\<lambda>rec.
       if nblocks > curnblk then (if rec then returnU () else throwU (ERROR, E_INTERNAL))
       else if nblocks = curnblk then returnU ()
       else bindU (getU (\<lambda>s. length (ctx_segs s c f))) (\<lambda>n. umfile_truncate_loop n c f nblocks))"

text \<open>\<open>supported\<close> says whether the file system backs the request; the supported case leaves the file
  at least \<open>target\<close> blocks long.\<close>

definition umfile_preallocate_fd ::
  "bool \<Rightarrow> UmfdVec \<Rightarrow> nat \<Rightarrow> ('x um_fs_scheme, bool) um" where
  "umfile_preallocate_fd supported v target =
     with_vfd v (\<lambda>ino.
       bindU (getU (\<lambda>s. length (um_inode s ino))) (\<lambda>cur.
         if cur \<ge> target then returnU True
         else if \<not> supported then returnU False
         else bindU (modifyU (upd_inode ino (file_pad target))) (\<lambda>_. returnU True)))"

primrec umfile_preallocate_loop ::
  "nat \<Rightarrow> bool \<Rightarrow> nat \<Rightarrow> ForkNumber \<Rightarrow> nat \<Rightarrow> nat \<Rightarrow> bool \<Rightarrow> ('x um_fs_scheme, bool) um" where
  "umfile_preallocate_loop 0 supported c f cur target skipFsync = returnU True"
| "umfile_preallocate_loop (Suc n) supported c f cur target skipFsync =
     (if \<not> cur < target then returnU True
      else
        let targetseg = cur div RELSEG_SIZE;
            seg_start = targetseg * RELSEG_SIZE;
            seg_end = min (seg_start + RELSEG_SIZE) target;
            targetseg_nblocks = seg_end - seg_start;
            target_blkno = of_nat (seg_start + targetseg_nblocks - 1)
        in
        bindU (getU (\<lambda>s. ctx_rloc s c)) (\<lambda>rlocator.
        bindU (umfile_getseg_some c f target_blkno skipFsync {UM_EXTENSION_CREATE}) (\<lambda>v.
        bindU (umfile_preallocate_fd supported v targetseg_nblocks) (\<lambda>ok.
          if \<not> ok then returnU False
          else
            bindU (whenU (\<not> skipFsync \<and> \<not> RelFileLocatorBackendIsTemp rlocator)
                     (umfile_register_dirty_seg rlocator f v)) (\<lambda>_.
            umfile_preallocate_loop n supported c f seg_end target skipFsync)))))"

definition umfile_ctx_preallocate_blocks ::
  "bool \<Rightarrow> nat \<Rightarrow> ForkNumber \<Rightarrow> UmFileNblocksMode \<Rightarrow> BlockNumber \<Rightarrow> bool \<Rightarrow>
   ('x um_fs_scheme, bool) um" where
  "umfile_ctx_preallocate_blocks supported c f mode target_nblocks skipFsync =
     bindU (umfile_exists c f (if mode = UMFILE_NBLOCKS_SPARSE then UMFILE_EXISTS_SPARSE
                               else UMFILE_EXISTS_DENSE)) (\<lambda>ex.
       if \<not> ex then returnU False
       else
         bindU (umfile_nblocks c f mode) (\<lambda>nblocks.
           if target_nblocks \<le> nblocks then returnU True
           else umfile_preallocate_loop (unat target_nblocks) supported c f (unat nblocks)
                  (unat target_nblocks) skipFsync))"

definition umfile_registersync_seg ::
  "nat \<Rightarrow> ForkNumber \<Rightarrow> nat \<Rightarrow> ('x um_fs_scheme, unit) um" where
  "umfile_registersync_seg c f curseg =
     bindU (getU (\<lambda>s. ctx_rloc s c)) (\<lambda>rlocator.
     bindU (getU (\<lambda>s. ctx_segs s c f)) (\<lambda>vs.
     bindU (if curseg < length vs \<and> umfile_seg_entry_is_open (vs ! curseg)
            then returnU (vs ! curseg)
            else bindU (umfile_openseg c rlocator f curseg False) (\<lambda>v.
                   case v of None \<Rightarrow> throwU (ERROR, E_FILE_ACCESS) | Some w \<Rightarrow> returnU w)) (\<lambda>v.
     umfile_register_dirty_seg rlocator f v)))"

primrec umfile_open_inactive ::
  "nat \<Rightarrow> nat \<Rightarrow> RelFileLocatorBackend \<Rightarrow> ForkNumber \<Rightarrow> nat \<Rightarrow> ('x um_fs_scheme, nat) um" where
  "umfile_open_inactive 0 c rlocator f segno = returnU segno"
| "umfile_open_inactive (Suc n) c rlocator f segno =
     bindU (umfile_openseg c rlocator f segno False) (\<lambda>v.
       if v = None then returnU segno else umfile_open_inactive n c rlocator f (segno + 1))"

primrec umfile_registersync_dense ::
  "nat \<Rightarrow> nat \<Rightarrow> RelFileLocatorBackend \<Rightarrow> ForkNumber \<Rightarrow> nat \<Rightarrow> ('x um_fs_scheme, unit) um" where
  "umfile_registersync_dense 0 c rlocator f min_inactive = returnU ()"
| "umfile_registersync_dense (Suc segno) c rlocator f min_inactive =
     bindU (getU (\<lambda>s. umfile_v_get s c f segno)) (\<lambda>v.
     bindU (umfile_register_dirty_seg rlocator f v) (\<lambda>_.
     bindU (whenU (Suc segno > min_inactive) (umfile_fdvec_resize c f segno)) (\<lambda>_.
     umfile_registersync_dense segno c rlocator f min_inactive)))"

definition umfile_registersync :: "nat \<Rightarrow> ForkNumber \<Rightarrow> ('x um_fs_scheme, unit) um" where
  "umfile_registersync c f =
     bindU (getU (\<lambda>s. ctx_rloc s c)) (\<lambda>rlocator.
       if umfile_fork_allows_sparse_segments f
       then bindU (getU (\<lambda>s. umfile_collect_existing_segnos s rlocator f)) (\<lambda>segnos.
              forU segnos (umfile_registersync_seg c f))
       else
         bindU (umfile_nblocks c f UMFILE_NBLOCKS_DENSE) (\<lambda>_.
         bindU (getU (\<lambda>s. length (ctx_segs s c f))) (\<lambda>min_inactive.
         bindU (getU (\<lambda>s. Suc (length (um_dir s)))) (\<lambda>n.
         bindU (umfile_open_inactive n c rlocator f min_inactive) (\<lambda>segno.
         umfile_registersync_dense segno c rlocator f min_inactive)))))"

subsection \<open>Vectored block I/O\<close>

definition umfile_maxcombine :: "ForkNumber \<Rightarrow> BlockNumber \<Rightarrow> nat" where
  "umfile_maxcombine f blocknum = RELSEG_SIZE - seg_off blocknum"

definition umfile_readv ::
  "nat \<Rightarrow> ForkNumber \<Rightarrow> BlockNumber \<Rightarrow> nat \<Rightarrow> bool \<Rightarrow> ('x um_fs_scheme, block list) um" where
  "umfile_readv c f blocknum nblocks zero_damaged_pages =
     (if nblocks = 0 then returnU []
      else
        bindU (umfile_getseg_some c f blocknum False
                 {UM_EXTENSION_FAIL, UM_EXTENSION_CREATE_RECOVERY}) (\<lambda>v.
          if min (min nblocks (RELSEG_SIZE - seg_off blocknum)) PG_IOV_MAX \<noteq> nblocks
          then throwU (ERROR, E_INTERNAL)
          else
            with_vfd v (\<lambda>ino.
              bindU (getU (\<lambda>s. um_inode s ino)) (\<lambda>bs.
              bindU (getU InRecovery) (\<lambda>rec.
                let got = take nblocks (drop (seg_off blocknum) bs) in
                if length got = nblocks then returnU got
                else if zero_damaged_pages \<or> rec
                then returnU (got @ replicate (nblocks - length got) zero_block)
                else throwU (ERROR, E_DATA_CORRUPTED))))))"

definition file_writev :: "nat \<Rightarrow> block list \<Rightarrow> block list \<Rightarrow> block list" where
  "file_writev i ws bs =
     (let bs' = file_pad (i + length ws) bs in take i bs' @ ws @ drop (i + length ws) bs')"

definition umfile_writev ::
  "nat \<Rightarrow> ForkNumber \<Rightarrow> BlockNumber \<Rightarrow> block list \<Rightarrow> bool \<Rightarrow> ('x um_fs_scheme, unit) um" where
  "umfile_writev c f blocknum buffers skipFsync =
     (if buffers = [] then returnU ()
      else
        bindU (getU (\<lambda>s. ctx_rloc s c)) (\<lambda>rlocator.
        bindU (umfile_getseg_some c f blocknum False
                 {UM_EXTENSION_FAIL, UM_EXTENSION_CREATE_RECOVERY}) (\<lambda>v.
          if min (min (length buffers) (RELSEG_SIZE - seg_off blocknum)) PG_IOV_MAX
               \<noteq> length buffers
          then throwU (ERROR, E_INTERNAL)
          else
            bindU (with_vfd v (\<lambda>ino.
                     modifyU (upd_inode ino (file_writev (seg_off blocknum) buffers)))) (\<lambda>_.
            whenU (\<not> skipFsync \<and> \<not> RelFileLocatorBackendIsTemp rlocator)
              (umfile_register_dirty_seg rlocator f v)))))"

subsection \<open>Prefetch, writeback, immediate sync and raw descriptors\<close>

text \<open>The kernel calls \<^verbatim>\<open>FilePrefetch\<close>, \<^verbatim>\<open>FileWriteback\<close> and
  \<^verbatim>\<open>FileSync\<close> leave the contents of an open file as they are; what these routines
  change is which segments are open.  \<open>nblocks\<close> bounds each loop because every round covers at least one
  block.\<close>

primrec umfile_prefetch_loop ::
  "nat \<Rightarrow> nat \<Rightarrow> ForkNumber \<Rightarrow> BlockNumber \<Rightarrow> nat \<Rightarrow> ('x um_fs_scheme, bool) um" where
  "umfile_prefetch_loop 0 c f blocknum nblocks = returnU True"
| "umfile_prefetch_loop (Suc n) c f blocknum nblocks =
     (if nblocks = 0 then returnU True
      else
        bindU (getU InRecovery) (\<lambda>rec.
        bindU (umfile_getseg c f blocknum False
                 (if rec then {UM_EXTENSION_RETURN_NULL} else {UM_EXTENSION_FAIL})) (\<lambda>v.
          if v = None then returnU False
          else
            let nblocks_this_segment = min nblocks (RELSEG_SIZE - seg_off blocknum) in
            umfile_prefetch_loop n c f (blocknum + of_nat nblocks_this_segment)
              (nblocks - nblocks_this_segment))))"

definition umfile_prefetch ::
  "nat \<Rightarrow> ForkNumber \<Rightarrow> BlockNumber \<Rightarrow> int \<Rightarrow> ('x um_fs_scheme, bool) um" where
  "umfile_prefetch c f blocknum nblocks =
     (if (ucast blocknum :: u64) + of_int nblocks > ucast MaxBlockNumber + 1 then returnU False
      else umfile_prefetch_loop (nat nblocks) c f blocknum (nat nblocks))"

primrec umfile_writeback_loop ::
  "nat \<Rightarrow> nat \<Rightarrow> ForkNumber \<Rightarrow> BlockNumber \<Rightarrow> nat \<Rightarrow> ('x um_fs_scheme, unit) um" where
  "umfile_writeback_loop 0 c f blocknum nblocks = returnU ()"
| "umfile_writeback_loop (Suc n) c f blocknum nblocks =
     (if nblocks = 0 then returnU ()
      else
        bindU (umfile_getseg_some c f blocknum False
                 {UM_EXTENSION_FAIL, UM_EXTENSION_CREATE_RECOVERY}) (\<lambda>v.
          let nflush = min nblocks (RELSEG_SIZE - seg_off blocknum) in
          bindU (with_vfd v (\<lambda>_. returnU ())) (\<lambda>_.
          umfile_writeback_loop n c f (blocknum + of_nat nflush) (nblocks - nflush))))"

definition umfile_writeback ::
  "nat \<Rightarrow> ForkNumber \<Rightarrow> BlockNumber \<Rightarrow> BlockNumber \<Rightarrow> ('x um_fs_scheme, unit) um" where
  "umfile_writeback c f blocknum nblocks =
     umfile_writeback_loop (unat nblocks) c f blocknum (unat nblocks)"

definition umfile_immedsync_seg :: "nat \<Rightarrow> ForkNumber \<Rightarrow> nat \<Rightarrow> ('x um_fs_scheme, unit) um" where
  "umfile_immedsync_seg c f curseg =
     bindU (getU (\<lambda>s. ctx_rloc s c)) (\<lambda>rlocator.
     bindU (getU (\<lambda>s. ctx_segs s c f)) (\<lambda>vs.
     bindU (if curseg < length vs \<and> umfile_seg_entry_is_open (vs ! curseg)
            then returnU (vs ! curseg)
            else bindU (umfile_openseg c rlocator f curseg False) (\<lambda>v.
                   case v of None \<Rightarrow> throwU (ERROR, E_FILE_ACCESS) | Some w \<Rightarrow> returnU w)) (\<lambda>v.
     with_vfd v (\<lambda>_. returnU ()))))"

primrec umfile_immedsync_dense ::
  "nat \<Rightarrow> nat \<Rightarrow> ForkNumber \<Rightarrow> nat \<Rightarrow> ('x um_fs_scheme, unit) um" where
  "umfile_immedsync_dense 0 c f min_inactive = returnU ()"
| "umfile_immedsync_dense (Suc segno) c f min_inactive =
     bindU (getU (\<lambda>s. umfile_v_get s c f segno)) (\<lambda>v.
     bindU (with_vfd v (\<lambda>_. returnU ())) (\<lambda>_.
     bindU (whenU (Suc segno > min_inactive) (umfile_fdvec_resize c f segno)) (\<lambda>_.
     umfile_immedsync_dense segno c f min_inactive)))"

definition umfile_immedsync :: "nat \<Rightarrow> ForkNumber \<Rightarrow> ('x um_fs_scheme, unit) um" where
  "umfile_immedsync c f =
     bindU (getU (\<lambda>s. ctx_rloc s c)) (\<lambda>rlocator.
       if umfile_fork_allows_sparse_segments f
       then bindU (getU (\<lambda>s. umfile_collect_existing_segnos s rlocator f)) (\<lambda>segnos.
              forU segnos (umfile_immedsync_seg c f))
       else
         bindU (umfile_nblocks c f UMFILE_NBLOCKS_DENSE) (\<lambda>_.
         bindU (getU (\<lambda>s. length (ctx_segs s c f))) (\<lambda>min_inactive.
         bindU (getU (\<lambda>s. Suc (length (um_dir s)))) (\<lambda>n.
         bindU (umfile_open_inactive n c rlocator f min_inactive) (\<lambda>segno.
         umfile_immedsync_dense segno c f min_inactive)))))"

text \<open>The raw descriptor is named by the file it is open on.\<close>

definition umfile_fd :: "nat \<Rightarrow> ForkNumber \<Rightarrow> BlockNumber \<Rightarrow> ('x um_fs_scheme, nat \<times> u32) um" where
  "umfile_fd c f blocknum =
     bindU (getU (\<lambda>s. ctx_rloc s c)) (\<lambda>rlocator.
     bindU (if umfile_fork_allows_sparse_segments f then returnU None
            else umfile_openfork c rlocator f {UM_EXTENSION_FAIL}) (\<lambda>_.
     bindU (umfile_getseg_some c f blocknum False {UM_EXTENSION_FAIL}) (\<lambda>v.
     with_vfd v (\<lambda>ino. returnU (ino, of_nat (BLCKSZ * seg_off blocknum))))))"


subsection \<open>Contents of a fork and well-formed states\<close>

text \<open>The block a fork holds at a block number, independent of any open descriptor.\<close>

definition fork_block ::
  "'x um_fs_scheme \<Rightarrow> RelFileLocatorBackend \<Rightarrow> ForkNumber \<Rightarrow> BlockNumber \<Rightarrow> block option" where
  "fork_block s r f b =
     (case path_inode s (r, f, seg_of b) of
        None \<Rightarrow> None
      | Some ino \<Rightarrow> if seg_off b < length (um_inode s ino) then Some (um_inode s ino ! seg_off b)
                    else None)"

text \<open>The file system is well formed: paths and inodes correspond one to one, no segment is longer
  than \<^const>\<open>RELSEG_SIZE\<close>, and in a dense fork a segment file exists only behind a full one. A
  context is well formed if each open entry is the descriptor of the segment file at its index;
  only sparse forks have closed entries.\<close>

definition seg_full ::
  "'x um_fs_scheme \<Rightarrow> RelFileLocatorBackend \<Rightarrow> ForkNumber \<Rightarrow> nat \<Rightarrow> bool" where
  "seg_full s r f i \<longleftrightarrow>
     (\<exists>ino. path_inode s (r, f, i) = Some ino \<and> length (um_inode s ino) = RELSEG_SIZE)"

definition fs_ok :: "'x um_fs_scheme \<Rightarrow> bool" where
  "fs_ok s \<longleftrightarrow>
     distinct (map fst (um_dir s)) \<and> distinct (map snd (um_dir s)) \<and>
     (\<forall>(p, ino) \<in> set (um_dir s). ino < um_next_inode s \<and> length (um_inode s ino) \<le> RELSEG_SIZE) \<and>
     (\<forall>r f i. \<not> umfile_fork_allows_sparse_segments f \<and> path_inode s (r, f, Suc i) \<noteq> None \<longrightarrow>
        seg_full s r f i)"

definition seg_entry_ok ::
  "'x um_fs_scheme \<Rightarrow> RelFileLocatorBackend \<Rightarrow> ForkNumber \<Rightarrow> nat \<Rightarrow> UmfdVec \<Rightarrow> bool" where
  "seg_entry_ok s r f i v \<longleftrightarrow>
     (case umfd_vfd v of
        None \<Rightarrow> umfile_fork_allows_sparse_segments f
      | Some ino \<Rightarrow> umfd_segno v = i \<and> path_inode s (r, f, i) = Some ino)"

definition ctx_ok :: "'x um_fs_scheme \<Rightarrow> nat \<Rightarrow> bool" where
  "ctx_ok s c \<longleftrightarrow>
     (\<forall>f. \<forall>i < length (ctx_segs s c f). seg_entry_ok s (ctx_rloc s c) f i (ctx_segs s c f ! i))"

text \<open>A step that at most opens descriptors, creates empty segments and pads segments with zero
  blocks: existing paths and existing blocks stay, new blocks are zero, contexts stay well formed,
  and the layers above are not touched.\<close>

definition fs_ext :: "'x um_fs_scheme \<Rightarrow> 'x um_fs_scheme \<Rightarrow> bool" where
  "fs_ext s t \<longleftrightarrow>
     fs_ok t \<and>
     (\<forall>p i. path_inode s p = Some i \<longrightarrow>
        path_inode t p = Some i \<and> length (um_inode s i) \<le> length (um_inode t i)) \<and>
     (\<forall>r f b x. fork_block s r f b = Some x \<longrightarrow> fork_block t r f b = Some x) \<and>
     (\<forall>r f b x. fork_block t r f b = Some x \<longrightarrow> fork_block s r f b = Some x \<or> x = zero_block) \<and>
     (\<forall>c. ctx_rloc t c = ctx_rloc s c) \<and> (\<forall>c. ctx_ok s c \<longrightarrow> ctx_ok t c) \<and>
     InRecovery t = InRecovery s \<and> um_fs.more t = um_fs.more s"

lemma fs_ext_refl [intro]: "fs_ok s \<Longrightarrow> fs_ext s s"
  by (simp add: fs_ext_def)

lemma fs_extD:
  assumes "fs_ext s t"
  shows "fs_ok t" and "ctx_ok s c \<Longrightarrow> ctx_ok t c" and "ctx_rloc t c = ctx_rloc s c"
    and "path_inode s p = Some i \<Longrightarrow> path_inode t p = Some i"
    and "fork_block s r f b = Some x \<Longrightarrow> fork_block t r f b = Some x"
    and "fork_block t r f b = Some x \<Longrightarrow> fork_block s r f b = Some x \<or> x = zero_block"
    and "InRecovery t = InRecovery s" and "um_fs.more t = um_fs.more s"
    and "path_inode s p = Some i \<Longrightarrow> length (um_inode s i) \<le> length (um_inode t i)"
  using assms unfolding fs_ext_def by blast+

lemma fs_ext_trans [trans]:
  assumes st: "fs_ext s t" and tu: "fs_ext t u"
  shows "fs_ext s u"
proof -
  have "fork_block u r f b = Some x \<Longrightarrow> fork_block s r f b = Some x \<or> x = zero_block" for r f b x
    using fs_extD(6) [OF tu] fs_extD(6) [OF st] by blast
  moreover have "path_inode s p = Some i \<Longrightarrow>
      path_inode u p = Some i \<and> length (um_inode s i) \<le> length (um_inode u i)" for p i
    using fs_extD(4,9) [OF st] fs_extD(4,9) [OF tu] order_trans by blast
  ultimately show ?thesis
    unfolding fs_ext_def [of s u]
    using fs_extD(1,2,3,5,7,8) [OF st] fs_extD(1,2,3,5,7,8) [OF tu] by simp
qed

lemma path_inode_mem: "path_inode s p = Some i \<Longrightarrow> (p, i) \<in> set (um_dir s)"
  by (simp add: path_inode_def map_of_SomeD)

lemma fs_ok_inode_inj:
  assumes "fs_ok s" and "path_inode s p = Some i" and "path_inode s q = Some i"
  shows "p = q"
proof -
  have "inj_on snd (set (um_dir s))"
    using assms(1) by (simp add: fs_ok_def distinct_map)
  from inj_onD [OF this, of "(p, i)" "(q, i)"] show ?thesis
    using path_inode_mem [OF assms(2)] path_inode_mem [OF assms(3)] by simp
qed

lemma fs_ok_bounds:
  assumes "fs_ok s" and "path_inode s p = Some i"
  shows "i < um_next_inode s" and "length (um_inode s i) \<le> RELSEG_SIZE"
  using assms path_inode_mem [of s p i] by (auto simp: fs_ok_def)

lemma seg_full_ext:
  assumes "fs_ext s t" and "seg_full s r f i"
  shows "seg_full t r f i"
proof -
  from assms(2) obtain ino where s: "path_inode s (r, f, i) = Some ino"
    "length (um_inode s ino) = RELSEG_SIZE"
    by (auto simp: seg_full_def)
  have t: "path_inode t (r, f, i) = Some ino"
    using fs_extD(4) [OF assms(1) s(1)] .
  have "length (um_inode t ino) = RELSEG_SIZE"
    using fs_extD(9) [OF assms(1) s(1)] s(2) fs_ok_bounds(2) [OF fs_extD(1) [OF assms(1)] t]
    by simp
  with t show ?thesis by (simp add: seg_full_def)
qed

lemma seg_off_less [simp]: "seg_off b < RELSEG_SIZE"
  by (simp add: seg_off_def)

lemma seg_eq: "seg_of b = seg_of b' \<Longrightarrow> seg_off b = seg_off b' \<Longrightarrow> b = b'"
  unfolding seg_of_def seg_off_def u32_eq_iff_unat by (metis div_mult_mod_eq)

text \<open>Updates of a context's segment vector leave the files alone.\<close>

lemma set_ctx_segs_simps [simp]:
  "um_dir (set_ctx_segs c f vs s) = um_dir s"
  "um_inode (set_ctx_segs c f vs s) = um_inode s"
  "um_next_inode (set_ctx_segs c f vs s) = um_next_inode s"
  "InRecovery (set_ctx_segs c f vs s) = InRecovery s"
  "um_sync (set_ctx_segs c f vs s) = um_sync s"
  "um_fs.more (set_ctx_segs c f vs s) = um_fs.more s"
  "path_inode (set_ctx_segs c f vs s) = path_inode s"
  "fork_block (set_ctx_segs c f vs s) = fork_block s"
  "seg_full (set_ctx_segs c f vs s) = seg_full s"
  "fs_ok (set_ctx_segs c f vs s) = fs_ok s"
  "ctx_rloc (set_ctx_segs c f vs s) d = ctx_rloc s d"
  "ctx_segs (set_ctx_segs c f vs s) d g = (if d = c \<and> g = f then vs else ctx_segs s d g)"
  by (simp_all add: set_ctx_segs_def path_inode_def fork_block_def fs_ok_def ctx_rloc_def
      ctx_segs_def seg_full_def fun_eq_iff split: option.splits)

lemma seg_entry_ok_set_segs [simp]:
  "seg_entry_ok (set_ctx_segs c f vs s) r g i v = seg_entry_ok s r g i v"
  by (simp add: seg_entry_ok_def split: option.splits)

lemma ctx_ok_set_segs:
  assumes "ctx_ok s d"
    and "\<And>i. i < length vs \<Longrightarrow> seg_entry_ok s (ctx_rloc s c) f i (vs ! i)"
  shows "ctx_ok (set_ctx_segs c f vs s) d"
  using assms by (auto simp: ctx_ok_def)

lemma ctx_okD:
  "ctx_ok s c \<Longrightarrow> i < length (ctx_segs s c f) \<Longrightarrow>
     seg_entry_ok s (ctx_rloc s c) f i (ctx_segs s c f ! i)"
  by (simp add: ctx_ok_def)

lemma seg_entry_reset_ok:
  "seg_entry_ok s r f i umfile_seg_entry_reset = umfile_fork_allows_sparse_segments f"
  by (simp add: seg_entry_ok_def umfile_seg_entry_reset_def)

text \<open>Opening a file: either the path exists and nothing changes, or an empty file appears.\<close>

definition file_created :: "seg_path \<Rightarrow> 'x um_fs_scheme \<Rightarrow> 'x um_fs_scheme" where
  "file_created p s =
     s\<lparr>um_dir := (p, um_next_inode s) # um_dir s,
       um_inode := (um_inode s)(um_next_inode s := []),
       um_next_inode := um_next_inode s + 1\<rparr>"

lemma PathNameOpenFile_run:
  "PathNameOpenFile p creat excl s =
     (case path_inode s p of
        Some ino \<Rightarrow> (Inr (if creat \<and> excl then None else Some ino), s)
      | None \<Rightarrow> if creat then (Inr (Some (um_next_inode s)), file_created p s) else (Inr None, s))"
  by (simp add: PathNameOpenFile_def file_created_def split: option.splits)

lemma wpU_PathNameOpenFile [wp]:
  "wpU (PathNameOpenFile p creat excl) Q s =
     (case path_inode s p of
        Some ino \<Rightarrow> Q (Inr (if creat \<and> excl then None else Some ino)) s
      | None \<Rightarrow> if creat then Q (Inr (Some (um_next_inode s))) (file_created p s)
                else Q (Inr None) s)"
  by (simp add: wpU_def PathNameOpenFile_def file_created_def split: option.splits)

lemma path_inode_created:
  "path_inode (file_created p s) q = (if q = p then Some (um_next_inode s) else path_inode s q)"
  by (simp add: path_inode_def file_created_def)

text \<open>A new segment of a dense fork must follow a full one.\<close>

definition may_create :: "'x um_fs_scheme \<Rightarrow> seg_path \<Rightarrow> bool" where
  "may_create s p \<longleftrightarrow> (case p of (r, f, i) \<Rightarrow>
     umfile_fork_allows_sparse_segments f \<or> (\<forall>j. i = Suc j \<longrightarrow> seg_full s r f j))"

lemma seg_full_created:
  assumes "fs_ok s" and "path_inode s p = None" and "seg_full s r f i"
  shows "seg_full (file_created p s) r f i"
  using assms fs_ok_bounds(1) [OF assms(1), of "(r, f, i)"]
  by (auto simp: seg_full_def path_inode_created) (auto simp: file_created_def)

lemma fs_ok_created:
  assumes "fs_ok s" and "path_inode s p = None" and "may_create s p"
  shows "fs_ok (file_created p s)"
proof -
  have "p \<notin> fst ` set (um_dir s)"
    using assms(2) by (simp add: path_inode_def map_of_eq_None_iff)
  moreover have "um_next_inode s \<notin> snd ` set (um_dir s)"
    using assms(1) by (force simp: fs_ok_def)
  moreover have "seg_full (file_created p s) r f i"
    if "\<not> umfile_fork_allows_sparse_segments f" "path_inode (file_created p s) (r, f, Suc i) \<noteq> None"
    for r f i
  proof (rule seg_full_created [OF assms(1,2)])
    show "seg_full s r f i"
      using that assms by (cases "(r, f, Suc i) = p")
        (auto simp: path_inode_created may_create_def fs_ok_def)
  qed
  moreover have "\<forall>(q, ino) \<in> set (um_dir (file_created p s)). ino < um_next_inode (file_created p s) \<and>
      length (um_inode (file_created p s) ino) \<le> RELSEG_SIZE"
    using assms(1) by (force simp: fs_ok_def file_created_def)
  ultimately show ?thesis
    using assms(1) unfolding fs_ok_def by (auto simp: file_created_def)
qed

lemma fork_block_created:
  assumes "fs_ok s" and "path_inode s p = None"
  shows "fork_block (file_created p s) = fork_block s"
proof (intro ext)
  fix r f b
  show "fork_block (file_created p s) r f b = fork_block s r f b"
    using assms fs_ok_bounds(1) [OF assms(1), of "(r, f, seg_of b)"]
    unfolding fork_block_def path_inode_created
    by (auto simp: file_created_def split: option.splits)
qed

lemma fs_ext_created:
  assumes "fs_ok s" and "path_inode s p = None" and "may_create s p"
  shows "fs_ext s (file_created p s)"
proof -
  have segs: "ctx_segs (file_created p s) = ctx_segs s" "ctx_rloc (file_created p s) = ctx_rloc s"
    by (simp_all add: fun_eq_iff ctx_segs_def ctx_rloc_def file_created_def)
  have "seg_entry_ok (file_created p s) r f i v" if "seg_entry_ok s r f i v" for r f i v
    using that assms(2) by (auto simp: seg_entry_ok_def path_inode_created split: option.splits)
  then have "ctx_ok (file_created p s) c" if "ctx_ok s c" for c
    using that by (simp add: ctx_ok_def segs)
  moreover have "InRecovery (file_created p s) = InRecovery s"
    "um_fs.more (file_created p s) = um_fs.more s"
    by (simp_all add: file_created_def)
  moreover have "path_inode (file_created p s) q = Some i \<and>
      length (um_inode s i) \<le> length (um_inode (file_created p s) i)"
    if "path_inode s q = Some i" for q i
    using that assms(2) fs_ok_bounds(1) [OF assms(1) that]
    by (auto simp: path_inode_created) (auto simp: file_created_def)
  ultimately show ?thesis
    using assms(1) fs_ok_created [OF assms] fork_block_created [OF assms(1,2)] segs
    unfolding fs_ext_def by simp
qed

lemma fs_ext_set_segs:
  assumes "fs_ext s t"
    and "\<And>i. i < length vs \<Longrightarrow> seg_entry_ok t (ctx_rloc t c) f i (vs ! i)"
  shows "fs_ext s (set_ctx_segs c f vs t)"
proof -
  have "ctx_ok s d \<Longrightarrow> ctx_ok (set_ctx_segs c f vs t) d" for d
    using ctx_ok_set_segs [of t d vs c f] assms fs_extD(2) [OF assms(1)] by blast
  then show ?thesis
    using assms(1) unfolding fs_ext_def set_ctx_segs_simps by blast
qed

lemma wpU_with_vfd [wp]:
  "wpU (with_vfd v k) Q s =
     (case umfd_vfd v of None \<Rightarrow> Q (Inl (ERROR, E_INTERNAL)) s | Some ino \<Rightarrow> wpU (k ino) Q s)"
  by (simp add: with_vfd_def wp split: option.splits)

lemma wpU_fdvec_resize [wp]:
  "wpU (umfile_fdvec_resize c f n) Q s =
     Q (Inr ()) (set_ctx_segs c f (take n (ctx_segs s c f) @
       replicate (n - length (ctx_segs s c f)) umfile_seg_entry_reset) s)"
  by (simp add: umfile_fdvec_resize_def wp Let_def)

lemma wpU_v_set [wp]:
  "wpU (umfile_v_set c f i v) Q s = Q (Inr ()) (set_ctx_segs c f ((ctx_segs s c f)[i := v]) s)"
  by (simp add: umfile_v_set_def wp)

lemma wpU_nblocks_in_seg [wp]:
  "wpU (umfile_nblocks_in_seg v) Q s =
     (case umfd_vfd v of None \<Rightarrow> Q (Inl (ERROR, E_INTERNAL)) s
      | Some ino \<Rightarrow> Q (Inr (length (um_inode s ino))) s)"
  by (simp add: umfile_nblocks_in_seg_def wp split: option.splits)

lemma set_ctx_segs_twice [simp]:
  "set_ctx_segs c f vs (set_ctx_segs c f ws s) = set_ctx_segs c f vs s"
  by (simp add: set_ctx_segs_def)

text \<open>What a segment lookup returns: the open descriptor of the segment file.\<close>

definition seg_result ::
  "'x um_fs_scheme \<Rightarrow> RelFileLocatorBackend \<Rightarrow> ForkNumber \<Rightarrow> nat \<Rightarrow> UmfdVec \<Rightarrow> bool" where
  "seg_result t r f i v \<longleftrightarrow>
     (\<exists>ino. umfd_vfd v = Some ino \<and> umfd_segno v = i \<and> path_inode t (r, f, i) = Some ino)"

lemma seg_result_ext: "seg_result s r f i v \<Longrightarrow> fs_ext s t \<Longrightarrow> seg_result t r f i v"
  unfolding seg_result_def using fs_extD(4) by blast

lemma seg_result_ok: "seg_result s r f i v \<Longrightarrow> seg_entry_ok s r f i v"
  by (auto simp: seg_result_def seg_entry_ok_def)

lemma seg_entry_open_result:
  "seg_entry_ok s r f i v \<Longrightarrow> umfile_seg_entry_is_open v \<Longrightarrow> seg_result s r f i v"
  "seg_entry_ok s r f i v \<Longrightarrow> \<not> umfile_fork_allows_sparse_segments f \<Longrightarrow> seg_result s r f i v"
  by (auto simp: seg_result_def seg_entry_ok_def umfile_seg_entry_is_open_def split: option.splits)

definition openseg_vector :: "UmfdVec list \<Rightarrow> nat \<Rightarrow> UmfdVec \<Rightarrow> UmfdVec list" where
  "openseg_vector vs segno v =
     (vs @ replicate (segno + 1 - length vs) umfile_seg_entry_reset)[segno := v]"

lemma length_openseg_vector [simp]:
  "length (openseg_vector vs segno v) = max (length vs) (segno + 1)"
  by (auto simp: openseg_vector_def)

lemma nth_openseg_vector [simp]: "openseg_vector vs segno v ! segno = v"
  by (simp add: openseg_vector_def)

lemma openseg_vector_ok:
  assumes "ctx_ok s c" and "seg_result s (ctx_rloc s c) f segno v"
    and "umfile_fork_allows_sparse_segments f \<or> segno \<le> length (ctx_segs s c f)"
    and "i < length (openseg_vector (ctx_segs s c f) segno v)"
  shows "seg_entry_ok s (ctx_rloc s c) f i (openseg_vector (ctx_segs s c f) segno v ! i)"
proof (cases "i = segno")
  case True
  then show ?thesis using assms(2) by (simp add: seg_result_ok)
next
  case False
  then show ?thesis
    using assms(3,4) ctx_okD [OF assms(1), of i f]
    by (auto simp: openseg_vector_def nth_append seg_entry_reset_ok)
qed

lemma openseg_run:
  assumes "umfile_fork_allows_sparse_segments f \<or> segno = length (ctx_segs s c f)"
  shows "umfile_openseg c r f segno creat s =
    (case path_inode s (r, f, segno) of
       Some ino \<Rightarrow>
         (Inr (Some \<lparr>umfd_vfd = Some ino, umfd_segno = segno\<rparr>),
          set_ctx_segs c f (openseg_vector (ctx_segs s c f) segno
            \<lparr>umfd_vfd = Some ino, umfd_segno = segno\<rparr>) s)
     | None \<Rightarrow>
         if creat then
           (Inr (Some \<lparr>umfd_vfd = Some (um_next_inode s), umfd_segno = segno\<rparr>),
            set_ctx_segs c f (openseg_vector (ctx_segs s c f) segno
              \<lparr>umfd_vfd = Some (um_next_inode s), umfd_segno = segno\<rparr>)
              (file_created (r, f, segno) s))
         else (Inr None, s))"
proof -
  have segs: "ctx_segs (file_created p s) c f = ctx_segs s c f" for p
    by (simp add: ctx_segs_def file_created_def)
  show ?thesis
    using assms
    by (auto simp: umfile_openseg_def PathNameOpenFile_run um_defs umfile_fdvec_resize_def
        umfile_v_set_def openseg_vector_def Let_def segs max_def split: option.splits)
qed

lemma openseg_spec:
  assumes ok: "fs_ok s" "ctx_ok s c" and r: "r = ctx_rloc s c"
    and seg: "umfile_fork_allows_sparse_segments f \<or> segno = length (ctx_segs s c f)"
    and cr: "creat \<Longrightarrow> may_create s (r, f, segno)"
  shows "wpU (umfile_openseg c r f segno creat) (\<lambda>res t. fs_ext s t \<and>
     fork_block t = fork_block s \<and> (\<not> creat \<longrightarrow> path_inode t = path_inode s) \<and>
     (case res of
        Inl e \<Rightarrow> False
      | Inr None \<Rightarrow> t = s \<and> \<not> creat \<and> path_inode s (r, f, segno) = None
      | Inr (Some v) \<Rightarrow> seg_result t r f segno v \<and>
          length (ctx_segs t c f) = max (length (ctx_segs s c f)) (segno + 1) \<and>
          ctx_segs t c f ! segno = v)) s"
proof -
  have main: "fs_ext s (set_ctx_segs c f (openseg_vector (ctx_segs s c f) segno v) t)"
    if t: "fs_ext s t" "ctx_segs t c f = ctx_segs s c f" "seg_result t r f segno v" for t v
    using openseg_vector_ok [of t c f segno v] t fs_extD(2,3) [OF t(1)] ok seg r
    by (intro fs_ext_set_segs) auto
  have segs: "ctx_segs (file_created p s) c f = ctx_segs s c f" for p
    by (simp add: ctx_segs_def file_created_def)
  show ?thesis
  proof (cases "path_inode s (r, f, segno)")
    case None
    show ?thesis
      using None main [OF fs_ext_created [OF ok(1) None cr] segs] fs_ext_refl [OF ok(1)]
        fork_block_created [OF ok(1) None]
      by (simp add: wpU_def openseg_run [OF seg] seg_result_def path_inode_created segs)
  next
    case (Some ino)
    then show ?thesis
      using main [OF fs_ext_refl [OF ok(1)] refl]
      by (simp add: wpU_def openseg_run [OF seg] seg_result_def)
  qed
qed

subsection \<open>File updates\<close>

lemma length_file_pad [simp]: "length (file_pad n bs) = max (length bs) n"
  by (simp add: file_pad_def)

lemma nth_file_pad:
  "j < length (file_pad n bs) \<Longrightarrow> file_pad n bs ! j = (if j < length bs then bs ! j else zero_block)"
  by (auto simp: file_pad_def nth_append)

lemma length_file_writev [simp]: "length (file_writev i ws bs) = max (length bs) (i + length ws)"
  by (auto simp: file_writev_def Let_def)

lemma nth_file_writev:
  assumes "j < max (length bs) (i + length ws)"
  shows "file_writev i ws bs ! j =
    (if i \<le> j \<and> j < i + length ws then ws ! (j - i)
     else if j < length bs then bs ! j else zero_block)"
  using assms by (auto simp: file_writev_def Let_def nth_append nth_file_pad min_def)

lemma file_zero_writev: "file_zero i n bs = file_writev i (replicate n zero_block) bs"
  by (simp add: file_zero_def file_writev_def)

lemma file_write_writev:
  "file_write i ws bs =
     file_writev i [ws @ drop (length ws) (if i < length bs then bs ! i else zero_block)] bs"
proof -
  have i: "i < length (file_pad (i + 1) bs)" by simp
  show ?thesis
    using i by (simp add: file_write_def file_writev_def Let_def nth_file_pad upd_conv_take_nth_drop)
qed

text \<open>Overwriting part of the segment of a block.\<close>

definition seg_put ::
  "RelFileLocatorBackend \<Rightarrow> ForkNumber \<Rightarrow> nat \<Rightarrow> nat \<Rightarrow> block list \<Rightarrow>
   'x um_fs_scheme \<Rightarrow> 'x um_fs_scheme" where
  "seg_put r f seg off ws s =
     (case path_inode s (r, f, seg) of
        None \<Rightarrow> s | Some ino \<Rightarrow> upd_inode ino (file_writev off ws) s)"

lemma upd_inode_simps [simp]:
  "um_dir (upd_inode ino g s) = um_dir s"
  "um_next_inode (upd_inode ino g s) = um_next_inode s"
  "um_ctxs (upd_inode ino g s) = um_ctxs s"
  "InRecovery (upd_inode ino g s) = InRecovery s"
  "um_fs.more (upd_inode ino g s) = um_fs.more s"
  "path_inode (upd_inode ino g s) = path_inode s"
  "ctx_segs (upd_inode ino g s) = ctx_segs s"
  "ctx_rloc (upd_inode ino g s) = ctx_rloc s"
  "um_inode (upd_inode ino g s) i = (if i = ino then g (um_inode s ino) else um_inode s i)"
  by (simp_all add: upd_inode_def path_inode_def ctx_segs_def ctx_rloc_def fun_eq_iff)

lemma ctx_ok_upd_inode [simp]: "ctx_ok (upd_inode ino g s) c = ctx_ok s c"
  by (simp add: ctx_ok_def seg_entry_ok_def cong: option.case_cong)

lemma fs_ok_upd_inode:
  assumes "fs_ok s" and "length (um_inode s ino) \<le> length (g (um_inode s ino))"
    and "length (g (um_inode s ino)) \<le> RELSEG_SIZE"
  shows "fs_ok (upd_inode ino g s)"
proof -
  have full: "seg_full (upd_inode ino g s) r f i" if "seg_full s r f i" for r f i
    using that assms(2,3) by (auto simp: seg_full_def)
  then show ?thesis
    using assms unfolding fs_ok_def by auto
qed

lemma fork_block_upd_inode:
  assumes "fs_ok s" and "path_inode s (r, f, seg) = Some ino"
  shows "fork_block (upd_inode ino (file_writev off ws) s) r' f' b =
    (if r' = r \<and> f' = f \<and> seg_of b = seg \<and> seg_off b < off + length ws
     then (if off \<le> seg_off b then Some (ws ! (seg_off b - off))
           else if fork_block s r f b = None then Some zero_block else fork_block s r f b)
     else fork_block s r' f' b)"
proof (cases "path_inode s (r', f', seg_of b) = Some ino")
  case True
  then have "(r', f', seg_of b) = (r, f, seg)"
    using fs_ok_inode_inj [OF assms(1) _ assms(2)] by simp
  with True show ?thesis
    by (auto simp: fork_block_def nth_file_writev)
next
  case False
  with assms(2) have "\<not> (r' = r \<and> f' = f \<and> seg_of b = seg)" by auto
  with False show ?thesis
    by (auto simp: fork_block_def split: option.splits)
qed

lemma fs_ext_upd_inode:
  assumes "fs_ok s" and p: "path_inode s (r, f, seg) = Some ino"
    and new: "length (um_inode s ino) \<le> off" and "off + length ws \<le> RELSEG_SIZE"
    and zero: "\<And>w. w \<in> set ws \<Longrightarrow> w = zero_block"
  shows "fs_ext s (upd_inode ino (file_writev off ws) s)"
proof -
  have none: "fork_block s r f b = None" if "seg_of b = seg" "off \<le> seg_off b" for b
    using that p new by (simp add: fork_block_def)
  have "fs_ok (upd_inode ino (file_writev off ws) s)"
    using assms fs_ok_bounds(2) [OF assms(1) p] by (intro fs_ok_upd_inode) auto
  then show ?thesis
    using none zero unfolding fs_ext_def
    by (auto simp: fork_block_upd_inode [OF assms(1) p] split: if_splits)
qed

subsection \<open>Opening segments: what the lookups guarantee\<close>

lemma sync_frame [simp]:
  "path_inode (s\<lparr>um_sync := x\<rparr>) = path_inode s"
  "fork_block (s\<lparr>um_sync := x\<rparr>) = fork_block s"
  "fs_ok (s\<lparr>um_sync := x\<rparr>) = fs_ok s"
  "ctx_segs (s\<lparr>um_sync := x\<rparr>) = ctx_segs s"
  "ctx_rloc (s\<lparr>um_sync := x\<rparr>) = ctx_rloc s"
  "ctx_ok (s\<lparr>um_sync := x\<rparr>) = ctx_ok s"
  by (simp_all add: path_inode_def fork_block_def fs_ok_def ctx_segs_def ctx_rloc_def ctx_ok_def
      seg_entry_ok_def seg_full_def fun_eq_iff split: option.splits)

lemma fs_ext_sync [simp]: "fs_ext s (t\<lparr>um_sync := x\<rparr>) = fs_ext s t"
  by (simp add: fs_ext_def)

lemma seg_result_sync [simp]: "seg_result (s\<lparr>um_sync := x\<rparr>) r f i v = seg_result s r f i v"
  by (simp add: seg_result_def)

lemma wpU_register_dirty_seg [wp]:
  "wpU (umfile_register_dirty_seg r f v) Q s =
     (if relNumber (locator r) = 0 \<or> spcOid (locator r) = 0 then Q (Inl (PANIC, E_INTERNAL)) s
      else Q (Inr ()) (s\<lparr>um_sync := um_sync s @ [SYNC_REQUEST (locator r, f, umfd_segno v)]\<rparr>))"
  by (simp add: umfile_register_dirty_seg_def wp)

lemma openfork_spec:
  assumes ok: "fs_ok s" "ctx_ok s c" and r: "r = ctx_rloc s c"
    and d: "\<not> umfile_fork_allows_sparse_segments f"
  shows "wpU (umfile_openfork c r f beh) (\<lambda>res t. fs_ext s t \<and>
     fork_block t = fork_block s \<and> path_inode t = path_inode s \<and>
     (case res of
        Inl e \<Rightarrow> UM_EXTENSION_RETURN_NULL \<notin> beh \<and> path_inode s (r, f, 0) = None \<and> t = s
      | Inr None \<Rightarrow> path_inode s (r, f, 0) = None \<and> t = s
      | Inr (Some v) \<Rightarrow> path_inode s (r, f, 0) \<noteq> None \<and> seg_result t r f 0 v \<and>
          length (ctx_segs t c f) = max 1 (length (ctx_segs s c f)) \<and>
          ctx_segs t c f ! 0 = v)) s"
proof (cases "ctx_segs s c f")
  case Nil
  have new: "fs_ext s (set_ctx_segs c f [\<lparr>umfd_vfd = Some ino, umfd_segno = 0\<rparr>] s)"
    if "path_inode s (r, f, 0) = Some ino" for ino
    using that r by (intro fs_ext_set_segs [OF fs_ext_refl [OF ok(1)]])
      (simp add: seg_entry_ok_def)
  show ?thesis
    using Nil ok new
    by (auto simp: umfile_openfork_def wp seg_result_def split: option.splits)
next
  case (Cons v vs)
  then have "seg_result s r f 0 v"
    using ctx_okD [OF ok(2), of 0 f] seg_entry_open_result(2) [OF _ d] r by auto
  moreover from this have "path_inode s (r, f, 0) \<noteq> None"
    by (auto simp: seg_result_def)
  ultimately show ?thesis
    using Cons ok(1) by (auto simp: umfile_openfork_def wp max_def)
qed

lemma dense_prefix_full:
  assumes "fs_ok s" and "\<not> umfile_fork_allows_sparse_segments f"
    and "path_inode s (r, f, k) \<noteq> None" and "i < k"
  shows "seg_full s r f i"
  using assms(3,4)
proof (induction k)
  case (Suc k)
  have full: "seg_full s r f k"
    using assms(1,2) Suc.prems(1) unfolding fs_ok_def by blast
  then have "path_inode s (r, f, k) \<noteq> None"
    by (auto simp: seg_full_def)
  with Suc full show ?case
    by (cases "i = k") auto
qed simp

lemma pad_segment_spec:
  assumes ok: "fs_ok s" and v: "seg_result s r f i v" and short: "\<not> seg_full s r f i"
  shows "wpU (umfile_pad_segment r f v skipFsync) (\<lambda>res t. fs_ext s t \<and> seg_result t r f i v \<and>
     seg_full t r f i \<and> ctx_segs t = ctx_segs s \<and> (res = Inr () \<or> \<not> skipFsync)) s"
proof -
  obtain ino where ino: "umfd_vfd v = Some ino" "path_inode s (r, f, i) = Some ino"
    using v by (auto simp: seg_result_def)
  have len: "length (um_inode s ino) < RELSEG_SIZE"
    using short fs_ok_bounds(2) [OF ok ino(2)] ino(2) by (auto simp: seg_full_def)
  have "file_write (RELSEG_SIZE - 1) zero_block bs = file_writev (RELSEG_SIZE - 1) [zero_block] bs"
    if "length bs < RELSEG_SIZE" for bs
    using that by (simp add: file_write_writev)
  then have pad: "upd_inode ino (file_write (RELSEG_SIZE - 1) zero_block) s =
      upd_inode ino (file_writev (RELSEG_SIZE - 1) [zero_block]) s" (is "_ = ?t")
    using len by (simp add: upd_inode_def)
  have ext: "fs_ext s ?t"
    using len by (intro fs_ext_upd_inode [OF ok ino(2)]) auto
  have full: "seg_full ?t r f i"
    using ino(2) len RELSEG_SIZE_pos by (simp add: seg_full_def max_def)
  have segs: "ctx_segs ?t = ctx_segs s"
    by simp
  show ?thesis
    using ext full seg_result_ext [OF v ext] ino segs
    unfolding umfile_pad_segment_def wp pad ino(1) option.case sum.case
    by (simp add: seg_full_def)
qed

definition create_flag :: "'x um_fs_scheme \<Rightarrow> um_behavior set \<Rightarrow> bool" where
  "create_flag s beh \<longleftrightarrow>
     UM_EXTENSION_CREATE \<in> beh \<or> InRecovery s \<and> UM_EXTENSION_CREATE_RECOVERY \<in> beh"

lemma create_flag_ext: "fs_ext s t \<Longrightarrow> create_flag t beh = create_flag s beh"
  using fs_extD(7) [of s t] by (simp add: create_flag_def)

text \<open>The outcome of a segment lookup for segment \<open>target\<close>: the descriptor of the segment; it can
  fail only if the segment does not exist and the lookup may not silently create it.\<close>

definition getseg_post ::
  "'x um_fs_scheme \<Rightarrow> nat \<Rightarrow> ForkNumber \<Rightarrow> bool \<Rightarrow> um_behavior set \<Rightarrow> nat \<Rightarrow>
   um_error + UmfdVec option \<Rightarrow> 'x um_fs_scheme \<Rightarrow> bool" where
  "getseg_post s c f skipFsync beh target res t \<longleftrightarrow>
     fs_ext s t \<and> (create_flag s beh \<or> fork_block t = fork_block s) \<and>
     (case res of
        Inr (Some w) \<Rightarrow> seg_result t (ctx_rloc s c) f target w
      | _ \<Rightarrow> \<not> (create_flag s beh \<and> (skipFsync \<or> umfile_fork_allows_sparse_segments f)) \<and>
          path_inode s (ctx_rloc s c, f, target) = None)"

lemma getseg_post_trans:
  assumes "fs_ext s t" and "create_flag s beh \<or> fork_block t = fork_block s"
    and "getseg_post t c f skipFsync beh target res u"
  shows "getseg_post s c f skipFsync beh target res u"
proof -
  have "path_inode s p = None" if "path_inode t p = None" for p
    using fs_extD(4) [OF assms(1)] that by (cases "path_inode s p") auto
  then show ?thesis
    using assms fs_ext_trans [OF assms(1)] create_flag_ext [OF assms(1)] fs_extD(3) [OF assms(1)]
    unfolding getseg_post_def by (auto split: sum.splits option.splits)
qed

lemma getseg_dense_spec:
  assumes "fs_ok s" "ctx_ok s c" "r = ctx_rloc s c"
    and d: "\<not> umfile_fork_allows_sparse_segments f"
    and "length (ctx_segs s c f) = Suc m" "seg_result s r f m v"
  shows "wpU (umfile_getseg_dense n c r f skipFsync beh (Suc m) v)
     (getseg_post s c f skipFsync beh (m + n)) s"
  using assms(1-3,5,6)
proof (induction n arbitrary: s m v)
  case 0
  then show ?case
    by (auto simp: wp getseg_post_def)
next
  case (Suc n)
  note ok = Suc.prems(1,2) and r = Suc.prems(3) and len = Suc.prems(4) and v = Suc.prems(5)
  obtain ino where ino: "umfd_vfd v = Some ino" "path_inode s (r, f, m) = Some ino"
    using v by (auto simp: seg_result_def)
  have le: "length (um_inode s ino) \<le> RELSEG_SIZE"
    using fs_ok_bounds(2) [OF ok(1) ino(2)] .
  have full_iff: "seg_full s r f m \<longleftrightarrow> \<not> length (um_inode s ino) < RELSEG_SIZE"
    using le ino(2) by (auto simp: seg_full_def)
  have fail: "path_inode s (r, f, m + Suc n) = None" if "\<not> seg_full s r f m"
    using that dense_prefix_full [OF ok(1) d, of r "m + Suc n" m] by (cases "path_inode s (r, f, m + Suc n)") auto
  have fail2: "path_inode s (r, f, m + Suc n) = None" if "path_inode s (r, f, Suc m) = None"
  proof (rule ccontr)
    assume a: "path_inode s (r, f, m + Suc n) \<noteq> None"
    then have "n \<noteq> 0" using that by (cases n) auto
    then have "seg_full s r f (Suc m)"
      using dense_prefix_full [OF ok(1) d a, of "Suc m"] by simp
    with that show False by (simp add: seg_full_def)
  qed
  let ?create = "create_flag s beh"
  let ?open = "bindU (umfile_openseg c r f (Suc m) ?create) (\<lambda>v'. case v' of
         None \<Rightarrow> if UM_EXTENSION_RETURN_NULL \<in> beh then returnU None
                 else throwU (ERROR, E_FILE_ACCESS)
       | Some w \<Rightarrow> umfile_getseg_dense n c r f skipFsync beh (Suc m + 1) w)"
  note run = umfile_nblocks_in_seg_def with_vfd_def ino(1) Let_def create_flag_def runU
  have cont: "wpU ?open
       (getseg_post s c f skipFsync beh (m + Suc n)) t"
    if t: "fs_ext s t" "?create \<or> t = s" "seg_full t r f m" "ctx_segs t = ctx_segs s" for t
  proof -
    have fb: "?create \<or> fork_block t = fork_block s" using t(2) by auto
    have "wpU (umfile_openseg c r f (Suc m) ?create) (\<lambda>res u. fs_ext t u \<and>
       fork_block u = fork_block t \<and> (\<not> ?create \<longrightarrow> path_inode u = path_inode t) \<and>
       (case res of
          Inl e \<Rightarrow> False
        | Inr None \<Rightarrow> u = t \<and> \<not> ?create \<and> path_inode t (r, f, Suc m) = None
        | Inr (Some v) \<Rightarrow> seg_result u r f (Suc m) v \<and>
            length (ctx_segs u c f) = max (length (ctx_segs t c f)) (Suc m + 1) \<and>
            ctx_segs u c f ! Suc m = v)) t"
      using t len r d fs_extD(1,2,3) [OF t(1)] ok
      by (intro openseg_spec) (auto simp: may_create_def)
    then show ?thesis
    proof (rule wpU_bindI, goal_cases)
      case (2 x u)
      show ?case
      proof (cases x)
        case None
        with 2 t(2) have "u = s" "path_inode s (r, f, Suc m) = None" "\<not> ?create" by auto
        with fail2 show ?thesis
          using None ok(1) r by (auto simp: wp getseg_post_def)
      next
        case (Some w)
        have tu: "fs_ext t u" and w: "seg_result u r f (Suc m) w"
          and lu: "length (ctx_segs u c f) = Suc (Suc m)"
          using 2 Some t(4) len by auto
        note su = fs_ext_trans [OF t(1) tu]
        have fbu: "?create \<or> fork_block u = fork_block s"
          using 2 fb by auto
        have "wpU (umfile_getseg_dense n c r f skipFsync beh (Suc (Suc m)) w)
            (getseg_post u c f skipFsync beh (Suc m + n)) u"
          using Suc.IH [of u "Suc m" w] fs_extD(1,2,3) [OF su] ok r lu w by simp
        from wpU_mono [OF this getseg_post_trans [OF su fbu]] show ?thesis
          using Some by simp
      qed
    qed simp
  qed
  show ?case
  proof (cases "seg_full s r f m")
    case True
    have "umfile_getseg_dense (Suc n) c r f skipFsync beh (Suc m) v s = ?open s"
      using True le full_iff by (simp add: run)
    then show ?thesis
      using cont [of s] True ok(1) by (blast intro: wpU_eqI)
  next
    case False
    show ?thesis
    proof (cases ?create)
      case True
      have "umfile_getseg_dense (Suc n) c r f skipFsync beh (Suc m) v s =
          bindU (umfile_pad_segment r f v skipFsync) (\<lambda>_. ?open) s"
        using True False le full_iff by (auto simp: run)
      moreover have "wpU (bindU (umfile_pad_segment r f v skipFsync) (\<lambda>_. ?open))
          (getseg_post s c f skipFsync beh (m + Suc n)) s"
      proof (rule wpU_bindI [OF pad_segment_spec [OF ok(1) v False]], goal_cases)
        case (1 e t)
        then show ?case
          using True fail [OF False] r d by (auto simp: getseg_post_def)
      next
        case (2 x t)
        then show ?case
          using True by (intro cont) auto
      qed
      ultimately show ?thesis by (rule wpU_eqI)
    next
      case create: False
      have "umfile_getseg_dense (Suc n) c r f skipFsync beh (Suc m) v s =
          (if UM_EXTENSION_RETURN_NULL \<in> beh then returnU None
           else throwU (ERROR, E_FILE_ACCESS)) s"
        using create False le full_iff by (simp add: run)
      then show ?thesis
      proof (rule wpU_eqI)
        show "wpU (if UM_EXTENSION_RETURN_NULL \<in> beh then returnU None
            else throwU (ERROR, E_FILE_ACCESS)) (getseg_post s c f skipFsync beh (m + Suc n)) s"
          using create fail [OF False] r fs_ext_refl [OF ok(1)] by (simp add: wp getseg_post_def)
      qed
    qed
  qed
qed

lemma getseg_spec:
  assumes ok: "fs_ok s" "ctx_ok s c"
    and d: "umfile_fork_allows_sparse_segments f \<or> path_inode s (ctx_rloc s c, f, 0) \<noteq> None"
    and beh: "UM_EXTENSION_DONT_OPEN \<notin> beh"
  shows "wpU (umfile_getseg c f b skipFsync beh) (getseg_post s c f skipFsync beh (seg_of b)) s"
proof -
  let ?r = "ctx_rloc s c" and ?vs = "ctx_segs s c f"
  have hit: "getseg_post s c f skipFsync beh (seg_of b) (Inr (Some (?vs ! seg_of b))) s"
    if "seg_of b < length ?vs"
      "\<not> umfile_fork_allows_sparse_segments f \<or> umfile_seg_entry_is_open (?vs ! seg_of b)"
    using that ctx_okD [OF ok(2) that(1)] seg_entry_open_result ok(1)
    by (auto simp: getseg_post_def)
  show ?thesis
  proof (cases "umfile_fork_allows_sparse_segments f")
    case True
    have "wpU (umfile_openseg c ?r f (seg_of b) (create_flag s beh)) (\<lambda>res t.
        (case res of Inl e \<Rightarrow> False
         | Inr x \<Rightarrow> getseg_post s c f skipFsync beh (seg_of b) (Inr x) t \<and>
             (x = None \<longrightarrow> getseg_post s c f skipFsync beh (seg_of b) (Inl (ERROR, E_FILE_ACCESS)) t))) s"
      by (rule wpU_mono [OF openseg_spec [OF ok refl]])
        (use True in \<open>auto simp: may_create_def getseg_post_def split: sum.splits option.splits\<close>)
    then show ?thesis
      using True hit beh
      by (auto simp: umfile_getseg_def wp Let_def create_flag_def [symmetric]
          elim!: wpU_mono split: sum.splits)
  next
    case False
    show ?thesis
    proof (cases "?vs")
      case Nil
      have "wpU (bindU (umfile_openfork c ?r f beh) (\<lambda>v0. case v0 of
             None \<Rightarrow> returnU None
           | Some v \<Rightarrow> bindU (getU (\<lambda>s. length (ctx_segs s c f))) (\<lambda>n.
               umfile_getseg_dense (Suc (seg_of b) - n) c ?r f skipFsync beh n v)))
          (getseg_post s c f skipFsync beh (seg_of b)) s"
      proof (rule wpU_bindI [OF openfork_spec [OF ok refl False]], goal_cases)
        case (2 x t)
        then obtain v where x: "x = Some v" "fs_ext s t" "seg_result t ?r f 0 v"
          "length (ctx_segs t c f) = Suc 0" "fork_block t = fork_block s"
          using d False Nil by (cases x) auto
        have "wpU (umfile_getseg_dense (seg_of b) c ?r f skipFsync beh (Suc 0) v)
            (getseg_post t c f skipFsync beh (0 + seg_of b)) t"
          using x fs_extD(1,2,3) [OF x(2)] ok False by (intro getseg_dense_spec) auto
        from wpU_mono [OF this getseg_post_trans [OF x(2) disjI2 [OF x(5)]]]
        show ?case
          using x by (simp add: wp)
      qed (use d False in auto)
      moreover have "umfile_getseg c f b skipFsync beh s =
          bindU (umfile_openfork c ?r f beh) (\<lambda>v0. case v0 of
             None \<Rightarrow> returnU None
           | Some v \<Rightarrow> bindU (getU (\<lambda>s. length (ctx_segs s c f))) (\<lambda>n.
               umfile_getseg_dense (Suc (seg_of b) - n) c ?r f skipFsync beh n v)) s"
        using False Nil beh by (simp add: umfile_getseg_def Let_def runU)
      ultimately show ?thesis by (blast intro: wpU_eqI)
    next
      case (Cons v vs)
      define n where "n = length vs"
      have last: "?vs ! n = last ?vs" "length ?vs = Suc n"
        using Cons by (auto simp: n_def last_conv_nth)
      have "seg_result s ?r f n (?vs ! n)"
        using ctx_okD [OF ok(2), of n f] last False by (auto intro: seg_entry_open_result(2))
      then have "wpU (umfile_getseg_dense (seg_of b - n) c ?r f skipFsync beh (Suc n) (?vs ! n))
          (getseg_post s c f skipFsync beh (n + (seg_of b - n))) s"
        using last ok False by (intro getseg_dense_spec) auto
      then show ?thesis
        using False beh hit last
        by (auto simp: umfile_getseg_def wp Let_def)
    qed
  qed
qed

lemma getseg_some_spec:
  assumes "fs_ok s" "ctx_ok s c"
    and "umfile_fork_allows_sparse_segments f \<or> path_inode s (ctx_rloc s c, f, 0) \<noteq> None"
    and "UM_EXTENSION_DONT_OPEN \<notin> beh"
  shows "wpU (umfile_getseg_some c f b skipFsync beh) (\<lambda>res t.
     fs_ext s t \<and> (create_flag s beh \<or> fork_block t = fork_block s) \<and>
     (case res of
        Inr w \<Rightarrow> seg_result t (ctx_rloc s c) f (seg_of b) w
      | Inl e \<Rightarrow> \<not> (create_flag s beh \<and> (skipFsync \<or> umfile_fork_allows_sparse_segments f)) \<and>
                path_inode s (ctx_rloc s c, f, seg_of b) = None)) s"
  unfolding umfile_getseg_some_def
  by (rule wpU_bindI [OF getseg_spec [OF assms]])
    (auto simp: getseg_post_def wp split: option.splits)

lemma ctx_read_spec:
  assumes ok: "fs_ok s" "ctx_ok s c"
    and d: "umfile_fork_allows_sparse_segments f \<or> path_inode s (ctx_rloc s c, f, 0) \<noteq> None"
  shows "wpU (umfile_ctx_read c f b nbytes) (\<lambda>res t.
     fs_ext s t \<and> fork_block t = fork_block s \<and>
     (case fork_block s (ctx_rloc s c) f b of
        Some x \<Rightarrow> res = Inr (take (nbytes div 4) x)
      | None \<Rightarrow> \<exists>e. res = Inl e)) s"
  unfolding umfile_ctx_read_def
proof (rule wpU_bindI [OF getseg_some_spec [OF ok d]], goal_cases)
  case (2 e t)
  then have "fork_block s (ctx_rloc s c) f b = None"
    by (simp add: fork_block_def)
  with 2 show ?case by (auto simp: create_flag_def)
next
  case (3 w t)
  then obtain ino where w: "umfd_vfd w = Some ino"
    "path_inode t (ctx_rloc s c, f, seg_of b) = Some ino" "fs_ext s t"
    "fork_block t = fork_block s"
    by (auto simp: seg_result_def create_flag_def)
  have "fork_block s (ctx_rloc s c) f b =
      (if seg_off b < length (um_inode t ino) then Some (um_inode t ino ! seg_off b) else None)"
    unfolding w(4) [symmetric] using w(2) by (simp add: fork_block_def)
  with w show ?case
    by (simp add: wp)
qed simp

text \<open>Steps that may in addition change the blocks selected by \<open>P\<close>.\<close>

definition fs_mod ::
  "(RelFileLocatorBackend \<Rightarrow> ForkNumber \<Rightarrow> BlockNumber \<Rightarrow> bool) \<Rightarrow>
   'x um_fs_scheme \<Rightarrow> 'x um_fs_scheme \<Rightarrow> bool" where
  "fs_mod P s t \<longleftrightarrow>
     fs_ok t \<and>
     (\<forall>p i. path_inode s p = Some i \<longrightarrow>
        path_inode t p = Some i \<and> length (um_inode s i) \<le> length (um_inode t i)) \<and>
     (\<forall>r f b x. \<not> P r f b \<longrightarrow> fork_block s r f b = Some x \<longrightarrow> fork_block t r f b = Some x) \<and>
     (\<forall>r f b x. \<not> P r f b \<longrightarrow> fork_block t r f b = Some x \<longrightarrow>
        fork_block s r f b = Some x \<or> x = zero_block) \<and>
     (\<forall>c. ctx_rloc t c = ctx_rloc s c) \<and> (\<forall>c. ctx_ok s c \<longrightarrow> ctx_ok t c) \<and>
     InRecovery t = InRecovery s \<and> um_fs.more t = um_fs.more s"

lemma fs_mod_ext: "fs_ext s t \<Longrightarrow> fs_mod P s t"
  unfolding fs_ext_def fs_mod_def by blast

lemma fs_modD:
  assumes "fs_mod P s t"
  shows "fs_ok t" and "ctx_ok s c \<Longrightarrow> ctx_ok t c" and "ctx_rloc t c = ctx_rloc s c"
    and "path_inode s p = Some i \<Longrightarrow> path_inode t p = Some i"
    and "\<not> P r f b \<Longrightarrow> fork_block s r f b = Some x \<Longrightarrow> fork_block t r f b = Some x"
    and "\<not> P r f b \<Longrightarrow> fork_block t r f b = Some x \<Longrightarrow> fork_block s r f b = Some x \<or> x = zero_block"
    and "InRecovery t = InRecovery s" and "um_fs.more t = um_fs.more s"
    and "path_inode s p = Some i \<Longrightarrow> length (um_inode s i) \<le> length (um_inode t i)"
  using assms unfolding fs_mod_def by blast+

lemma fs_mod_trans [trans]:
  assumes st: "fs_mod P s t" and tu: "fs_mod P t u"
  shows "fs_mod P s u"
proof -
  have "\<not> P r f b \<Longrightarrow> fork_block u r f b = Some x \<Longrightarrow> fork_block s r f b = Some x \<or> x = zero_block"
    for r f b x
    using fs_modD(6) [OF tu] fs_modD(6) [OF st] by blast
  moreover have "path_inode s p = Some i \<Longrightarrow>
      path_inode u p = Some i \<and> length (um_inode s i) \<le> length (um_inode u i)" for p i
    using fs_modD(4,9) [OF st] fs_modD(4,9) [OF tu] order_trans by blast
  ultimately show ?thesis
    unfolding fs_mod_def [of P s u]
    using fs_modD(1,2,3,5,7,8) [OF st] fs_modD(1,2,3,5,7,8) [OF tu] by simp
qed

lemma fs_mod_sync [simp]: "fs_mod P s (t\<lparr>um_sync := x\<rparr>) = fs_mod P s t"
  by (simp add: fs_mod_def)

lemma fs_mod_upd_inode:
  assumes "fs_ok s" and p: "path_inode s (r, f, seg) = Some ino"
    and "off + length ws \<le> RELSEG_SIZE"
    and P: "\<And>b. seg_of b = seg \<Longrightarrow> off \<le> seg_off b \<Longrightarrow> seg_off b < off + length ws \<Longrightarrow> P r f b"
  shows "fs_mod P s (upd_inode ino (file_writev off ws) s)"
proof -
  have "fs_ok (upd_inode ino (file_writev off ws) s)"
    using assms fs_ok_bounds(2) [OF assms(1) p] by (intro fs_ok_upd_inode) auto
  then show ?thesis
    using P unfolding fs_mod_def
    by (auto simp: fork_block_upd_inode [OF assms(1) p] split: if_splits)
qed

subsection \<open>Reading and writing blocks\<close>

text \<open>The existence probe answers from the segment vector: it overlooks an existing segment of a
  sparse fork whose entry is closed, and one of a dense fork that lies more than one segment
  behind the vector. Elsewhere the block is \<open>visible\<close> and the answer is exact.\<close>

definition seg_visible :: "'x um_fs_scheme \<Rightarrow> nat \<Rightarrow> ForkNumber \<Rightarrow> BlockNumber \<Rightarrow> bool" where
  "seg_visible s c f b \<longleftrightarrow>
     (if seg_of b < length (ctx_segs s c f)
      then umfile_seg_entry_is_open (ctx_segs s c f ! seg_of b)
      else umfile_fork_allows_sparse_segments f \<or> seg_of b = length (ctx_segs s c f))"

lemma block_exists_spec:
  assumes ok: "fs_ok s" "ctx_ok s c"
  shows "wpU (umfile_ctx_block_exists c f b) (\<lambda>res t.
     fs_ext s t \<and> fork_block t = fork_block s \<and>
     res = Inr (seg_visible s c f b \<and> fork_block s (ctx_rloc s c) f b \<noteq> None)) s"
proof -
  let ?r = "ctx_rloc s c" and ?vs = "ctx_segs s c f"
  have size: "wpU (bindU (umfile_nblocks_in_seg w) (\<lambda>n. returnU (seg_off b < n))) (\<lambda>res u.
      fs_ext s u \<and> fork_block u = fork_block s \<and>
      res = Inr (fork_block s ?r f b \<noteq> None)) t"
    if w: "seg_result t ?r f (seg_of b) w" "fs_ext s t" "fork_block t = fork_block s" for t w
  proof -
    obtain ino where "umfd_vfd w = Some ino" "path_inode t (?r, f, seg_of b) = Some ino"
      using w(1) by (auto simp: seg_result_def)
    then show ?thesis
      using w(2,3) unfolding w(3) [symmetric] by (simp add: wp fork_block_def)
  qed
  consider (opened) "seg_of b < length ?vs" "umfile_seg_entry_is_open (?vs ! seg_of b)"
    | (closed) "seg_of b < length ?vs" "\<not> umfile_seg_entry_is_open (?vs ! seg_of b)"
    | (gap) "\<not> seg_of b < length ?vs" "\<not> umfile_fork_allows_sparse_segments f"
        "length ?vs < seg_of b"
    | (beyond) "\<not> seg_of b < length ?vs"
        "umfile_fork_allows_sparse_segments f \<or> seg_of b = length ?vs"
    by linarith
  then show ?thesis
  proof cases
    case opened
    then have "seg_result s ?r f (seg_of b) (?vs ! seg_of b)"
      using ctx_okD [OF ok(2)] seg_entry_open_result(1) by blast
    from size [OF this fs_ext_refl [OF ok(1)] refl] opened show ?thesis
      by (simp add: umfile_ctx_block_exists_def wp Let_def seg_visible_def)
  next
    case beyond
    have "wpU (bindU (umfile_openseg c ?r f (seg_of b) False) (\<lambda>v. case v of
         None \<Rightarrow> returnU False
       | Some w \<Rightarrow> bindU (umfile_nblocks_in_seg w) (\<lambda>n. returnU (seg_off b < n)))) (\<lambda>res u.
      fs_ext s u \<and> fork_block u = fork_block s \<and> res = Inr (fork_block s ?r f b \<noteq> None)) s"
    proof (rule wpU_bindI [OF openseg_spec [OF ok refl beyond(2)]], goal_cases)
      case (3 x t)
      then show ?case
        using size [of t] ok(1) by (cases x) (auto simp: wp fork_block_def [of s])
    qed auto
    moreover have "umfile_ctx_block_exists c f b s =
        bindU (umfile_openseg c ?r f (seg_of b) False) (\<lambda>v. case v of
         None \<Rightarrow> returnU False
       | Some w \<Rightarrow> bindU (umfile_nblocks_in_seg w) (\<lambda>n. returnU (seg_off b < n))) s"
      using beyond by (auto simp: umfile_ctx_block_exists_def Let_def runU)
    moreover have "seg_visible s c f b"
      using beyond by (simp add: seg_visible_def)
    ultimately show ?thesis
      by (simp add: wpU_def)
  qed (use ok in \<open>auto simp: umfile_ctx_block_exists_def wp Let_def seg_visible_def\<close>)
qed

lemma put_blocks_spec:
  assumes ok: "fs_ok s" and w: "seg_result s r f (seg_of b) w"
    and len: "seg_off b + length ws \<le> RELSEG_SIZE" and "ws \<noteq> []"
    and P: "\<And>b'. seg_of b' = seg_of b \<Longrightarrow> seg_off b \<le> seg_off b' \<Longrightarrow>
      seg_off b' < seg_off b + length ws \<Longrightarrow> P r f b'"
  shows "wpU (with_vfd w (\<lambda>ino. modifyU (upd_inode ino (file_writev (seg_off b) ws)))) (\<lambda>res t.
     res = Inr () \<and> fs_mod P s t \<and> fork_block t r f b = Some (ws ! 0) \<and>
     seg_result t r f (seg_of b) w \<and> ctx_segs t = ctx_segs s) s"
proof -
  obtain ino where ino: "umfd_vfd w = Some ino" "path_inode s (r, f, seg_of b) = Some ino"
    using w by (auto simp: seg_result_def)
  show ?thesis
    using fs_mod_upd_inode [OF ok ino(2) len, of P] P ino w assms(4)
    by (simp add: wp fork_block_upd_inode [OF ok ino(2)] seg_result_def)
qed

lemma register_dirty_seg_spec:
  assumes "relNumber (locator r) \<noteq> 0" "spcOid (locator r) \<noteq> 0"
  shows "wpU (umfile_register_dirty_seg r f v) (\<lambda>res t. res = Inr () \<and> (\<exists>q. t = s\<lparr>um_sync := q\<rparr>)) s"
  using assms by (auto simp: umfile_register_dirty_seg_def wp)

text \<open>An fsync request can be registered for the relation.\<close>

definition fsync_ok :: "RelFileLocatorBackend \<Rightarrow> ForkNumber \<Rightarrow> bool \<Rightarrow> bool" where
  "fsync_ok r f skipFsync \<longleftrightarrow> skipFsync \<or> umfile_fork_allows_sparse_segments f \<and>
     relNumber (locator r) \<noteq> 0 \<and> spcOid (locator r) \<noteq> 0"

lemma zeroextend_spec:
  assumes ok: "fs_ok s" "ctx_ok s c"
    and d: "umfile_fork_allows_sparse_segments f \<or> path_inode s (ctx_rloc s c, f, 0) \<noteq> None"
    and fsync: "fsync_ok (ctx_rloc s c) f skip"
  shows "wpU (umfile_zeroextend c f b 1 skip) (\<lambda>res t.
     res = Inr () \<and> fs_mod (\<lambda>r g b'. r = ctx_rloc s c \<and> g = f \<and> b' = b) s t \<and>
     fork_block t (ctx_rloc s c) f b = Some zero_block) s"
proof -
  let ?P = "\<lambda>r g b'. r = ctx_rloc s c \<and> g = f \<and> b' = b" and ?r = "ctx_rloc s c"
  let ?put = "\<lambda>v. bindU (with_vfd v (\<lambda>ino. modifyU (upd_inode ino (file_writev (seg_off b) [zero_block]))))
     (\<lambda>_. whenU (\<not> skip \<and> \<not> RelFileLocatorBackendIsTemp ?r) (umfile_register_dirty_seg ?r f v))"
  have one: "min (min (Suc 0) (RELSEG_SIZE - seg_off b)) PG_IOV_MAX = Suc 0"
  proof -
    have "0 < RELSEG_SIZE - seg_off b"
      using seg_off_less [of b] by (simp only: zero_less_diff)
    then show ?thesis by (simp add: PG_IOV_MAX_def min_def Suc_le_eq)
  qed
  have "wpU (bindU (umfile_getseg_some c f b skip {UM_EXTENSION_FAIL, UM_EXTENSION_CREATE}) ?put)
     (\<lambda>res t. res = Inr () \<and> fs_mod ?P s t \<and> fork_block t ?r f b = Some zero_block) s"
  proof (rule wpU_bindI [OF getseg_some_spec [OF ok d]], goal_cases)
    case (3 w t)
    then have t: "fs_ext s t" "seg_result t ?r f (seg_of b) w" by auto
    have put: "wpU (with_vfd w (\<lambda>ino. modifyU (upd_inode ino (file_writev (seg_off b) [zero_block]))))
        (\<lambda>res u. res = Inr () \<and> fs_mod ?P t u \<and> fork_block u ?r f b = Some ([zero_block] ! 0) \<and>
           seg_result u ?r f (seg_of b) w \<and> ctx_segs u = ctx_segs t) t"
      using seg_eq [of _ b] seg_off_less [of b]
      by (intro put_blocks_spec [OF fs_extD(1) [OF t(1)] t(2)]) (auto simp: Suc_le_eq)
    show ?case
    proof (rule wpU_bindI [OF put], goal_cases)
      case (2 x u)
      then have u: "fs_mod ?P s u" "fork_block u ?r f b = Some zero_block"
        using fs_mod_trans [OF fs_mod_ext [OF t(1)]] by auto
      then show ?case
        using fsync register_dirty_seg_spec [of ?r f w u] u
        by (auto simp: wpU_whenU fsync_ok_def elim!: wpU_mono)
    qed simp
  qed (use fsync in \<open>auto simp: create_flag_def fsync_ok_def\<close>)
  moreover have "umfile_zeroextend c f b 1 skip s =
      bindU (umfile_getseg_some c f b skip {UM_EXTENSION_FAIL, UM_EXTENSION_CREATE}) ?put s"
    by (simp add: umfile_zeroextend_def one file_zero_writev [abs_def] Let_def runU)
  ultimately show ?thesis
    by (blast intro: wpU_eqI)
qed

lemmas zeroextend_one_spec = zeroextend_spec [where skip = True, simplified fsync_ok_def simp_thms]

text \<open>What a write leaves of the old block: the part behind the written words, if the existence probe
  saw the block.\<close>

definition old_block :: "'x um_fs_scheme \<Rightarrow> nat \<Rightarrow> ForkNumber \<Rightarrow> BlockNumber \<Rightarrow> block" where
  "old_block s c f b =
     (if seg_visible s c f b
      then (case fork_block s (ctx_rloc s c) f b of Some x \<Rightarrow> x | None \<Rightarrow> zero_block)
      else zero_block)"

lemma ensure_block_exists_spec:
  assumes ok: "fs_ok s" "ctx_ok s c"
    and d: "umfile_fork_allows_sparse_segments f \<or> path_inode s (ctx_rloc s c, f, 0) \<noteq> None"
  shows "wpU (umfile_ctx_ensure_block_exists c f b) (\<lambda>res t.
     res = Inr () \<and> fs_mod (\<lambda>r g b'. r = ctx_rloc s c \<and> g = f \<and> b' = b) s t \<and>
     fork_block t (ctx_rloc s c) f b = Some (old_block s c f b)) s"
  unfolding umfile_ctx_ensure_block_exists_def
proof (rule wpU_bindI [OF block_exists_spec [OF ok]], goal_cases)
  case (2 x t)
  let ?P = "\<lambda>r g b'. r = ctx_rloc s c \<and> g = f \<and> b' = b"
  note t = 2 [THEN conjunct1]
  show ?case
  proof (cases x)
    case True
    with 2 show ?thesis
      by (auto simp: wp old_block_def intro: fs_mod_ext)
  next
    case False
    have old: "old_block s c f b = zero_block"
      using 2 False by (auto simp: old_block_def split: option.splits)
    have d': "umfile_fork_allows_sparse_segments f \<or> path_inode t (ctx_rloc t c, f, 0) \<noteq> None"
      using d fs_extD(3,4) [OF t] by fastforce
    have "wpU (umfile_zeroextend c f b 1 True) (\<lambda>res u.
        res = Inr () \<and> fs_mod (\<lambda>r g b'. r = ctx_rloc t c \<and> g = f \<and> b' = b) t u \<and>
        fork_block u (ctx_rloc t c) f b = Some zero_block) t"
      using fs_extD(1,2) [OF t] ok by (intro zeroextend_one_spec [OF _ _ d']) auto
    then show ?thesis
      using False unfolding fs_extD(3) [OF t] old
      by (auto simp: wp elim!: wpU_mono intro: fs_mod_trans [OF fs_mod_ext [OF t]])
  qed
qed simp

lemma ctx_write_spec:
  assumes ok: "fs_ok s" "ctx_ok s c"
    and d: "umfile_fork_allows_sparse_segments f \<or> path_inode s (ctx_rloc s c, f, 0) \<noteq> None"
  shows "wpU (umfile_ctx_write c f b ws) (\<lambda>res t.
     res = Inr () \<and> fs_mod (\<lambda>r g b'. r = ctx_rloc s c \<and> g = f \<and> b' = b) s t \<and>
     fork_block t (ctx_rloc s c) f b = Some (ws @ drop (length ws) (old_block s c f b))) s"
  unfolding umfile_ctx_write_def
proof (rule wpU_bindI [OF ensure_block_exists_spec [OF ok d]], goal_cases)
  case (2 x t)
  let ?P = "\<lambda>r g b'. r = ctx_rloc s c \<and> g = f \<and> b' = b"
  have t: "fs_mod ?P s t" and old: "fork_block t (ctx_rloc s c) f b = Some (old_block s c f b)"
    using 2 by auto
  have r: "ctx_rloc t c = ctx_rloc s c" using fs_modD(3) [OF t] .
  have d': "umfile_fork_allows_sparse_segments f \<or> path_inode t (ctx_rloc t c, f, 0) \<noteq> None"
    using d fs_modD(4) [OF t] r by fastforce
  show ?case
  proof (rule wpU_bindI [OF getseg_some_spec [OF fs_modD(1) [OF t] fs_modD(2) [OF t ok(2)] d']],
      goal_cases)
    case (3 w u)
    then have u: "fs_ext t u" and w: "seg_result u (ctx_rloc s c) f (seg_of b) w"
      using r by auto
    obtain ino where ino: "umfd_vfd w = Some ino" "path_inode u (ctx_rloc s c, f, seg_of b) = Some ino"
      using w by (auto simp: seg_result_def)
    have "fork_block u (ctx_rloc s c) f b = Some (old_block s c f b)"
      using fs_extD(5) [OF u old] .
    then have blk: "seg_off b < length (um_inode u ino)"
      "um_inode u ino ! seg_off b = old_block s c f b"
      using ino by (auto simp: fork_block_def split: if_splits)
    let ?new = "ws @ drop (length ws) (old_block s c f b)"
    have eq: "with_vfd w (\<lambda>ino. modifyU (upd_inode ino (file_write (seg_off b) ws))) u =
        with_vfd w (\<lambda>ino. modifyU (upd_inode ino (file_writev (seg_off b) [?new]))) u"
      using ino blk by (simp add: with_vfd_def runU upd_inode_def file_write_writev)
    have "wpU (with_vfd w (\<lambda>ino. modifyU (upd_inode ino (file_writev (seg_off b) [?new]))))
        (\<lambda>res v. res = Inr () \<and> fs_mod ?P u v \<and>
           fork_block v (ctx_rloc s c) f b = Some ([?new] ! 0) \<and>
           seg_result v (ctx_rloc s c) f (seg_of b) w \<and> ctx_segs v = ctx_segs u) u"
      using seg_eq [of _ b] seg_off_less [of b]
      by (intro put_blocks_spec [OF fs_extD(1) [OF u] w]) (auto simp: Suc_le_eq)
    then show ?case
      unfolding wpU_def eq
      by (auto intro: fs_mod_trans [OF fs_mod_trans [OF t fs_mod_ext [OF u]]])
  qed (auto simp: create_flag_def)
qed simp

lemma map_live_id:
  assumes "\<And>v. v \<in> set vs \<Longrightarrow> umfile_seg_entry_is_open v \<Longrightarrow> live v"
  shows "map (\<lambda>v. if umfile_seg_entry_is_open v \<and> \<not> live v then umfile_seg_entry_reset else v) vs = vs"
  using assms by (intro map_idI) auto

lemma fork_exists_dense_spec:
  assumes ok: "fs_ok s" "ctx_ok s c" and d: "\<not> umfile_fork_allows_sparse_segments f"
  shows "wpU (umfile_ctx_fork_exists c f UMFILE_EXISTS_DENSE) (\<lambda>res t.
     fs_ext s t \<and> fork_block t = fork_block s \<and>
     res = Inr (path_inode s (ctx_rloc s c, f, 0) \<noteq> None)) s"
proof -
  let ?r = "ctx_rloc s c" and ?vs = "ctx_segs s c f"
  have res: "\<exists>i. seg_result s ?r f i v" if v: "v \<in> set ?vs" for v
  proof -
    obtain i where "i < length ?vs" "v = ?vs ! i"
      using v by (auto simp: in_set_conv_nth)
    then show ?thesis
      using ctx_okD [OF ok(2)] seg_entry_open_result(2) [OF _ d] by blast
  qed
  have live: "path_exists s (?r, f, umfd_segno v)" and opened: "umfile_seg_entry_is_open v"
    if "v \<in> set ?vs" for v
    using res [OF that] by (auto simp: seg_result_def path_exists_def umfile_seg_entry_is_open_def)
  have first: "path_inode s (?r, f, 0) \<noteq> None" if "?vs \<noteq> []"
    using that ctx_okD [OF ok(2), of 0 f] d
    by (auto simp: seg_entry_ok_def split: option.splits)
  have same: "set_ctx_segs c f ?vs s = s"
    by (simp add: set_ctx_segs_def ctx_segs_def)
  have openfork: "wpU (umfile_openfork c ?r f {UM_EXTENSION_RETURN_NULL}) (\<lambda>res t.
      fs_ext s t \<and> fork_block t = fork_block s \<and>
      (\<exists>x. res = Inr x \<and> (x \<noteq> None) = (path_inode s (?r, f, 0) \<noteq> None))) s"
    by (rule wpU_mono [OF openfork_spec [OF ok refl d]])
      (auto split: sum.splits option.splits)
  show ?thesis
  proof (cases "\<not> InRecovery s \<and> ?vs \<noteq> []")
    case True
    then obtain v vs where vs: "?vs = v # vs" by (cases ?vs) auto
    have "list_ex (\<lambda>v. umfile_seg_entry_is_open v \<and> path_exists s (?r, f, umfd_segno v)) ?vs"
      using live opened vs by simp
    moreover have "map (\<lambda>v. if umfile_seg_entry_is_open v \<and> \<not> path_exists s (?r, f, umfd_segno v)
        then umfile_seg_entry_reset else v) ?vs = ?vs"
      using live by (intro map_live_id) auto
    ultimately show ?thesis
      using True first ok(1) same
      by (simp add: umfile_ctx_fork_exists_def umfile_exists_def wp
          umfile_fork_has_open_segment_on_disk_def umfile_fork_has_open_segment_def list_ex_iff
          fs_ext_refl) (use opened in blast)
  next
    case False
    then have "\<not> (\<not> InRecovery s \<and> umfile_fork_has_open_segment s c f)"
      by (auto simp: umfile_fork_has_open_segment_def)
    then show ?thesis
      using openfork
      by (auto simp: umfile_ctx_fork_exists_def umfile_exists_def wp elim!: wpU_mono)
  qed
qed

subsection \<open>The size of a dense fork\<close>

lemma dense_eof:
  assumes ok: "fs_ok s" and d: "\<not> umfile_fork_allows_sparse_segments f"
    and m: "path_inode s (r, f, m) = Some ino" "path_inode s (r, f, Suc m) = None"
  shows "fork_block s r f b \<noteq> None \<longleftrightarrow> unat b < m * RELSEG_SIZE + length (um_inode s ino)"
proof -
  have split: "unat b = seg_of b * RELSEG_SIZE + seg_off b"
    by (simp add: seg_of_def seg_off_def)
  have le: "length (um_inode s ino) \<le> RELSEG_SIZE"
    using fs_ok_bounds(2) [OF ok m(1)] .
  consider "seg_of b < m" | "seg_of b = m" | "Suc m \<le> seg_of b" by linarith
  then show ?thesis
  proof cases
    case 1
    have "seg_full s r f (seg_of b)"
      using dense_prefix_full [OF ok d, of r m "seg_of b"] m(1) 1 by simp
    then have "fork_block s r f b \<noteq> None"
      by (auto simp: seg_full_def fork_block_def)
    moreover have "seg_of b * RELSEG_SIZE + RELSEG_SIZE \<le> m * RELSEG_SIZE"
      using 1 mult_le_mono1 [of "Suc (seg_of b)" m RELSEG_SIZE] by simp
    ultimately show ?thesis
      using split seg_off_less [of b] by linarith
  next
    case 2
    then show ?thesis
      using split m(1) by (simp add: fork_block_def)
  next
    case 3
    have "path_inode s (r, f, seg_of b) = None"
    proof (rule ccontr)
      assume a: "path_inode s (r, f, seg_of b) \<noteq> None"
      then have "seg_of b \<noteq> Suc m" using m(2) by auto
      then have "seg_full s r f (Suc m)"
        using dense_prefix_full [OF ok d a, of "Suc m"] 3 by simp
      with m(2) show False by (simp add: seg_full_def)
    qed
    then have "fork_block s r f b = None" by (simp add: fork_block_def)
    moreover have "m * RELSEG_SIZE + RELSEG_SIZE \<le> seg_of b * RELSEG_SIZE"
      using 3 mult_le_mono1 [of "Suc m" "seg_of b" RELSEG_SIZE] by simp
    ultimately show ?thesis
      using split le by simp
  qed
qed

definition later_segs ::
  "'x um_fs_scheme \<Rightarrow> RelFileLocatorBackend \<Rightarrow> ForkNumber \<Rightarrow> nat \<Rightarrow> nat set" where
  "later_segs s r f m = {i. m < i \<and> path_inode s (r, f, i) \<noteq> None}"

lemma later_segs_bound: "finite (later_segs s r f m) \<and> card (later_segs s r f m) \<le> length (um_dir s)"
proof -
  have sub: "later_segs s r f m \<subseteq> (\<lambda>((r, f, i), ino). i) ` set (um_dir s)"
  proof
    fix i assume "i \<in> later_segs s r f m"
    then obtain ino where "((r, f, i), ino) \<in> set (um_dir s)"
      using path_inode_mem by (fastforce simp: later_segs_def)
    then show "i \<in> (\<lambda>((r, f, i), ino). i) ` set (um_dir s)"
      by force
  qed
  then have "card (later_segs s r f m) \<le> card (set (um_dir s))"
    by (meson card_image_le card_mono finite_imageI finite_set order_trans)
  then show ?thesis
    using finite_subset [OF sub] card_length [of "um_dir s"] by fastforce
qed

lemma nblocks_dense_loop_spec:
  assumes "fs_ok s" "ctx_ok s c" "r = ctx_rloc s c"
    and d: "\<not> umfile_fork_allows_sparse_segments f"
    and "length (ctx_segs s c f) = Suc m" "seg_result s r f m v"
    and "card (later_segs s r f m) < fuel" and "path_inode s (r, f, 32767) = None"
  shows "wpU (umfile_nblocks_dense_loop fuel c r f m v) (\<lambda>res t. fs_ext s t \<and>
     fork_block t = fork_block s \<and>
     (\<exists>n. res = Inr n \<and> (\<forall>b. fork_block s r f b \<noteq> None \<longleftrightarrow> b < n))) s"
  using assms(1-3,5-8)
proof (induction fuel arbitrary: s m v)
  case (Suc fuel)
  note ok = Suc.prems(1,2) and r = Suc.prems(3) and v = Suc.prems(5)
  obtain ino where ino: "umfd_vfd v = Some ino" "path_inode s (r, f, m) = Some ino"
    using v by (auto simp: seg_result_def)
  have le: "length (um_inode s ino) \<le> RELSEG_SIZE"
    using fs_ok_bounds(2) [OF ok(1) ino(2)] .
  have m: "m < 32767"
  proof (rule ccontr)
    assume "\<not> m < 32767"
    then have "m = 32767 \<or> seg_full s r f 32767"
      using dense_prefix_full [OF ok(1) d, of r m 32767] ino(2) by fastforce
    then show False using Suc.prems(7) ino(2) by (auto simp: seg_full_def)
  qed
  have eof: "\<forall>b. fork_block s r f b \<noteq> None \<longleftrightarrow> b < of_nat (m * RELSEG_SIZE + length (um_inode s ino))"
    if "path_inode s (r, f, Suc m) = None"
  proof -
    have "m * RELSEG_SIZE + length (um_inode s ino) \<le> 32767 * RELSEG_SIZE"
    proof -
      have "Suc m * RELSEG_SIZE \<le> 32767 * RELSEG_SIZE"
        using m by (intro mult_le_mono1) simp
      then show ?thesis using le by (simp only: mult_Suc)
    qed
    then have "unat (of_nat (m * RELSEG_SIZE + length (um_inode s ino)) :: u32) =
        m * RELSEG_SIZE + length (um_inode s ino)"
      by (subst unat_of_nat) (simp add: RELSEG_SIZE_def)
    then show ?thesis
      using dense_eof [OF ok(1) d ino(2) that] by (simp only: word_less_nat_alt) simp
  qed
  show ?case
  proof (cases "length (um_inode s ino) < RELSEG_SIZE")
    case True
    have "\<not> seg_full s r f m"
      using True ino(2) by (simp add: seg_full_def)
    then have "path_inode s (r, f, Suc m) = None"
      using ok(1) d unfolding fs_ok_def by blast
    from eof [OF this] show ?thesis
      using True le ino(1) ok(1) by (auto simp: wp)
  next
    case False
    let ?open = "bindU (umfile_openseg c r f (m + 1) False) (\<lambda>v'. case v' of
             None \<Rightarrow> returnU (of_nat ((m + 1) * RELSEG_SIZE))
           | Some w \<Rightarrow> umfile_nblocks_dense_loop fuel c r f (m + 1) w)"
    have "wpU ?open (\<lambda>res t. fs_ext s t \<and> fork_block t = fork_block s \<and>
       (\<exists>n. res = Inr n \<and> (\<forall>b. fork_block s r f b \<noteq> None \<longleftrightarrow> b < n))) s"
    proof (rule wpU_bindI [OF openseg_spec [OF ok r]], goal_cases)
      case (4 x t)
      show ?case
      proof (cases x)
        case None
        with 4 have "path_inode s (r, f, Suc m) = None" "t = s" by auto
        with eof [OF this(1)] False le None ok(1) show ?thesis
          by (auto simp: wp add.commute)
      next
        case (Some w)
        have t: "fs_ext s t" "fork_block t = fork_block s" "seg_result t r f (Suc m) w"
          "length (ctx_segs t c f) = Suc (Suc m)"
          using 4 Some Suc.prems(4) by auto
        have p: "path_inode t = path_inode s"
          using 4 by auto
        have "path_inode s (r, f, Suc m) \<noteq> None"
          using t(3) unfolding p [symmetric] by (auto simp: seg_result_def)
        then have "later_segs s r f m = insert (Suc m) (later_segs s r f (Suc m))"
          by (auto simp: later_segs_def Suc_lessI)
        moreover have "Suc m \<notin> later_segs s r f (Suc m)"
          by (simp add: later_segs_def)
        ultimately have "card (later_segs s r f (Suc m)) < fuel"
          using Suc.prems(6) later_segs_bound [of s r f "Suc m"] by simp
        then have "card (later_segs t r f (Suc m)) < fuel"
          by (simp add: later_segs_def p)
        then have "wpU (umfile_nblocks_dense_loop fuel c r f (Suc m) w) (\<lambda>res u. fs_ext t u \<and>
           fork_block u = fork_block t \<and>
           (\<exists>n. res = Inr n \<and> (\<forall>b. fork_block t r f b \<noteq> None \<longleftrightarrow> b < n))) t"
          using t Suc.prems(2,3,7) fs_extD(1,2,3) [OF t(1)] p
          by (intro Suc.IH) auto
        then show ?thesis
          using Some t(2) by (auto elim!: wpU_mono intro: fs_ext_trans [OF t(1)])
      qed
    qed (use d Suc.prems(4) in auto)
    moreover have "umfile_nblocks_dense_loop (Suc fuel) c r f m v s = ?open s"
      using False le ino(1) by (simp add: umfile_nblocks_in_seg_def with_vfd_def runU)
    ultimately show ?thesis
      by (blast intro: wpU_eqI)
  qed
qed simp

subsection \<open>The block-store contract\<close>

text \<open>What the layers above rely on: a store of whole blocks in which a read returns the block last
  written and a write leaves the other existing blocks alone.\<close>

locale block_store =
  fixes inv :: "'s \<Rightarrow> bool"
    and content :: "'s \<Rightarrow> BlockNumber \<Rightarrow> block option"
    and rd :: "BlockNumber \<Rightarrow> ('s, block) um"
    and wr :: "BlockNumber \<Rightarrow> block \<Rightarrow> ('s, unit) um"
  assumes rd_law: "inv s \<Longrightarrow> wpU (rd b) (\<lambda>res t. inv t \<and> content t = content s \<and>
      (case content s b of Some x \<Rightarrow> res = Inr x | None \<Rightarrow> (\<exists>e. res = Inl e))) s"
    and wr_law: "inv s \<Longrightarrow> length x = BLOCK_WORDS \<Longrightarrow> wpU (wr b x) (\<lambda>res t. res = Inr () \<and> inv t \<and>
      content t b = Some x \<and> (\<forall>b' y. b' \<noteq> b \<and> content s b' = Some y \<longrightarrow> content t b' = Some y)) s"
begin

lemma rd_after_wr:
  assumes "inv s" and "length x = BLOCK_WORDS"
  shows "wpU (bindU (wr b x) (\<lambda>_. rd b')) (\<lambda>res t. inv t \<and>
     (b' = b \<longrightarrow> res = Inr x) \<and> (\<forall>y. b' \<noteq> b \<and> content s b' = Some y \<longrightarrow> res = Inr y)) s"
proof (rule wpU_bindI [OF wr_law [OF assms]], goal_cases)
  case (2 u t)
  then show ?case
    by (intro wpU_mono [OF rd_law [of t b']]) (auto split: option.splits)
qed simp

lemma wr_list_reads:
  assumes "inv s" and "\<And>b x. (b, x) \<in> set ws \<Longrightarrow> length x = BLOCK_WORDS"
  shows "wpU (forU ws (\<lambda>(b, x). wr b x)) (\<lambda>res t. res = Inr () \<and> inv t \<and>
     (\<forall>b x. map_of (rev ws) b = Some x \<longrightarrow> content t b = Some x) \<and>
     (\<forall>b x. map_of (rev ws) b = None \<and> content s b = Some x \<longrightarrow> content t b = Some x)) s"
  using assms
proof (induction ws arbitrary: s)
  case (Cons w ws)
  obtain b x where w: "w = (b, x)" by fastforce
  have len: "length x = BLOCK_WORDS"
    using Cons.prems(2) w by auto
  have "wpU (bindU (wr b x) (\<lambda>_. forU ws (\<lambda>(b, x). wr b x))) (\<lambda>res t. res = Inr () \<and> inv t \<and>
     (\<forall>b x. map_of (rev (w # ws)) b = Some x \<longrightarrow> content t b = Some x) \<and>
     (\<forall>b x. map_of (rev (w # ws)) b = None \<and> content s b = Some x \<longrightarrow> content t b = Some x)) s"
  proof (rule wpU_bindI [OF wr_law [OF Cons.prems(1) len]], goal_cases)
    case (2 u t)
    have "wpU (forU ws (\<lambda>(b, x). wr b x)) (\<lambda>res v. res = Inr () \<and> inv v \<and>
       (\<forall>b x. map_of (rev ws) b = Some x \<longrightarrow> content v b = Some x) \<and>
       (\<forall>b x. map_of (rev ws) b = None \<and> content t b = Some x \<longrightarrow> content v b = Some x)) t"
      using Cons 2 by auto
    then show ?case
      using 2 w by (elim wpU_mono) (auto simp: map_add_def split: option.splits if_splits)
  qed simp
  then show ?case by (simp add: w)
qed (simp add: wp)

end

definition blocks_ok ::
  "'x um_fs_scheme \<Rightarrow> RelFileLocatorBackend \<Rightarrow> ForkNumber \<Rightarrow> bool" where
  "blocks_ok s r f \<longleftrightarrow> (\<forall>b x. fork_block s r f b = Some x \<longrightarrow> length x = BLOCK_WORDS)"

text \<open>The invariant under which a context serves as a block store for one of its forks.\<close>

definition umf_inv ::
  "nat \<Rightarrow> RelFileLocatorBackend \<Rightarrow> ForkNumber \<Rightarrow> 'x um_fs_scheme \<Rightarrow> bool" where
  "umf_inv c r f s \<longleftrightarrow>
     fs_ok s \<and> ctx_ok s c \<and> ctx_rloc s c = r \<and> blocks_ok s r f \<and>
     (umfile_fork_allows_sparse_segments f \<or> path_inode s (r, f, 0) \<noteq> None)"

lemma umf_invD:
  assumes "umf_inv c r f s"
  shows "fs_ok s" "ctx_ok s c" "ctx_rloc s c = r" "blocks_ok s r f"
    and "umfile_fork_allows_sparse_segments f \<or> path_inode s (ctx_rloc s c, f, 0) \<noteq> None"
  using assms by (auto simp: umf_inv_def)

lemma length_zero_block [simp]: "length zero_block = BLOCK_WORDS"
  by (simp add: zero_block_def)

lemma umf_inv_ext:
  assumes "umf_inv c r f s" and "fs_ext s t"
  shows "umf_inv c r f t"
proof -
  have "blocks_ok t r f"
    using umf_invD(4) [OF assms(1)] fs_extD(6) [OF assms(2), of r f]
    unfolding blocks_ok_def by (metis length_zero_block)
  moreover have "umfile_fork_allows_sparse_segments f \<or> path_inode t (r, f, 0) \<noteq> None"
    using umf_invD(3,5) [OF assms(1)] fs_extD(4) [OF assms(2), of "(r, f, 0)"] by auto
  ultimately show ?thesis
    using assms fs_extD(1-3) [OF assms(2)] by (auto simp: umf_inv_def)
qed

lemma umf_inv_mod:
  assumes "umf_inv c r f s" and "fs_mod (\<lambda>r' g b'. r' = r \<and> g = f \<and> b' = b) s t"
    and "fork_block t r f b = Some x" and "length x = BLOCK_WORDS"
  shows "umf_inv c r f t"
proof -
  have "length y = BLOCK_WORDS" if "fork_block t r f b' = Some y" for b' y
    using that umf_invD(4) [OF assms(1)] fs_modD(6) [OF assms(2), of r f b' y] assms(3,4)
    by (cases "b' = b") (auto simp: blocks_ok_def)
  then have "blocks_ok t r f"
    by (simp add: blocks_ok_def)
  moreover have "umfile_fork_allows_sparse_segments f \<or> path_inode t (r, f, 0) \<noteq> None"
    using umf_invD(3,5) [OF assms(1)] fs_modD(4) [OF assms(2), of "(r, f, 0)"] by auto
  ultimately show ?thesis
    using assms fs_modD(1-3) [OF assms(2)] by (auto simp: umf_inv_def)
qed

lemma BLCKSZ_words: "BLCKSZ div 4 = BLOCK_WORDS"
  by (simp add: BLOCK_WORDS_def)

interpretation umf: block_store "umf_inv c r f" "\<lambda>s. fork_block s r f"
  "\<lambda>b. umfile_ctx_read c f b BLCKSZ" "umfile_ctx_write c f"
  for c r f
proof
  fix s :: "'x um_fs_scheme" and b
  assume inv: "umf_inv c r f s"
  note i = umf_invD [OF inv]
  show "wpU (umfile_ctx_read c f b BLCKSZ) (\<lambda>res t. umf_inv c r f t \<and>
      fork_block t r f = fork_block s r f \<and>
      (case fork_block s r f b of Some x \<Rightarrow> res = Inr x | None \<Rightarrow> \<exists>e. res = Inl e)) s"
    using ctx_read_spec [OF i(1,2,5), of b BLCKSZ] i(3,4) umf_inv_ext [OF inv]
    by (auto simp: BLCKSZ_words blocks_ok_def elim!: wpU_mono split: option.splits)
next
  fix s :: "'x um_fs_scheme" and b and x :: block
  assume inv: "umf_inv c r f s" and len: "length x = BLOCK_WORDS"
  note i = umf_invD [OF inv]
  have old: "length (old_block s c f b) = BLOCK_WORDS"
    using i(3,4) by (auto simp: old_block_def blocks_ok_def split: option.splits)
  show "wpU (umfile_ctx_write c f b x) (\<lambda>res t. res = Inr () \<and> umf_inv c r f t \<and>
      fork_block t r f b = Some x \<and>
      (\<forall>b' y. b' \<noteq> b \<and> fork_block s r f b' = Some y \<longrightarrow> fork_block t r f b' = Some y)) s"
  proof (rule wpU_mono [OF ctx_write_spec [OF i(1,2,5)]], goal_cases)
    case (1 res t)
    then have t: "fs_mod (\<lambda>r' g b'. r' = r \<and> g = f \<and> b' = b) s t"
      "fork_block t r f b = Some x" "res = Inr ()"
      using i(3) len old by auto
    then show ?case
      using umf_inv_mod [OF inv t(1,2) len] fs_modD(5) [OF t(1), of r f] by auto
  qed
qed

subsection \<open>Unlinking a fork\<close>

lemma path_inode_dir_remove [simp]:
  "path_inode (dir_remove p s) q = (if q = p then None else path_inode s q)"
proof -
  have "map_of (filter (\<lambda>(q, ino). q \<noteq> p) xs) q = (if q = p then None else map_of xs q)"
    for xs :: "(seg_path \<times> nat) list"
    by (induction xs) auto
  then show ?thesis by (simp add: path_inode_def dir_remove_def)
qed

lemma dir_remove_shrinks:
  assumes "path_exists s p"
  shows "length (um_dir (dir_remove p s)) < length (um_dir s)"
proof -
  obtain ino where "(p, ino) \<in> set (um_dir s)"
    using assms path_inode_mem by (metis not_None_eq path_exists_def prod_cases3)
  then show ?thesis
    by (auto simp: dir_remove_def intro!: length_filter_less)
qed

text \<open>The truncation and the forget request of an unlinked segment leave the directory alone.\<close>

definition same_dir :: "'x um_fs_scheme \<Rightarrow> 'x um_fs_scheme \<Rightarrow> bool" where
  "same_dir s t \<longleftrightarrow> um_dir t = um_dir s"

lemma same_dirD:
  assumes "same_dir s t"
  shows "path_inode t = path_inode s" "path_exists t = path_exists s"
    "um_dir t = um_dir s" "um_dir (dir_remove p t) = um_dir (dir_remove p s)"
  using assms by (auto simp: same_dir_def path_inode_def path_exists_def dir_remove_def)

lemma path_truncate_dir: "wpU (path_truncate p) (\<lambda>res t. res = Inr (path_exists s p) \<and> same_dir s t) s"
  by (auto simp: path_truncate_def wpU_def upd_inode_def path_exists_def same_dir_def
      split: option.splits)

lemma truncate_forget_dir:
  "wpU (bindU (path_truncate p) (\<lambda>_. umfile_register_forget_seg r f k))
     (\<lambda>res t. res = Inr () \<and> same_dir s t) s"
  by (rule wpU_bindI [OF path_truncate_dir])
    (auto simp: umfile_register_forget_seg_def wpU_modifyU same_dir_def)

text \<open>The segments a removal starting at segment \<^term>\<open>k\<close> reaches: those before the first gap.\<close>

definition reaches_seg ::
  "'x um_fs_scheme \<Rightarrow> RelFileLocatorBackend \<Rightarrow> ForkNumber \<Rightarrow> nat \<Rightarrow> nat \<Rightarrow> bool" where
  "reaches_seg s r f k j \<longleftrightarrow> k \<le> j \<and> (\<forall>i \<in> {k..j}. path_exists s (r, f, i))"

lemma reaches_seg_step:
  "path_exists s (r, f, k) \<Longrightarrow>
   reaches_seg s r f k j \<longleftrightarrow> j = k \<or> reaches_seg (dir_remove (r, f, k) s) r f (Suc k) j"
proof -
  assume k: "path_exists s (r, f, k)"
  have "(\<forall>i \<in> {k..j}. path_exists s (r, f, i)) \<longleftrightarrow> (\<forall>i \<in> {Suc k..j}. path_exists s (r, f, i))"
    if "k < j"
    using k that atLeastAtMost_insertL [of k j] by auto
  moreover have "path_exists (dir_remove (r, f, k) s) (r, f, i) \<longleftrightarrow> path_exists s (r, f, i)"
    if "i \<in> {Suc k..j}" for i
    using that by (simp add: path_exists_def)
  ultimately show ?thesis
    using k by (cases "k < j") (auto simp: reaches_seg_def)
qed

lemma unlink_segs_spec:
  assumes "length (um_dir s) < n"
  shows "wpU (umfile_unlink_segs n r f k) (\<lambda>res t. res = Inr () \<and>
     (\<forall>r' f' j. path_inode t (r', f', j) =
        (if r' = r \<and> f' = f \<and> reaches_seg s r f k j then None else path_inode s (r', f', j)))) s"
  using assms
proof (induction n arbitrary: s k)
  case (Suc n)
  have trunc: "wpU (whenU (\<not> RelFileLocatorBackendIsTemp r)
              (bindU (path_truncate (r, f, k)) (\<lambda>_. umfile_register_forget_seg r f k)))
      (\<lambda>res t. res = Inr () \<and> same_dir s t) s"
    using truncate_forget_dir [of "(r, f, k)" r f k s] by (simp add: wpU_whenU same_dir_def)
  show ?case
    unfolding umfile_unlink_segs.simps
  proof (rule wpU_bindI [OF trunc], goal_cases)
    case (2 x t)
    then have t: "same_dir s t" by simp
    note d = same_dirD [OF t]
    show ?case
    proof (cases "path_exists s (r, f, k)")
      case False
      then have "\<not> reaches_seg s r f k j" for j
        by (auto simp: reaches_seg_def)
      then show ?thesis
        using False d by (simp add: path_unlink_def wp wpU_def bindU_def returnU_def)
    next
      case True
      let ?u = "dir_remove (r, f, k) t"
      have "length (um_dir ?u) < n"
        using dir_remove_shrinks [OF True] Suc.prems d(4) by simp
      from Suc.IH [OF this, of "Suc k"]
      have "wpU (umfile_unlink_segs n r f (Suc k)) (\<lambda>res v. res = Inr () \<and>
         (\<forall>r' f' j. path_inode v (r', f', j) =
           (if r' = r \<and> f' = f \<and> reaches_seg s r f k j then None else path_inode s (r', f', j)))) ?u"
      proof (rule wpU_mono, goal_cases)
        case (1 res v)
        have "reaches_seg ?u r f (Suc k) j = reaches_seg (dir_remove (r, f, k) s) r f (Suc k) j" for j
          by (simp add: reaches_seg_def path_exists_def d)
        with 1 show ?case
          by (auto simp: reaches_seg_step [OF True] d)
      qed
      then show ?thesis
        using True d by (simp add: path_unlink_def wpU_def bindU_def)
    qed
  qed simp
qed simp

lemma unlink_first_seg:
  "wpU (bindU (if RelFileLocatorBackendIsTemp r then returnU True
               else bindU (path_truncate (r, f, 0)) (\<lambda>ok.
                    bindU (umfile_register_forget_seg r f 0) (\<lambda>_. returnU ok)))
          (\<lambda>ok. if ok then path_unlink (r, f, 0) else returnU False))
     (\<lambda>res t. res = Inr (path_exists s (r, f, 0)) \<and>
        um_dir t = (if path_exists s (r, f, 0) then um_dir (dir_remove (r, f, 0) s) else um_dir s)) s"
proof (rule wpU_bindI [where P = "\<lambda>res t. same_dir s t \<and>
      (\<exists>ok. res = Inr ok \<and> (path_exists s (r, f, 0) \<longrightarrow> ok))"], goal_cases)
  case 1
  have "wpU (bindU (path_truncate (r, f, 0)) (\<lambda>ok.
      bindU (umfile_register_forget_seg r f 0) (\<lambda>_. returnU ok)))
     (\<lambda>res t. same_dir s t \<and> (\<exists>ok. res = Inr ok \<and> (path_exists s (r, f, 0) \<longrightarrow> ok))) s"
    by (rule wpU_bindI [OF path_truncate_dir])
      (auto simp: umfile_register_forget_seg_def wp same_dir_def)
  then show ?case by (auto simp: wp same_dir_def)
next
  case (3 ok t)
  note d = same_dirD [OF 3 [THEN conjunct1]]
  show ?case
    using 3 by (auto simp: path_unlink_def wpU_def returnU_def d)
qed simp

lemma unlink_fork_redo_spec:
  "wpU (umfile_unlink_fork r f True up) (\<lambda>res t. res = Inr () \<and>
     (\<forall>r' f' j. path_inode t (r', f', j) =
        (if r' = r \<and> f' = f \<and> reaches_seg s r f 0 j then None else path_inode s (r', f', j)))) s"
  unfolding umfile_unlink_fork_def Let_def simp_thms if_True if_False
proof (rule wpU_bindI [OF unlink_first_seg], goal_cases)
  case (2 ok t)
  show ?case
  proof (cases "path_exists s (r, f, 0)")
    case False
    then have "\<not> reaches_seg s r f 0 j" for j
      by (force simp: reaches_seg_def)
    then show ?thesis
      using 2 False by (auto simp: wp path_inode_def)
  next
    case True
    have p: "path_inode t = path_inode (dir_remove (r, f, 0) s)"
      using 2 True by (auto simp: path_inode_def)
    then have "reaches_seg t r f 1 j = reaches_seg (dir_remove (r, f, 0) s) r f (Suc 0) j" for j
      by (simp add: reaches_seg_def path_exists_def)
    then have "wpU (umfile_unlink_segs (Suc (length (um_dir t))) r f 1) (\<lambda>res u. res = Inr () \<and>
       (\<forall>r' f' j. path_inode u (r', f', j) = (if r' = r \<and> f' = f \<and> reaches_seg s r f 0 j then None
           else path_inode s (r', f', j)))) t"
      by (intro wpU_mono [OF unlink_segs_spec]) (auto simp: reaches_seg_step [OF True] p)
    then show ?thesis
      using 2 True by (simp add: wp)
  qed
qed simp

subsection \<open>The length of a dense fork\<close>

lemma nblocks_dense_spec:
  assumes ok: "fs_ok s" "ctx_ok s c" and d: "\<not> umfile_fork_allows_sparse_segments f"
    and top: "path_inode s (ctx_rloc s c, f, 32767) = None"
  shows "wpU (umfile_nblocks_dense c f) (\<lambda>res t. fs_ext s t \<and> fork_block t = fork_block s \<and>
     (\<exists>n. res = Inr n \<and> (\<forall>b. fork_block s (ctx_rloc s c) f b \<noteq> None \<longleftrightarrow> b < n))) s"
proof -
  let ?r = "ctx_rloc s c"
  let ?Q = "\<lambda>res t. fs_ext s t \<and> fork_block t = fork_block s \<and>
     (\<exists>n. res = Inr n \<and> (\<forall>b. fork_block s ?r f b \<noteq> None \<longleftrightarrow> b < n))"
  have "wpU (bindU (umfile_openfork c ?r f {UM_EXTENSION_RETURN_NULL}) (\<lambda>v0.
       if v0 = None then returnU 0
       else
         bindU (getU (\<lambda>s. ctx_segs s c f)) (\<lambda>vs.
         bindU (getU (\<lambda>s. Suc (length (um_dir s)))) (\<lambda>fuel.
         umfile_nblocks_dense_loop fuel c ?r f (length vs - 1) (vs ! (length vs - 1)))))) ?Q s"
  proof (rule wpU_bindI [OF openfork_spec [OF ok refl d]], goal_cases)
    case (2 v t)
    show ?case
    proof (cases v)
      case None
      then have none: "path_inode s (?r, f, 0) = None" "t = s" using 2 by auto
      have "path_inode s (?r, f, i) = None" for i
        using dense_prefix_full [OF ok(1) d, of ?r i 0] none(1)
        by (cases "i = 0") (fastforce simp: seg_full_def)+
      then have "fork_block s ?r f b = None" for b
        by (simp add: fork_block_def)
      then show ?thesis using None none ok(1) by (auto simp: wp)
    next
      case (Some v0)
      let ?vs = "ctx_segs t c f"
      have t: "fs_ext s t" "fork_block t = fork_block s" "path_inode t = path_inode s"
        and len: "length ?vs = Suc (length ?vs - 1)"
        using 2 Some by auto
      note e = fs_extD(1-3) [OF t(1)]
      have "seg_result t ?r f (length ?vs - 1) (?vs ! (length ?vs - 1))"
        using ctx_okD [OF e(2) [OF ok(2)], of "length ?vs - 1" f] len d e(3)
          seg_entry_open_result(2) by (metis lessI)
      moreover have "card (later_segs t ?r f (length ?vs - 1)) < Suc (length (um_dir t))"
        using later_segs_bound [of t ?r f "length ?vs - 1"] by simp
      ultimately have "wpU (umfile_nblocks_dense_loop (Suc (length (um_dir t))) c ?r f
          (length ?vs - 1) (?vs ! (length ?vs - 1))) (\<lambda>res u. fs_ext t u \<and>
          fork_block u = fork_block t \<and>
          (\<exists>n. res = Inr n \<and> (\<forall>b. fork_block t ?r f b \<noteq> None \<longleftrightarrow> b < n))) t"
        using e ok(2) len top t(3) by (intro nblocks_dense_loop_spec [OF _ _ _ d]) auto
      then show ?thesis
        using Some t(2)
        by (simp add: wp del: umfile_nblocks_dense_loop.simps)
          (auto elim!: wpU_mono intro: fs_ext_trans [OF t(1)])
    qed
  qed auto
  then show ?thesis
    by (simp add: umfile_nblocks_dense_def wp)
qed

subsection \<open>A small file system for the witnesses\<close>

definition demo_rloc :: RelFileLocatorBackend where
  "demo_rloc = \<lparr>locator = \<lparr>spcOid = 1663, dbOid = 5, relNumber = 16384\<rparr>, backend = -1\<rparr>"

definition demo_block :: block where
  "demo_block = replicate BLOCK_WORDS 7"

text \<open>A metadata fork of two blocks, and a main fork whose first two segments hold one block each.
  The context has reached the main fork's second segment only, so the vector entry of its first
  one is closed.\<close>

definition demo_fs :: um_fs where
  "demo_fs = \<lparr>
     um_dir = [((demo_rloc, UMBRA_METADATA_FORKNUM, 0), 0), ((demo_rloc, MAIN_FORKNUM, 0), 1),
               ((demo_rloc, MAIN_FORKNUM, 1), 2)],
     um_inode = (\<lambda>i. [])(0 := [zero_block, demo_block], 1 := [demo_block], 2 := [demo_block]),
     um_next_inode = 3,
     um_ctxs = (\<lambda>c. \<lparr>ctx_rlocator = demo_rloc, seg_fds = (\<lambda>f. if f = MAIN_FORKNUM
        then [\<lparr>umfd_vfd = None, umfd_segno = 0\<rparr>, \<lparr>umfd_vfd = Some 2, umfd_segno = 1\<rparr>] else [])\<rparr>),
     um_next_ctx = 1, UmCtxRegistry = (\<lambda>r. None), um_sync = [], InRecovery = False\<rparr>"

lemma length_demo_block: "length demo_block = BLOCK_WORDS"
  by (simp add: demo_block_def)

lemma demo_ctx: "ctx_rloc demo_fs c = demo_rloc"
  by (simp add: demo_fs_def ctx_rloc_def)

lemma demo_paths:
  "path_inode demo_fs p =
     (if p = (demo_rloc, UMBRA_METADATA_FORKNUM, 0) then Some 0
      else if p = (demo_rloc, MAIN_FORKNUM, 0) then Some 1
      else if p = (demo_rloc, MAIN_FORKNUM, 1) then Some 2 else None)"
  by (simp add: demo_fs_def path_inode_def)

lemma demo_fs_ok: "fs_ok demo_fs"
proof -
  have "umfile_fork_allows_sparse_segments f" if "path_inode demo_fs (r, f, Suc i) \<noteq> None" for r f i
    using that by (auto simp: demo_paths split: if_splits)
  then have "\<forall>r f i. \<not> umfile_fork_allows_sparse_segments f \<and> path_inode demo_fs (r, f, Suc i) \<noteq> None \<longrightarrow>
     seg_full demo_fs r f i" by blast
  moreover have "\<forall>(p, ino) \<in> set (um_dir demo_fs).
      ino < um_next_inode demo_fs \<and> length (um_inode demo_fs ino) \<le> RELSEG_SIZE"
    by (simp add: demo_fs_def RELSEG_SIZE_def)
  moreover have "distinct (map fst (um_dir demo_fs)) \<and> distinct (map snd (um_dir demo_fs))"
    by (simp add: demo_fs_def)
  ultimately show ?thesis
    unfolding fs_ok_def by blast
qed

lemma demo_ctx_ok: "ctx_ok demo_fs c"
proof -
  have "seg_entry_ok demo_fs demo_rloc f i (ctx_segs demo_fs c f ! i)"
    if "i < length (ctx_segs demo_fs c f)" for f i
    using that by (auto simp: seg_entry_ok_def demo_paths ctx_segs_def demo_fs_def [THEN arg_cong, of um_ctxs]
        less_Suc_eq split: if_splits)
  then show ?thesis by (simp add: ctx_ok_def demo_ctx)
qed

lemma demo_umf_inv: "umf_inv 0 demo_rloc UMBRA_METADATA_FORKNUM demo_fs"
proof -
  have "length x = BLOCK_WORDS"
    if "fork_block demo_fs demo_rloc UMBRA_METADATA_FORKNUM b = Some x" for b x
    using that by (auto simp: fork_block_def demo_paths demo_fs_def [THEN arg_cong, of um_inode]
        length_demo_block nth_Cons split: if_splits nat.splits)
  then show ?thesis
    by (simp add: umf_inv_def demo_fs_ok demo_ctx_ok demo_ctx blocks_ok_def demo_paths)
qed

subsection \<open>Properties\<close>

text \<open>C13: A block written through a file context is the block the context reads back, and writing it
  changes no other existing block of the fork: both operations succeed, whatever descriptors were
  open before and whether or not the segment existed.\<close>

theorem umfile_read_after_write:
  assumes "umf_inv c r f s" and "length x = BLOCK_WORDS"
  shows "wpU (bindU (umfile_ctx_write c f b x) (\<lambda>_. umfile_ctx_read c f b' BLCKSZ)) (\<lambda>res t.
     umf_inv c r f t \<and> (b' = b \<longrightarrow> res = Inr x) \<and>
     (\<forall>y. b' \<noteq> b \<and> fork_block s r f b' = Some y \<longrightarrow> res = Inr y)) s"
  by (rule umf.rd_after_wr [OF assms])

theorem umfile_read_after_write_witness:
  "wpU (bindU (umfile_ctx_write 0 UMBRA_METADATA_FORKNUM 0 demo_block)
          (\<lambda>_. umfile_ctx_read 0 UMBRA_METADATA_FORKNUM 0 BLCKSZ))
     (\<lambda>res t. res = Inr demo_block) demo_fs"
  using umfile_read_after_write [OF demo_umf_inv length_demo_block, of 0 0]
  by (auto elim!: wpU_mono)

text \<open>C31: The dense block count is the exact end of the fork: the blocks that exist are the ones
  numbered below the result, for a fork that stays below the last segment number a block number
  can address. The scan terminates with a result and changes no block.\<close>

theorem umfile_nblocks_dense_exact:
  assumes "fs_ok s" and "ctx_ok s c" and "\<not> umfile_fork_allows_sparse_segments f"
    and "path_inode s (ctx_rloc s c, f, 32767) = None"
  shows "wpU (umfile_ctx_get_nblocks c f UMFILE_NBLOCKS_DENSE) (\<lambda>res t.
     \<exists>n. res = Inr n \<and> fork_block t = fork_block s \<and>
       (\<forall>b. fork_block s (ctx_rloc s c) f b \<noteq> None \<longleftrightarrow> b < n)) s"
  using nblocks_dense_spec [OF assms]
  by (auto simp: umfile_ctx_get_nblocks_def umfile_nblocks_def elim!: wpU_mono)

theorem umfile_nblocks_dense_exact_witness:
  "wpU (umfile_ctx_get_nblocks 0 UMBRA_METADATA_FORKNUM UMFILE_NBLOCKS_DENSE) (\<lambda>res t.
     \<exists>n. res = Inr n \<and> fork_block t = fork_block demo_fs \<and>
       (\<forall>b. fork_block demo_fs demo_rloc UMBRA_METADATA_FORKNUM b \<noteq> None \<longleftrightarrow> b < n)) demo_fs"
  using umfile_nblocks_dense_exact [OF demo_fs_ok demo_ctx_ok, of UMBRA_METADATA_FORKNUM 0]
  by (simp add: demo_ctx demo_paths)

text \<open>C32: Making a block exist leaves every other block alone, and leaves the block itself alone
  exactly when the context can see its segment: \<^const>\<open>umfile_ctx_block_exists\<close> answers no for a
  segment whose vector entry is closed, so an existing block of such a segment is overwritten with
  zeros.\<close>

theorem umfile_ctx_ensure_block_exists_effect:
  assumes "fs_ok s" and "ctx_ok s c"
    and "umfile_fork_allows_sparse_segments f \<or> path_inode s (ctx_rloc s c, f, 0) \<noteq> None"
  shows "wpU (umfile_ctx_ensure_block_exists c f b) (\<lambda>res t. res = Inr () \<and>
     (\<forall>r g b' x. fork_block s r g b' = Some x \<and> (r, g, b') \<noteq> (ctx_rloc s c, f, b) \<longrightarrow>
        fork_block t r g b' = Some x) \<and>
     fork_block t (ctx_rloc s c) f b = Some
       (if seg_visible s c f b
        then case fork_block s (ctx_rloc s c) f b of Some x \<Rightarrow> x | None \<Rightarrow> zero_block
        else zero_block)) s"
proof (rule wpU_mono [OF ensure_block_exists_spec [OF assms]], goal_cases)
  case (1 res t)
  then have m: "fs_mod (\<lambda>r g b'. r = ctx_rloc s c \<and> g = f \<and> b' = b) s t" by simp
  show ?case
    using 1 fs_modD(5) [OF m] by (auto simp: old_block_def)
qed

theorem umfile_ctx_ensure_block_exists_effect_witness:
  "fork_block demo_fs demo_rloc MAIN_FORKNUM 0 = Some demo_block \<and>
   wpU (umfile_ctx_ensure_block_exists 0 MAIN_FORKNUM 0) (\<lambda>res t.
     res = Inr () \<and> fork_block t demo_rloc MAIN_FORKNUM 0 = Some zero_block) demo_fs"
proof
  show "fork_block demo_fs demo_rloc MAIN_FORKNUM 0 = Some demo_block"
    by (simp add: fork_block_def path_inode_def seg_of_def seg_off_def demo_fs_def)
  have "\<not> seg_visible demo_fs 0 MAIN_FORKNUM 0"
    by (simp add: seg_visible_def ctx_segs_def demo_fs_def seg_of_def umfile_seg_entry_is_open_def)
  then show "wpU (umfile_ctx_ensure_block_exists 0 MAIN_FORKNUM 0) (\<lambda>res t.
     res = Inr () \<and> fork_block t demo_rloc MAIN_FORKNUM 0 = Some zero_block) demo_fs"
    using umfile_ctx_ensure_block_exists_effect [OF demo_fs_ok demo_ctx_ok, of MAIN_FORKNUM 0 0]
    by (auto simp: demo_ctx elim!: wpU_mono)
qed

text \<open>C33: Unlinking a fork in redo removes its segment files up to the first missing one, keeps those
  behind the gap, and touches no other relation or fork. For the sparse forks, which may have gaps,
  the files behind a gap therefore stay on disk.\<close>

theorem umfile_unlink_redo_exact:
  assumes "f \<noteq> InvalidForkNumber"
  shows "wpU (umfile_unlink r f True up) (\<lambda>res t. res = Inr () \<and>
     (\<forall>r' f' j. path_inode t (r', f', j) =
        (if r' = r \<and> f' = f \<and> (\<forall>i \<le> j. path_exists s (r, f, i)) then None
         else path_inode s (r', f', j)))) s"
  using unlink_fork_redo_spec [of r f up s] assms
  by (simp add: umfile_unlink_def reaches_seg_def atLeast0AtMost Ball_def)

theorem umfile_unlink_redo_exact_witness:
  "wpU (umfile_unlink demo_rloc MAIN_FORKNUM True False) (\<lambda>res t.
     path_inode t (demo_rloc, MAIN_FORKNUM, 1) = None \<and>
     path_inode t (demo_rloc, UMBRA_METADATA_FORKNUM, 0) = Some 0) demo_fs"
proof -
  have "\<forall>i \<le> 1. path_exists demo_fs (demo_rloc, MAIN_FORKNUM, i)"
    by (auto simp: path_exists_def demo_paths le_Suc_eq)
  then show ?thesis
    using umfile_unlink_redo_exact [of MAIN_FORKNUM demo_rloc False demo_fs]
    by (auto simp: demo_paths elim!: wpU_mono)
qed

end
