(* ===== verification/MapSuperblock.thy ===== *)
theory MapSuperblock
  imports Crc32c
begin

text \<open>
  The metadata-fork superblock: the payload of \<^verbatim>\<open>src/include/storage/mapsuper.h\<close> and the
  value-level operations of \<^verbatim>\<open>src/backend/storage/map/mapsuper.c\<close> (initialisation, identity and
  checksum tests, per-fork accessors, sector packing). A 512-byte sector is a list of 128
  little-endian 32-bit words; the payload is its first 16 words and the checksum covers the first
  15 of them. The locale \<open>fork_field\<close> is the contract of a per-fork getter and setter pair.
\<close>

subsection \<open>The payload\<close>

definition MAP_SUPERBLOCK_MAGIC :: u32 where "MAP_SUPERBLOCK_MAGIC = 0x554D4252"
definition MAP_SUPERBLOCK_VERSION :: u32 where "MAP_SUPERBLOCK_VERSION = 1"
definition MAP_SUPERBLOCK_SIZE :: nat where "MAP_SUPERBLOCK_SIZE = 512"
definition MAP_SUPERBLOCK_FLAG_SKIP_WAL_PENDING :: u32 where
  "MAP_SUPERBLOCK_FLAG_SKIP_WAL_PENDING = 0x00000001"

text \<open>The union of payload and padding: \<open>sb_padding\<close> is the part of the sector behind the payload.\<close>

record MapSuperblock =
  sb_magic :: u32
  sb_version :: u32
  sb_blcksz :: u32
  sb_flags :: u32
  next_free_phys_block_main :: BlockNumber
  phys_capacity_main :: BlockNumber
  next_free_phys_block_fsm :: BlockNumber
  phys_capacity_fsm :: BlockNumber
  next_free_phys_block_vm :: BlockNumber
  phys_capacity_vm :: BlockNumber
  logical_nblocks_main :: BlockNumber
  logical_nblocks_fsm :: BlockNumber
  logical_nblocks_vm :: BlockNumber
  last_updated_lsn :: XLogRecPtr
  sb_crc :: u32
  sb_padding :: "u32 list"

definition superblock_payload :: "MapSuperblock \<Rightarrow> u32 list" where
  "superblock_payload super =
     [sb_magic super, sb_version super, sb_blcksz super, sb_flags super,
      next_free_phys_block_main super, phys_capacity_main super,
      next_free_phys_block_fsm super, phys_capacity_fsm super,
      next_free_phys_block_vm super, phys_capacity_vm super,
      logical_nblocks_main super, logical_nblocks_fsm super, logical_nblocks_vm super,
      ucast (last_updated_lsn super), ucast (drop_bit 32 (last_updated_lsn super))]"

definition u32_bytes :: "u32 \<Rightarrow> u8 list" where
  "u32_bytes w = [ucast w, ucast (drop_bit 8 w), ucast (drop_bit 16 w), ucast (drop_bit 24 w)]"

definition superblock_crc :: "MapSuperblock \<Rightarrow> u32" where
  "superblock_crc super =
     pg_comp_crc32c_sb8 0xFFFFFFFF 0 (concat (map u32_bytes (superblock_payload super)))
       XOR 0xFFFFFFFF"

subsection \<open>Operations\<close>

definition MapSuperblockRefreshCRC :: "MapSuperblock \<Rightarrow> MapSuperblock" where
  "MapSuperblockRefreshCRC super = super\<lparr>sb_crc := superblock_crc super\<rparr>"

definition MapSuperblockCheckCRC :: "MapSuperblock \<Rightarrow> bool" where
  "MapSuperblockCheckCRC super \<longleftrightarrow> superblock_crc super = sb_crc super"

definition MapSuperblockInit :: "u32 \<Rightarrow> MapSuperblock" where
  "MapSuperblockInit flags =
     \<lparr>sb_magic = MAP_SUPERBLOCK_MAGIC, sb_version = MAP_SUPERBLOCK_VERSION,
      sb_blcksz = of_nat BLCKSZ, sb_flags = flags,
      next_free_phys_block_main = 0, phys_capacity_main = 0,
      next_free_phys_block_fsm = InvalidBlockNumber, phys_capacity_fsm = InvalidBlockNumber,
      next_free_phys_block_vm = InvalidBlockNumber, phys_capacity_vm = InvalidBlockNumber,
      logical_nblocks_main = 0, logical_nblocks_fsm = InvalidBlockNumber,
      logical_nblocks_vm = InvalidBlockNumber,
      last_updated_lsn = InvalidXLogRecPtr, sb_crc = 0,
      sb_padding = replicate (MAP_SUPERBLOCK_SIZE div 4 - 16) 0\<rparr>"

definition MapSuperblockHasValidIdentity :: "MapSuperblock \<Rightarrow> bool" where
  "MapSuperblockHasValidIdentity super \<longleftrightarrow>
     \<not> sb_magic super \<noteq> MAP_SUPERBLOCK_MAGIC \<and> \<not> sb_version super \<noteq> MAP_SUPERBLOCK_VERSION \<and>
     \<not> sb_blcksz super \<noteq> of_nat BLCKSZ"

definition MapSuperblockIsValid :: "MapSuperblock \<Rightarrow> bool" where
  "MapSuperblockIsValid super \<longleftrightarrow>
     MapSuperblockHasValidIdentity super \<and> MapSuperblockCheckCRC super"

definition MapSuperblockSetFlags :: "MapSuperblock \<Rightarrow> u32 \<Rightarrow> MapSuperblock" where
  "MapSuperblockSetFlags super flags = super\<lparr>sb_flags := flags\<rparr>"

definition MapSuperblockGetFlags :: "MapSuperblock \<Rightarrow> u32" where
  "MapSuperblockGetFlags super = sb_flags super"

definition MapSuperblockSetLastUpdatedLSN :: "MapSuperblock \<Rightarrow> XLogRecPtr \<Rightarrow> MapSuperblock" where
  "MapSuperblockSetLastUpdatedLSN super lsn = super\<lparr>last_updated_lsn := lsn\<rparr>"

definition MapSuperblockGetLastUpdatedLSN :: "MapSuperblock \<Rightarrow> XLogRecPtr" where
  "MapSuperblockGetLastUpdatedLSN super = last_updated_lsn super"

fun MapSuperblockGetNextFreePhysBlock ::
  "MapSuperblock \<Rightarrow> ForkNumber \<Rightarrow> um_error + BlockNumber" where
  "MapSuperblockGetNextFreePhysBlock super MAIN_FORKNUM = Inr (next_free_phys_block_main super)"
| "MapSuperblockGetNextFreePhysBlock super FSM_FORKNUM = Inr (next_free_phys_block_fsm super)"
| "MapSuperblockGetNextFreePhysBlock super VISIBILITYMAP_FORKNUM =
     Inr (next_free_phys_block_vm super)"
| "MapSuperblockGetNextFreePhysBlock super _ = Inl (ERROR, E_UNSUPPORTED_FORK)"

fun MapSuperblockSetNextFreePhysBlock ::
  "MapSuperblock \<Rightarrow> ForkNumber \<Rightarrow> BlockNumber \<Rightarrow> um_error + MapSuperblock" where
  "MapSuperblockSetNextFreePhysBlock super MAIN_FORKNUM blkno =
     Inr (super\<lparr>next_free_phys_block_main := blkno\<rparr>)"
| "MapSuperblockSetNextFreePhysBlock super FSM_FORKNUM blkno =
     Inr (super\<lparr>next_free_phys_block_fsm := blkno\<rparr>)"
| "MapSuperblockSetNextFreePhysBlock super VISIBILITYMAP_FORKNUM blkno =
     Inr (super\<lparr>next_free_phys_block_vm := blkno\<rparr>)"
| "MapSuperblockSetNextFreePhysBlock super _ blkno = Inl (ERROR, E_UNSUPPORTED_FORK)"

fun MapSuperblockGetPhysCapacity ::
  "MapSuperblock \<Rightarrow> ForkNumber \<Rightarrow> um_error + BlockNumber" where
  "MapSuperblockGetPhysCapacity super MAIN_FORKNUM = Inr (phys_capacity_main super)"
| "MapSuperblockGetPhysCapacity super FSM_FORKNUM = Inr (phys_capacity_fsm super)"
| "MapSuperblockGetPhysCapacity super VISIBILITYMAP_FORKNUM = Inr (phys_capacity_vm super)"
| "MapSuperblockGetPhysCapacity super _ = Inl (ERROR, E_UNSUPPORTED_FORK)"

fun MapSuperblockSetPhysCapacity ::
  "MapSuperblock \<Rightarrow> ForkNumber \<Rightarrow> BlockNumber \<Rightarrow> um_error + MapSuperblock" where
  "MapSuperblockSetPhysCapacity super MAIN_FORKNUM blkno = Inr (super\<lparr>phys_capacity_main := blkno\<rparr>)"
| "MapSuperblockSetPhysCapacity super FSM_FORKNUM blkno = Inr (super\<lparr>phys_capacity_fsm := blkno\<rparr>)"
| "MapSuperblockSetPhysCapacity super VISIBILITYMAP_FORKNUM blkno =
     Inr (super\<lparr>phys_capacity_vm := blkno\<rparr>)"
| "MapSuperblockSetPhysCapacity super _ blkno = Inl (ERROR, E_UNSUPPORTED_FORK)"

fun MapSuperblockGetLogicalNblocks ::
  "MapSuperblock \<Rightarrow> ForkNumber \<Rightarrow> um_error + BlockNumber" where
  "MapSuperblockGetLogicalNblocks super MAIN_FORKNUM = Inr (logical_nblocks_main super)"
| "MapSuperblockGetLogicalNblocks super FSM_FORKNUM = Inr (logical_nblocks_fsm super)"
| "MapSuperblockGetLogicalNblocks super VISIBILITYMAP_FORKNUM = Inr (logical_nblocks_vm super)"
| "MapSuperblockGetLogicalNblocks super _ = Inl (ERROR, E_UNSUPPORTED_FORK)"

fun MapSuperblockSetLogicalNblocks ::
  "MapSuperblock \<Rightarrow> ForkNumber \<Rightarrow> BlockNumber \<Rightarrow> um_error + MapSuperblock" where
  "MapSuperblockSetLogicalNblocks super MAIN_FORKNUM nblocks =
     Inr (super\<lparr>logical_nblocks_main := nblocks\<rparr>)"
| "MapSuperblockSetLogicalNblocks super FSM_FORKNUM nblocks =
     Inr (super\<lparr>logical_nblocks_fsm := nblocks\<rparr>)"
| "MapSuperblockSetLogicalNblocks super VISIBILITYMAP_FORKNUM nblocks =
     Inr (super\<lparr>logical_nblocks_vm := nblocks\<rparr>)"
| "MapSuperblockSetLogicalNblocks super _ nblocks = Inl (ERROR, E_UNSUPPORTED_FORK)"

definition MapSuperblockPackSector :: "MapSuperblock \<Rightarrow> u32 list" where
  "MapSuperblockPackSector super = superblock_payload super @ [sb_crc super] @ sb_padding super"

definition MapSuperblockUnpackSector :: "u32 list \<Rightarrow> MapSuperblock" where
  "MapSuperblockUnpackSector sector =
     \<lparr>sb_magic = sector ! 0, sb_version = sector ! 1, sb_blcksz = sector ! 2,
      sb_flags = sector ! 3,
      next_free_phys_block_main = sector ! 4, phys_capacity_main = sector ! 5,
      next_free_phys_block_fsm = sector ! 6, phys_capacity_fsm = sector ! 7,
      next_free_phys_block_vm = sector ! 8, phys_capacity_vm = sector ! 9,
      logical_nblocks_main = sector ! 10, logical_nblocks_fsm = sector ! 11,
      logical_nblocks_vm = sector ! 12,
      last_updated_lsn = ucast (sector ! 13) OR push_bit 32 (ucast (sector ! 14)),
      sb_crc = sector ! 15,
      sb_padding = drop 16 sector\<rparr>"

subsection \<open>Per-fork fields\<close>

text \<open>The contract of a per-fork field: reading and writing succeed for exactly the three mapped
  forks, a read returns the last value written, and a write leaves the other forks alone.\<close>

definition mapped_fork :: "ForkNumber \<Rightarrow> bool" where
  "mapped_fork f \<longleftrightarrow> f = MAIN_FORKNUM \<or> f = FSM_FORKNUM \<or> f = VISIBILITYMAP_FORKNUM"

lemma mapped_fork_cases [consumes 1, case_names main fsm vm]:
  assumes "mapped_fork f"
  obtains "f = MAIN_FORKNUM" | "f = FSM_FORKNUM" | "f = VISIBILITYMAP_FORKNUM"
  using assms by (auto simp: mapped_fork_def)

lemma mapped_fork_simps [simp]:
  "mapped_fork MAIN_FORKNUM" "mapped_fork FSM_FORKNUM" "mapped_fork VISIBILITYMAP_FORKNUM"
  "\<not> mapped_fork InvalidForkNumber" "\<not> mapped_fork INIT_FORKNUM"
  "\<not> mapped_fork UMBRA_METADATA_FORKNUM"
  by (simp_all add: mapped_fork_def)

locale fork_field =
  fixes get :: "'s \<Rightarrow> ForkNumber \<Rightarrow> um_error + 'v"
    and set :: "'s \<Rightarrow> ForkNumber \<Rightarrow> 'v \<Rightarrow> um_error + 's"
  assumes get_defined: "(\<exists>v. get s f = Inr v) \<longleftrightarrow> mapped_fork f"
    and set_defined: "(\<exists>s'. set s f v = Inr s') \<longleftrightarrow> mapped_fork f"
    and get_set: "set s f v = Inr s' \<Longrightarrow> get s' g = (if g = f then Inr v else get s g)"
    and set_get: "get s f = Inr v \<Longrightarrow> set s f v = Inr s"
    and set_set: "set s f v = Inr s' \<Longrightarrow> set s' f w = set s f w"
begin

lemma getE:
  assumes "mapped_fork f"
  obtains v where "get s f = Inr v"
  using assms get_defined by blast

lemma setE:
  assumes "mapped_fork f"
  obtains s' where "set s f v = Inr s'"
  using assms set_defined by blast

lemma set_error_same: "set s f v = Inl e \<Longrightarrow> \<exists>e'. get s f = Inl e'"
proof -
  assume "set s f v = Inl e"
  then have "\<not> mapped_fork f" using set_defined [of s f v] by auto
  then have "\<nexists>w. get s f = Inr w" using get_defined by blast
  then show ?thesis by (cases "get s f") auto
qed

lemma set_idem: "set s f v = Inr s' \<Longrightarrow> set s' f v = Inr s'"
  using set_get [of s' f v] get_set [of s f v s' f] by simp

lemma set_inject: "set s f v = Inr t \<Longrightarrow> set s f w = Inr t \<Longrightarrow> v = w"
  using get_set [of s f v t f] get_set [of s f w t f] by simp

end

lemma mapped_fork_unsupported:
  "\<not> mapped_fork f \<Longrightarrow>
     MapSuperblockGetNextFreePhysBlock s f = Inl (ERROR, E_UNSUPPORTED_FORK) \<and>
     MapSuperblockGetPhysCapacity s f = Inl (ERROR, E_UNSUPPORTED_FORK) \<and>
     MapSuperblockGetLogicalNblocks s f = Inl (ERROR, E_UNSUPPORTED_FORK)"
  by (cases f) simp_all

interpretation next_free: fork_field
  MapSuperblockGetNextFreePhysBlock MapSuperblockSetNextFreePhysBlock
proof
  show "MapSuperblockGetNextFreePhysBlock s' g =
      (if g = f then Inr v else MapSuperblockGetNextFreePhysBlock s g)"
    if "MapSuperblockSetNextFreePhysBlock s f v = Inr s'" for s f v s' g
    using that by (cases f; cases g) auto
qed (auto elim!: MapSuperblockGetNextFreePhysBlock.elims MapSuperblockSetNextFreePhysBlock.elims
    simp: mapped_fork_def)

interpretation capacity: fork_field
  MapSuperblockGetPhysCapacity MapSuperblockSetPhysCapacity
proof
  show "MapSuperblockGetPhysCapacity s' g =
      (if g = f then Inr v else MapSuperblockGetPhysCapacity s g)"
    if "MapSuperblockSetPhysCapacity s f v = Inr s'" for s f v s' g
    using that by (cases f; cases g) auto
qed (auto elim!: MapSuperblockGetPhysCapacity.elims MapSuperblockSetPhysCapacity.elims
    simp: mapped_fork_def)

interpretation logical: fork_field
  MapSuperblockGetLogicalNblocks MapSuperblockSetLogicalNblocks
proof
  show "MapSuperblockGetLogicalNblocks s' g =
      (if g = f then Inr v else MapSuperblockGetLogicalNblocks s g)"
    if "MapSuperblockSetLogicalNblocks s f v = Inr s'" for s f v s' g
    using that by (cases f; cases g) auto
qed (auto elim!: MapSuperblockGetLogicalNblocks.elims MapSuperblockSetLogicalNblocks.elims
    simp: mapped_fork_def)

subsection \<open>Sectors\<close>

lemma lsn_words:
  fixes lsn :: u64
  shows "ucast (ucast lsn :: u32) OR push_bit 32 (ucast (ucast (drop_bit 32 lsn) :: u32)) = lsn"
proof (rule bit_eqI)
  fix n
  assume n: "possible_bit TYPE(u64) n"
  show "bit (ucast (ucast lsn :: u32) OR push_bit 32 (ucast (ucast (drop_bit 32 lsn) :: u32))
      :: u64) n = bit lsn n"
    using n by (cases "n < 32") (auto simp: bit_simps)
qed

lemma words_lsn:
  fixes a b :: u32
  shows "ucast (ucast a OR push_bit 32 (ucast b) :: u64) = a"
    and "ucast (drop_bit 32 (ucast a OR push_bit 32 (ucast b) :: u64)) = b"
proof -
  have high: "\<not> bit w n" if "32 \<le> n" for w :: u32 and n
    using that bit_u32_bound [of w n] by auto
  show "ucast (ucast a OR push_bit 32 (ucast b) :: u64) = a"
    by (rule bit_eqI) (auto simp: bit_simps)
  show "ucast (drop_bit 32 (ucast a OR push_bit 32 (ucast b) :: u64)) = b"
    by (rule bit_eqI) (auto simp: bit_simps high)
qed

lemma length_payload [simp]: "length (superblock_payload s) = 15"
  by (simp add: superblock_payload_def)

lemma pack_length:
  "length (MapSuperblockPackSector super) = 16 + length (sb_padding super)"
  by (simp add: MapSuperblockPackSector_def)

lemma unpack_pack: "MapSuperblockUnpackSector (MapSuperblockPackSector super) = super"
  by (simp add: MapSuperblockUnpackSector_def MapSuperblockPackSector_def superblock_payload_def
      lsn_words)

lemma pack_unpack:
  assumes "16 \<le> length sector"
  shows "MapSuperblockPackSector (MapSuperblockUnpackSector sector) = sector"
proof -
  have "sector = map ((!) sector) [0..<16] @ drop 16 sector"
    using assms by (intro nth_equalityI) (auto simp: nth_append)
  also have "[0..<16] = [0, 1, 2, 3, 4, 5, 6, 7, 8, 9, 10, 11, 12, 13, 14, 15 :: nat]"
    by code_simp
  finally have "sector = map ((!) sector)
      [0, 1, 2, 3, 4, 5, 6, 7, 8, 9, 10, 11, 12, 13, 14, 15] @ drop 16 sector" .
  from this [symmetric] show ?thesis
    by (simp add: MapSuperblockUnpackSector_def MapSuperblockPackSector_def superblock_payload_def
        words_lsn del: drop_bit_or)
qed

subsection \<open>What the checksum detects\<close>

lemma crc32c_reference_word:
  "crc32c_reference c (u32_bytes w @ ys) = crc32c_reference ((crc_byte ^^ 4) (c XOR w)) ys"
proof -
  let ?b = "\<lambda>n. ucast (ucast (drop_bit n w) :: u8) :: u32"
  have "(crc_byte ^^ 4) w = (crc_byte ^^ 4) (?b 0) XOR (crc_byte ^^ 3) (?b 8) XOR
      (crc_byte ^^ 2) (?b 16) XOR (crc_byte ^^ 1) (?b 24)"
    by (subst (1) load_u32_bytes [of w, symmetric], subst crc_byte_pow_load) simp
  then show ?thesis
    by (simp add: crc32c_reference_def u32_bytes_def crc_byte_pow_xor crc_byte_xor
        eval_nat_numeral ac_simps)
qed

lemma crc32c_reference_words:
  "crc32c_reference c (concat (map u32_bytes ws)) =
     foldl (\<lambda>c w. (crc_byte ^^ 4) (c XOR w)) c ws"
  by (induction ws arbitrary: c)
    (simp_all add: crc32c_reference_word, simp add: crc32c_reference_def)

lemma crc_bit_zero: "crc_bit c = 0 \<Longrightarrow> c = 0"
proof -
  assume z: "crc_bit c = 0"
  have "bit (crc_bit c) 31 = bit c 0"
    using bit_u32_bound [of c 32] by (auto simp: crc_bit_def bit_simps)
  with z have b: "\<not> bit c 0" by simp
  with z have d: "drop_bit 1 c = 0" by (simp add: crc_bit_def)
  show "c = 0"
  proof (rule bit_eqI)
    fix n
    show "bit c n = bit (0 :: u32) n"
      using b arg_cong [OF d, of "\<lambda>x. bit x (n - 1)"] by (cases n) (simp_all add: bit_simps)
  qed
qed

lemma crc_byte_zero: "crc_byte c = 0 \<Longrightarrow> c = 0"
proof -
  have "(crc_bit ^^ n) c = 0 \<Longrightarrow> c = 0" for n
    by (induction n) (auto dest: crc_bit_zero)
  then show "crc_byte c = 0 \<Longrightarrow> c = 0" by (simp add: crc_byte_def)
qed

lemma crc_byte_pow_inject: "(crc_byte ^^ n) a = (crc_byte ^^ n) b \<longleftrightarrow> a = b"
proof
  assume "(crc_byte ^^ n) a = (crc_byte ^^ n) b"
  then have "(crc_byte ^^ n) (a XOR b) = 0"
    by (simp add: crc_byte_pow_xor)
  moreover have "(crc_byte ^^ n) c = 0 \<Longrightarrow> c = 0" for c
    by (induction n) (auto dest: crc_byte_zero)
  ultimately have "a XOR b = 0" by blast
  then show "a = b"
    by (metis xor.assoc xor.right_neutral xor_self_eq)
qed simp

lemma crc_fold_inject:
  "foldl (\<lambda>c w. (crc_byte ^^ 4) (c XOR w)) a ws = foldl (\<lambda>c w. (crc_byte ^^ 4) (c XOR w)) b ws
     \<longleftrightarrow> a = b"
proof (induction ws arbitrary: a b)
  case (Cons w ws)
  have "a XOR w = b XOR w \<longleftrightarrow> a = b"
    by (metis xor.assoc xor.right_neutral xor_self_eq)
  then show ?case
    using Cons by (simp add: crc_byte_pow_inject)
qed simp

lemma crc_fold_one_word:
  assumes "i < length ws" and "w \<noteq> ws ! i"
  shows "foldl (\<lambda>c w. (crc_byte ^^ 4) (c XOR w)) a (ws[i := w]) \<noteq>
    foldl (\<lambda>c w. (crc_byte ^^ 4) (c XOR w)) a ws"
  using assms
proof (induction ws arbitrary: a i)
  case (Cons v ws)
  show ?case
  proof (cases i)
    case 0
    have "a XOR w = a XOR v \<longleftrightarrow> w = v"
      by (metis xor.left_commute xor.right_neutral xor_self_eq)
    with 0 Cons.prems show ?thesis
      by (simp add: crc_fold_inject crc_byte_pow_inject)
  next
    case (Suc j)
    with Cons show ?thesis by simp
  qed
qed simp

lemma superblock_crc_words:
  "superblock_crc super =
     foldl (\<lambda>c w. (crc_byte ^^ 4) (c XOR w)) 0xFFFFFFFF (superblock_payload super) XOR 0xFFFFFFFF"
proof -
  have "pg_comp_crc32c_sb8 c p d = crc32c_reference c d" for c p d
    by (rule sb8_reference)
  then show ?thesis
    by (simp only: superblock_crc_def crc32c_reference_words)
qed

lemma payload_unpack:
  assumes "16 \<le> length sector"
  shows "superblock_payload (MapSuperblockUnpackSector sector) = take 15 sector"
proof -
  have "take 15 sector = take 15 (MapSuperblockPackSector (MapSuperblockUnpackSector sector))"
    by (simp only: pack_unpack [OF assms])
  then show ?thesis
    by (simp add: MapSuperblockPackSector_def)
qed




text \<open>C15: the checksum detects every corruption confined to one 32-bit word of the payload. If a
  sector passes the check, then changing any one of its first 16 words (a field, half of the LSN or
  the stored checksum itself) makes the check fail.\<close>

theorem superblock_crc_detects_word_corruption:
  assumes "length sector * 4 = MAP_SUPERBLOCK_SIZE"
    and "MapSuperblockCheckCRC (MapSuperblockUnpackSector sector)"
    and "i < 16" and "w \<noteq> sector ! i"
  shows "\<not> MapSuperblockCheckCRC (MapSuperblockUnpackSector (sector[i := w]))"
proof -
  have len: "16 \<le> length sector"
    using assms(1) by (simp add: MAP_SUPERBLOCK_SIZE_def)
  have crc: "superblock_crc (MapSuperblockUnpackSector s) =
      foldl (\<lambda>c w. (crc_byte ^^ 4) (c XOR w)) 0xFFFFFFFF (take 15 s) XOR 0xFFFFFFFF"
    if "16 \<le> length s" for s
    by (simp only: superblock_crc_words payload_unpack [OF that])
  have stored: "sb_crc (MapSuperblockUnpackSector s) = s ! 15" for s
    by (simp add: MapSuperblockUnpackSector_def)
  have inj: "x XOR m = y XOR m \<longleftrightarrow> x = y" for x y m :: u32
    by (metis xor.assoc xor.right_neutral xor_self_eq)
  show ?thesis
  proof (cases "i = 15")
    case True
    with assms len show ?thesis
      by (simp add: MapSuperblockCheckCRC_def crc stored)
  next
    case False
    then have i: "i < 15" using assms(3) by simp
    with len assms(4) crc_fold_one_word [of i "take 15 sector" w]
    have "superblock_crc (MapSuperblockUnpackSector (sector[i := w])) \<noteq>
        superblock_crc (MapSuperblockUnpackSector sector)"
      by (simp add: crc inj take_update_swap)
    with i assms(2) show ?thesis
      by (simp add: MapSuperblockCheckCRC_def stored)
  qed
qed

theorem superblock_crc_detects_word_corruption_witness:
  "\<exists>sector. length sector * 4 = MAP_SUPERBLOCK_SIZE \<and>
     MapSuperblockCheckCRC (MapSuperblockUnpackSector sector) \<and>
     \<not> MapSuperblockCheckCRC (MapSuperblockUnpackSector (sector[4 := 1]))"
proof -
  let ?super = "MapSuperblockRefreshCRC (MapSuperblockInit 0)"
  let ?s = "MapSuperblockPackSector ?super"
  have len: "length ?s * 4 = MAP_SUPERBLOCK_SIZE"
    by (simp add: pack_length MapSuperblockRefreshCRC_def MapSuperblockInit_def
        MAP_SUPERBLOCK_SIZE_def)
  have chk: "MapSuperblockCheckCRC (MapSuperblockUnpackSector ?s)"
    by (simp add: unpack_pack MapSuperblockCheckCRC_def MapSuperblockRefreshCRC_def
        superblock_crc_def superblock_payload_def)
  have "(1 :: u32) \<noteq> ?s ! 4"
    by (simp add: MapSuperblockPackSector_def superblock_payload_def MapSuperblockRefreshCRC_def
        MapSuperblockInit_def)
  then show ?thesis
    using superblock_crc_detects_word_corruption [OF len chk, of 4 1] len chk by auto
qed

end
