(* ===== verification/MapSuperTable.thy ===== *)
theory MapSuperTable
  imports Umfile MapSuperblock
begin

unbundle bit_operations_syntax

text \<open>
  The shared-memory superblock table of \<^verbatim>\<open>src/backend/storage/map/mapsuper.c\<close>: an array of entries,
  one per relation, with a free list threaded through the unused ones, and an open-addressing index
  of 128 partitions over it. The hash is \<^verbatim>\<open>hash_any\<close> of \<^verbatim>\<open>src/common/hashfn.c\<close> on the three words of
  a \<^verbatim>\<open>RelFileLocator\<close>. The slot numbers \<^verbatim>\<open>-1\<close> and \<^verbatim>\<open>-2\<close> of the source are constructors here. Each
  operation runs under the partition lock for its whole duration, so it is one atomic step.

  The invariant says that every used entry is found by its probe sequence before any empty bucket,
  and that the free list holds exactly the unused entries. With it the table refines a finite map
  from relations to entries, the contract of the locale \<open>keyed_table\<close>.
\<close>

subsection \<open>The hash of a relation\<close>

definition pg_rotate_left32 :: "u32 \<Rightarrow> nat \<Rightarrow> u32" where
  "pg_rotate_left32 w n = push_bit n w OR drop_bit (32 - n) w"

text \<open>One line of \<^verbatim>\<open>mix\<close>: \<^verbatim>\<open>x -= z; x ^= rot(z, k); z += y\<close>.\<close>

definition mix_line :: "nat \<Rightarrow> u32 \<times> u32 \<times> u32 \<Rightarrow> u32 \<times> u32 \<times> u32" where
  "mix_line k = (\<lambda>(x, y, z). ((x - z) XOR pg_rotate_left32 z k, y, z + y))"

definition mix :: "u32 \<times> u32 \<times> u32 \<Rightarrow> u32 \<times> u32 \<times> u32" where
  "mix = (\<lambda>(a, b, c).
     let (a, b, c) = mix_line 4 (a, b, c);
         (b, c, a) = mix_line 6 (b, c, a);
         (c, a, b) = mix_line 8 (c, a, b);
         (a, b, c) = mix_line 16 (a, b, c);
         (b, c, a) = mix_line 19 (b, c, a);
         (c, a, b) = mix_line 4 (c, a, b)
     in (a, b, c))"

text \<open>One step of \<^verbatim>\<open>final\<close>: \<^verbatim>\<open>x ^= y; x -= rot(y, k)\<close>.\<close>

definition final_step :: "nat \<Rightarrow> u32 \<Rightarrow> u32 \<Rightarrow> u32" where
  "final_step k x y = (x XOR y) - pg_rotate_left32 y k"

definition final :: "u32 \<times> u32 \<times> u32 \<Rightarrow> u32 \<times> u32 \<times> u32" where
  "final = (\<lambda>(a, b, c).
     let c = final_step 14 c b;
         a = final_step 11 a c;
         b = final_step 25 b a;
         c = final_step 16 c b;
         a = final_step 4 a c;
         b = final_step 14 b a;
         c = final_step 24 c b
     in (a, b, c))"

text \<open>The aligned path of \<^verbatim>\<open>hash_bytes\<close> for a key of exactly three words: one round of the main loop
  and an empty tail.\<close>

definition hash_bytes12 :: "u32 \<Rightarrow> u32 \<Rightarrow> u32 \<Rightarrow> u32" where
  "hash_bytes12 k0 k1 k2 =
     (let init = 0x9e3779b9 + 12 + 3923095;
          (a, b, c) = mix (init + k0, init + k1, init + k2);
          (a, b, c) = final (a, b, c)
      in c)"

definition MapSuperHashCode :: "RelFileLocator \<Rightarrow> u32" where
  "MapSuperHashCode rnode = hash_bytes12 (spcOid rnode) (dbOid rnode) (relNumber rnode)"

subsection \<open>Table, index and free list\<close>

definition MAP_SUPER_NPARTITIONS :: nat where "MAP_SUPER_NPARTITIONS = 128"
definition MAP_SUPER_NPARTITION_BITS :: nat where "MAP_SUPER_NPARTITION_BITS = 7"
definition MAP_SUPERBLOCK_MIN_ENTRIES :: nat where "MAP_SUPERBLOCK_MIN_ENTRIES = 50000"

datatype free_next = FREENEXT_END | FREENEXT_NOT_IN_LIST | FREENEXT_SLOT nat

datatype MapSuperIndexSlot = INDEX_EMPTY | INDEX_DELETED | INDEX_SLOT nat

record MapSuperEntry =
  key :: RelFileLocator
  super :: MapSuperblock
  page_lsn :: XLogRecPtr
  flags :: u32
  runtime_flags :: u32
  reserved_next_free_main :: BlockNumber
  reserved_next_free_fsm :: BlockNumber
  reserved_next_free_vm :: BlockNumber
  extending_target_main :: BlockNumber
  extending_target_fsm :: BlockNumber
  extending_target_vm :: BlockNumber
  reclaim_boundary_main :: BlockNumber
  reclaim_boundary_fsm :: BlockNumber
  reclaim_boundary_vm :: BlockNumber
  next_free_slot :: free_next
  in_use :: bool

record map_super = um_fs +
  MapSuperEntries :: "MapSuperEntry list"
  MapSuperIndex :: "MapSuperIndexSlot list"
  free_head :: free_next
  MapSuperIndexCapacityPerPartition :: nat

definition zero_superblock :: MapSuperblock where
  "zero_superblock = \<lparr>sb_magic = 0, sb_version = 0, sb_blcksz = 0, sb_flags = 0,
     next_free_phys_block_main = 0, phys_capacity_main = 0,
     next_free_phys_block_fsm = 0, phys_capacity_fsm = 0,
     next_free_phys_block_vm = 0, phys_capacity_vm = 0,
     logical_nblocks_main = 0, logical_nblocks_fsm = 0, logical_nblocks_vm = 0,
     last_updated_lsn = 0, sb_crc = 0, sb_padding = replicate 112 0\<rparr>"

text \<open>The loop \<^verbatim>\<open>while (index_capacity < target) index_capacity <<= 1\<close>; the exponent is bounded by the
  target itself.\<close>

primrec index_capacity_loop :: "nat \<Rightarrow> nat \<Rightarrow> nat \<Rightarrow> nat" where
  "index_capacity_loop 0 target cap = cap"
| "index_capacity_loop (Suc n) target cap =
     (if cap < target then index_capacity_loop n target (2 * cap) else cap)"

definition MapSuperIndexCapacityForPartition :: "nat \<Rightarrow> nat" where
  "MapSuperIndexCapacityForPartition capacity =
     (let target = (2 * capacity + MAP_SUPER_NPARTITIONS - 1) div MAP_SUPER_NPARTITIONS
      in index_capacity_loop target target 1)"

definition MapSuperPartitionForHash :: "u32 \<Rightarrow> nat" where
  "MapSuperPartitionForHash hashcode = unat (hashcode AND of_nat (MAP_SUPER_NPARTITIONS - 1))"

definition MapSuperEntryBySlot :: "'x map_super_scheme \<Rightarrow> nat \<Rightarrow> MapSuperEntry" where
  "MapSuperEntryBySlot s slot = MapSuperEntries s ! slot"

definition upd_entry ::
  "nat \<Rightarrow> (MapSuperEntry \<Rightarrow> MapSuperEntry) \<Rightarrow> 'x map_super_scheme \<Rightarrow> 'x map_super_scheme" where
  "upd_entry slot f s =
     s\<lparr>MapSuperEntries := (MapSuperEntries s)[slot := f (MapSuperEntries s ! slot)]\<rparr>"

text \<open>The probe loop: the slot found, if any, and the bucket for an insertion, if any. The number of
  buckets of a partition bounds it as in the source.\<close>

primrec MapSuperLookupLoop ::
  "nat \<Rightarrow> 'x map_super_scheme \<Rightarrow> RelFileLocator \<Rightarrow> nat \<Rightarrow> nat \<Rightarrow> nat option \<Rightarrow>
   nat option \<times> nat option" where
  "MapSuperLookupLoop 0 s rnode base bucket first_deleted =
     (None, map_option (\<lambda>d. base + d) first_deleted)"
| "MapSuperLookupLoop (Suc n) s rnode base bucket first_deleted =
     (let next = (bucket + 1) AND (MapSuperIndexCapacityPerPartition s - 1) in
      case MapSuperIndex s ! (base + bucket) of
        INDEX_EMPTY \<Rightarrow>
          (None, Some (case first_deleted of Some d \<Rightarrow> base + d | None \<Rightarrow> base + bucket))
      | INDEX_DELETED \<Rightarrow>
          MapSuperLookupLoop n s rnode base next
            (if first_deleted = None then Some bucket else first_deleted)
      | INDEX_SLOT slot \<Rightarrow>
          (let entry = MapSuperEntryBySlot s slot in
           if in_use entry \<and> RelFileLocatorEquals (key entry) rnode
           then (Some slot, Some (base + bucket))
           else MapSuperLookupLoop n s rnode base next first_deleted))"

definition MapSuperLookupSlotLocked ::
  "'x map_super_scheme \<Rightarrow> RelFileLocator \<Rightarrow> u32 \<Rightarrow> nat \<Rightarrow> nat option \<times> nat option" where
  "MapSuperLookupSlotLocked s rnode hashcode part =
     (let cap = MapSuperIndexCapacityPerPartition s;
          mask = cap - 1;
          base = part * cap;
          bucket = unat (drop_bit MAP_SUPER_NPARTITION_BITS hashcode) AND mask
      in MapSuperLookupLoop cap s rnode base bucket None)"

definition MapSuperFindEntryLocked ::
  "RelFileLocator \<Rightarrow> ('x map_super_scheme, nat option) um" where
  "MapSuperFindEntryLocked rnode =
     getU (\<lambda>s. let hashcode = MapSuperHashCode rnode;
                   part = MapSuperPartitionForHash hashcode
               in fst (MapSuperLookupSlotLocked s rnode hashcode part))"

text \<open>The conditional variant; \<open>busy\<close> says that another backend holds the entry lock.\<close>

definition MapSuperFindEntryTryLocked ::
  "bool \<Rightarrow> RelFileLocator \<Rightarrow> ('x map_super_scheme, nat option) um" where
  "MapSuperFindEntryTryLocked busy rnode =
     getU (\<lambda>s. let hashcode = MapSuperHashCode rnode;
                   part = MapSuperPartitionForHash hashcode
               in case fst (MapSuperLookupSlotLocked s rnode hashcode part) of
                    None \<Rightarrow> None
                  | Some slot \<Rightarrow> if busy then None else Some slot)"

definition reset_entry :: "RelFileLocator \<Rightarrow> MapSuperEntry \<Rightarrow> MapSuperEntry" where
  "reset_entry rnode e = e\<lparr>next_free_slot := FREENEXT_NOT_IN_LIST, in_use := True, key := rnode,
     super := zero_superblock, page_lsn := 0, flags := 0, runtime_flags := 0,
     reserved_next_free_main := 0, reserved_next_free_fsm := 0, reserved_next_free_vm := 0,
     extending_target_main := InvalidBlockNumber, extending_target_fsm := InvalidBlockNumber,
     extending_target_vm := InvalidBlockNumber,
     reclaim_boundary_main := 0, reclaim_boundary_fsm := 0, reclaim_boundary_vm := 0\<rparr>"

definition MapSuperEnsureEntryLocked :: "RelFileLocator \<Rightarrow> ('x map_super_scheme, nat) um" where
  "MapSuperEnsureEntryLocked rnode =
     (let hashcode = MapSuperHashCode rnode;
          part = MapSuperPartitionForHash hashcode
      in
      bindU (getU (\<lambda>s. MapSuperLookupSlotLocked s rnode hashcode part)) (\<lambda>(slot, insert_bucket).
        case slot of
          Some slot_id \<Rightarrow> returnU slot_id
        | None \<Rightarrow>
            (case insert_bucket of
               None \<Rightarrow> throwU (ERROR, E_TABLE_FULL)
             | Some bucket \<Rightarrow>
                 bindU (getU free_head) (\<lambda>head.
                   case head of
                     FREENEXT_SLOT slot_id \<Rightarrow>
                       bindU (modifyU (\<lambda>s.
                         s\<lparr>free_head := next_free_slot (MapSuperEntryBySlot s slot_id)\<rparr>)) (\<lambda>_.
                       bindU (modifyU (upd_entry slot_id (reset_entry rnode))) (\<lambda>_.
                       bindU (modifyU (\<lambda>s.
                         s\<lparr>MapSuperIndex := (MapSuperIndex s)[bucket := INDEX_SLOT slot_id]\<rparr>)) (\<lambda>_.
                       returnU slot_id)))
                   | _ \<Rightarrow> throwU (ERROR, E_TABLE_FULL)))))"

definition clear_entry :: "free_next \<Rightarrow> MapSuperEntry \<Rightarrow> MapSuperEntry" where
  "clear_entry head e = e\<lparr>flags := 0, runtime_flags := 0, page_lsn := 0,
     reserved_next_free_main := 0, reserved_next_free_fsm := 0, reserved_next_free_vm := 0,
     extending_target_main := InvalidBlockNumber, extending_target_fsm := InvalidBlockNumber,
     extending_target_vm := InvalidBlockNumber,
     reclaim_boundary_main := 0, reclaim_boundary_fsm := 0, reclaim_boundary_vm := 0,
     in_use := False, next_free_slot := head\<rparr>"

definition MapSuperDeleteEntry :: "RelFileLocator \<Rightarrow> ('x map_super_scheme, unit) um" where
  "MapSuperDeleteEntry rnode =
     (let hashcode = MapSuperHashCode rnode;
          part = MapSuperPartitionForHash hashcode
      in
      bindU (getU (\<lambda>s. MapSuperLookupSlotLocked s rnode hashcode part)) (\<lambda>(slot, bucket).
        case (slot, bucket) of
          (Some slot_id, Some b) \<Rightarrow>
            bindU (getU free_head) (\<lambda>head.
            bindU (modifyU (upd_entry slot_id (clear_entry head))) (\<lambda>_.
            bindU (modifyU (\<lambda>s. s\<lparr>free_head := FREENEXT_SLOT slot_id\<rparr>)) (\<lambda>_.
            modifyU (\<lambda>s. s\<lparr>MapSuperIndex := (MapSuperIndex s)[b := INDEX_DELETED]\<rparr>))))
        | _ \<Rightarrow> returnU ()))"

text \<open>The table at server start.\<close>

definition fresh_entry :: "nat \<Rightarrow> nat \<Rightarrow> MapSuperEntry" where
  "fresh_entry capacity i = \<lparr>key = \<lparr>spcOid = 0, dbOid = 0, relNumber = 0\<rparr>,
     super = zero_superblock, page_lsn = 0, flags = 0, runtime_flags = 0,
     reserved_next_free_main = 0, reserved_next_free_fsm = 0, reserved_next_free_vm = 0,
     extending_target_main = InvalidBlockNumber, extending_target_fsm = InvalidBlockNumber,
     extending_target_vm = InvalidBlockNumber,
     reclaim_boundary_main = 0, reclaim_boundary_fsm = 0, reclaim_boundary_vm = 0,
     next_free_slot = (if i = capacity - 1 then FREENEXT_END else FREENEXT_SLOT (i + 1)),
     in_use = False\<rparr>"

definition MapSuperTableShmemInit :: "nat \<Rightarrow> ('x map_super_scheme, unit) um" where
  "MapSuperTableShmemInit map_superblocks =
     (let capacity = max map_superblocks MAP_SUPERBLOCK_MIN_ENTRIES;
          index_capacity = MapSuperIndexCapacityForPartition capacity;
          total_index_slots = index_capacity * MAP_SUPER_NPARTITIONS
      in modifyU (\<lambda>s. s\<lparr>
           MapSuperEntries := map (fresh_entry capacity) [0..<capacity],
           MapSuperIndex := replicate total_index_slots INDEX_EMPTY,
           free_head := FREENEXT_SLOT 0,
           MapSuperIndexCapacityPerPartition := index_capacity\<rparr>))"

subsection \<open>The hash mixes reversibly\<close>

lemma mix_line_inverse:
  "(\<lambda>(x, y, z). ((x XOR pg_rotate_left32 (z - y) k) + (z - y), y, z - y)) (mix_line k t) = t"
  by (cases t) (simp add: mix_line_def xor.assoc)

lemma inj_mix_line: "inj (mix_line k)"
  using mix_line_inverse by (rule inj_on_inverseI)

definition turn :: "u32 \<times> u32 \<times> u32 \<Rightarrow> u32 \<times> u32 \<times> u32" where
  "turn = (\<lambda>(x, y, z). (y, z, x))"

lemma inj_turn: "inj turn"
  by (auto simp: turn_def inj_def)

lemma mix_lines:
  "mix = turn \<circ> mix_line 4 \<circ> turn \<circ> mix_line 19 \<circ> turn \<circ> mix_line 16 \<circ>
         turn \<circ> mix_line 8 \<circ> turn \<circ> mix_line 6 \<circ> turn \<circ> mix_line 4"
  by (auto simp: mix_def turn_def fun_eq_iff split: prod.splits)

lemma inj_mix: "inj mix"
  unfolding mix_lines by (intro inj_compose inj_turn inj_mix_line)

subsection \<open>Probe sequences\<close>

abbreviation super_cap :: "'x map_super_scheme \<Rightarrow> nat" where
  "super_cap s \<equiv> MapSuperIndexCapacityPerPartition s"

definition super_part :: "RelFileLocator \<Rightarrow> nat" where
  "super_part rnode = MapSuperPartitionForHash (MapSuperHashCode rnode)"

definition super_home :: "RelFileLocator \<Rightarrow> nat" where
  "super_home rnode = unat (drop_bit MAP_SUPER_NPARTITION_BITS (MapSuperHashCode rnode))"

text \<open>The index position of the \<open>j\<close>-th probe for a relation.\<close>

definition probe :: "nat \<Rightarrow> RelFileLocator \<Rightarrow> nat \<Rightarrow> nat" where
  "probe cap rnode j = super_part rnode * cap + (super_home rnode + j) mod cap"

definition owns :: "MapSuperEntry list \<Rightarrow> nat \<Rightarrow> RelFileLocator \<Rightarrow> bool" where
  "owns es i rnode \<longleftrightarrow> i < length es \<and> in_use (es ! i) \<and> key (es ! i) = rnode"

primrec free_chain :: "MapSuperEntry list \<Rightarrow> free_next \<Rightarrow> nat list \<Rightarrow> bool" where
  "free_chain es h [] \<longleftrightarrow> h = FREENEXT_END"
| "free_chain es h (i # is) \<longleftrightarrow> h = FREENEXT_SLOT i \<and> free_chain es (next_free_slot (es ! i)) is"

definition index_sound :: "MapSuperEntry list \<Rightarrow> MapSuperIndexSlot list \<Rightarrow> bool" where
  "index_sound es ix \<longleftrightarrow>
     (\<forall>p i. p < length ix \<and> ix ! p = INDEX_SLOT i \<longrightarrow> i < length es \<and> in_use (es ! i)) \<and>
     (\<forall>p q i. p < length ix \<and> q < length ix \<and> ix ! p = INDEX_SLOT i \<and> ix ! q = INDEX_SLOT i \<longrightarrow> p = q)"

definition reachable :: "nat \<Rightarrow> MapSuperIndexSlot list \<Rightarrow> RelFileLocator \<Rightarrow> nat \<Rightarrow> bool" where
  "reachable cap ix rnode i \<longleftrightarrow>
     (\<exists>j < cap. ix ! probe cap rnode j = INDEX_SLOT i \<and> (\<forall>j' < j. ix ! probe cap rnode j' \<noteq> INDEX_EMPTY))"

definition entries_ok :: "MapSuperEntry list \<Rightarrow> free_next \<Rightarrow> bool" where
  "entries_ok es h \<longleftrightarrow>
     (\<forall>i j r. owns es i r \<and> owns es j r \<longrightarrow> i = j) \<and>
     (\<exists>fl. free_chain es h fl \<and> distinct fl \<and> set fl = {i. i < length es \<and> \<not> in_use (es ! i)})"

definition super_ok :: "'x map_super_scheme \<Rightarrow> bool" where
  "super_ok s \<longleftrightarrow>
     (\<exists>k. super_cap s = 2 ^ k) \<and>
     length (MapSuperIndex s) = MAP_SUPER_NPARTITIONS * super_cap s \<and>
     index_sound (MapSuperEntries s) (MapSuperIndex s) \<and>
     (\<forall>i r. owns (MapSuperEntries s) i r \<longrightarrow> reachable (super_cap s) (MapSuperIndex s) r i) \<and>
     entries_ok (MapSuperEntries s) (free_head s)"

lemma and_pow2_mask: "(a::nat) AND (2 ^ k - 1) = a mod 2 ^ k"
  using take_bit_eq_mask [of k a] by (simp add: mask_eq_exp_minus_1 take_bit_eq_mod)

lemma super_okD:
  assumes "super_ok s"
  obtains k where "super_cap s = 2 ^ k"
  using assms by (auto simp: super_ok_def)

lemma super_cap_pos: "super_ok s \<Longrightarrow> 0 < super_cap s"
  by (auto simp: super_ok_def)

lemma super_part_less: "super_part r < MAP_SUPER_NPARTITIONS"
proof -
  have "MapSuperHashCode r AND 127 \<le> 127" by (rule word_and_le1)
  then show ?thesis
    by (simp add: super_part_def MapSuperPartitionForHash_def MAP_SUPER_NPARTITIONS_def
        word_le_nat_alt)
qed

lemma probe_less:
  assumes "super_ok s"
  shows "probe (super_cap s) r j < length (MapSuperIndex s)"
proof -
  let ?c = "super_cap s"
  have "(super_home r + j) mod ?c < ?c"
    using super_cap_pos [OF assms] by simp
  moreover have "super_part r * ?c + ?c \<le> MAP_SUPER_NPARTITIONS * ?c"
    using mult_le_mono1 [of "Suc (super_part r)" MAP_SUPER_NPARTITIONS ?c] super_part_less [of r]
    by simp
  ultimately show ?thesis
    using assms by (simp add: probe_def super_ok_def)
qed

subsection \<open>The probe loop\<close>

lemma probe_next:
  assumes "super_cap s = 2 ^ k"
  shows "((super_home r + j) mod super_cap s + 1) AND (super_cap s - 1) = (super_home r + Suc j) mod super_cap s"
  unfolding assms and_pow2_mask by (simp add: mod_Suc_eq)

lemma lookup_loop_spec:
  fixes s :: "'x map_super_scheme" and r :: RelFileLocator
  defines "cap \<equiv> super_cap s" and "P \<equiv> \<lambda>j. MapSuperIndex s ! probe (super_cap s) r j"
  defines "hit \<equiv> \<lambda>i. in_use (MapSuperEntries s ! i) \<and> key (MapSuperEntries s ! i) = r"
  assumes k: "super_cap s = 2 ^ k" and "j + n = cap"
    and "\<And>j'. j' < j \<Longrightarrow> P j' \<noteq> INDEX_EMPTY \<and> (\<forall>i. P j' = INDEX_SLOT i \<longrightarrow> \<not> hit i)"
    and "case fd of None \<Rightarrow> \<forall>j' < j. P j' \<noteq> INDEX_DELETED
         | Some d \<Rightarrow> \<exists>j' < j. super_part r * cap + d = probe cap r j' \<and> P j' = INDEX_DELETED"
  shows "case MapSuperLookupLoop n s r (super_part r * cap) ((super_home r + j) mod cap) fd of
     (Some i, b) \<Rightarrow> \<exists>j < cap. P j = INDEX_SLOT i \<and> hit i \<and> b = Some (probe cap r j)
   | (None, Some b) \<Rightarrow> (\<exists>j < cap. b = probe cap r j \<and> (P j = INDEX_EMPTY \<or> P j = INDEX_DELETED) \<and>
         (\<forall>j' < j. P j' \<noteq> INDEX_EMPTY)) \<and>
       (\<forall>j < cap. \<forall>i. P j = INDEX_SLOT i \<and> hit i \<longrightarrow> (\<exists>j' < j. P j' = INDEX_EMPTY))
   | (None, None) \<Rightarrow> (\<forall>j < cap. \<exists>i. P j = INDEX_SLOT i \<and> \<not> hit i)"
  using assms(5-7)
proof (induction n arbitrary: j fd)
  case 0
  then have "P j' = INDEX_DELETED \<or> (\<exists>i. P j' = INDEX_SLOT i \<and> \<not> hit i)" if "j' < cap" for j'
    using that by (cases "P j'") auto
  with 0 show ?case
    by (cases fd) fastforce+
next
  case (Suc n)
  have j: "j < cap" using Suc.prems(1) by simp
  have pj: "super_part r * cap + (super_home r + j) mod cap = probe cap r j"
    by (simp add: probe_def)
  have nxt: "((super_home r + j) mod cap + 1) AND (super_cap s - 1) = (super_home r + Suc j) mod cap"
    using probe_next [OF k] by (simp add: cap_def)
  let ?loop = "\<lambda>fd. MapSuperLookupLoop n s r (super_part r * cap) ((super_home r + Suc j) mod cap) fd"
  have step: "MapSuperLookupLoop (Suc n) s r (super_part r * cap) ((super_home r + j) mod cap) fd =
     (case P j of
        INDEX_EMPTY \<Rightarrow> (None, Some (case fd of Some d \<Rightarrow> super_part r * cap + d | None \<Rightarrow> probe cap r j))
      | INDEX_DELETED \<Rightarrow> ?loop (if fd = None then Some ((super_home r + j) mod cap) else fd)
      | INDEX_SLOT i \<Rightarrow> if hit i then (Some i, Some (probe cap r j)) else ?loop fd)"
    unfolding MapSuperLookupLoop.simps Let_def pj nxt
    by (simp add: P_def hit_def cap_def [symmetric] MapSuperEntryBySlot_def split: MapSuperIndexSlot.split)
  show ?case
  proof (cases "P j")
    case INDEX_EMPTY
    have "\<exists>j' < cap. (case fd of Some d \<Rightarrow> super_part r * cap + d | None \<Rightarrow> probe cap r j) = probe cap r j' \<and>
        (P j' = INDEX_EMPTY \<or> P j' = INDEX_DELETED) \<and> (\<forall>j'' < j'. P j'' \<noteq> INDEX_EMPTY)"
      using Suc.prems(2,3) INDEX_EMPTY j by (cases fd) (auto intro: less_trans)
    moreover have "\<exists>j'' < j'. P j'' = INDEX_EMPTY" if "P j' = INDEX_SLOT i" "hit i" for j' i
      using Suc.prems(2) that INDEX_EMPTY
      by (metis MapSuperIndexSlot.distinct(3) linorder_neqE_nat)
    ultimately show ?thesis
      unfolding step INDEX_EMPTY by simp
  next
    case INDEX_DELETED
    have "case if fd = None then Some ((super_home r + j) mod cap) else fd of
        None \<Rightarrow> \<forall>j' < Suc j. P j' \<noteq> INDEX_DELETED
      | Some d \<Rightarrow> \<exists>j' < Suc j. super_part r * cap + d = probe cap r j' \<and> P j' = INDEX_DELETED"
      using Suc.prems(3) INDEX_DELETED pj by (cases fd) (auto intro: less_SucI)
    then show ?thesis
      unfolding step INDEX_DELETED MapSuperIndexSlot.case using Suc.prems(1,2) INDEX_DELETED
      by (intro Suc.IH) (auto simp: less_Suc_eq)
  next
    case (INDEX_SLOT i)
    show ?thesis
    proof (cases "hit i")
      case True
      then show ?thesis
        unfolding step INDEX_SLOT using INDEX_SLOT j by auto
    next
      case False
      have "case fd of None \<Rightarrow> \<forall>j' < Suc j. P j' \<noteq> INDEX_DELETED
        | Some d \<Rightarrow> \<exists>j' < Suc j. super_part r * cap + d = probe cap r j' \<and> P j' = INDEX_DELETED"
        using Suc.prems(3) INDEX_SLOT by (cases fd) (auto intro: less_SucI simp: less_Suc_eq)
      then show ?thesis
        unfolding step INDEX_SLOT MapSuperIndexSlot.case if_not_P [OF False]
        using Suc.prems(1,2) INDEX_SLOT False by (intro Suc.IH) (auto simp: less_Suc_eq)
    qed
  qed
qed

definition super_slot_lookup ::
  "'x map_super_scheme \<Rightarrow> RelFileLocator \<Rightarrow> nat option \<times> nat option" where
  "super_slot_lookup s r = MapSuperLookupSlotLocked s r (MapSuperHashCode r)
     (MapSuperPartitionForHash (MapSuperHashCode r))"

text \<open>A bucket where an entry of \<open>r\<close> can be inserted so that its probe sequence reaches it.\<close>

definition insertable :: "'x map_super_scheme \<Rightarrow> RelFileLocator \<Rightarrow> nat \<Rightarrow> bool" where
  "insertable s r b \<longleftrightarrow> (\<exists>j < super_cap s. b = probe (super_cap s) r j \<and>
     (MapSuperIndex s ! b = INDEX_EMPTY \<or> MapSuperIndex s ! b = INDEX_DELETED) \<and>
     (\<forall>j' < j. MapSuperIndex s ! probe (super_cap s) r j' \<noteq> INDEX_EMPTY))"

definition lookup_result ::
  "'x map_super_scheme \<Rightarrow> RelFileLocator \<Rightarrow> nat option \<times> nat option \<Rightarrow> bool" where
  "lookup_result s r x \<longleftrightarrow>
     (let cap = super_cap s;
          P = \<lambda>j. MapSuperIndex s ! probe cap r j;
          hit = \<lambda>i. in_use (MapSuperEntries s ! i) \<and> key (MapSuperEntries s ! i) = r
      in case x of
        (Some i, b) \<Rightarrow> \<exists>j < cap. P j = INDEX_SLOT i \<and> hit i \<and> b = Some (probe cap r j)
      | (None, Some b) \<Rightarrow> (\<exists>j < cap. b = probe cap r j \<and> (P j = INDEX_EMPTY \<or> P j = INDEX_DELETED) \<and>
            (\<forall>j' < j. P j' \<noteq> INDEX_EMPTY)) \<and>
          (\<forall>j < cap. \<forall>i. P j = INDEX_SLOT i \<and> hit i \<longrightarrow> (\<exists>j' < j. P j' = INDEX_EMPTY))
      | (None, None) \<Rightarrow> (\<forall>j < cap. \<exists>i. P j = INDEX_SLOT i \<and> \<not> hit i))"

lemma lookup_spec:
  assumes ok: "super_ok s"
  shows "case super_slot_lookup s r of
     (Some i, b) \<Rightarrow> owns (MapSuperEntries s) i r \<and>
        (\<exists>p < length (MapSuperIndex s). b = Some p \<and> MapSuperIndex s ! p = INDEX_SLOT i)
   | (None, b) \<Rightarrow> (\<forall>i. \<not> owns (MapSuperEntries s) i r) \<and>
        (case b of Some p \<Rightarrow> insertable s r p
         | None \<Rightarrow> \<forall>j < super_cap s. \<exists>i. MapSuperIndex s ! probe (super_cap s) r j = INDEX_SLOT i)"
proof -
  let ?cap = "super_cap s" and ?ix = "MapSuperIndex s" and ?es = "MapSuperEntries s"
  obtain k where k: "?cap = 2 ^ k" using super_okD [OF ok] .
  have "super_slot_lookup s r =
      MapSuperLookupLoop ?cap s r (super_part r * ?cap) (super_home r AND (?cap - 1)) None"
    unfolding super_slot_lookup_def MapSuperLookupSlotLocked_def Let_def super_part_def super_home_def ..
  also have "super_home r AND (?cap - 1) = (super_home r + 0) mod ?cap"
    unfolding k and_pow2_mask by simp
  finally have eq: "super_slot_lookup s r =
      MapSuperLookupLoop ?cap s r (super_part r * ?cap) ((super_home r + 0) mod ?cap) None" .
  have spec: "lookup_result s r (super_slot_lookup s r)"
    unfolding eq lookup_result_def Let_def by (rule lookup_loop_spec [OF k]) simp_all
  have sound: "i < length ?es" if "?ix ! probe ?cap r j = INDEX_SLOT i" for i j
    using ok probe_less [OF ok, of r j] that by (auto simp: super_ok_def index_sound_def)
  have reach: "reachable ?cap ?ix r i" if "owns ?es i r" for i
    using ok that by (simp add: super_ok_def)
  obtain q b where res: "super_slot_lookup s r = (q, b)" by fastforce
  show ?thesis
  proof (cases q)
    case (Some i)
    then obtain j where "?ix ! probe ?cap r j = INDEX_SLOT i" "in_use (?es ! i)" "key (?es ! i) = r"
      "b = Some (probe ?cap r j)"
      using spec by (auto simp: res lookup_result_def Let_def)
    then show ?thesis
      using Some sound probe_less [OF ok, of r j] by (auto simp: res owns_def)
  next
    case None
    have "\<not> owns ?es i r" for i
    proof
      assume own: "owns ?es i r"
      then obtain j where j: "j < ?cap" "?ix ! probe ?cap r j = INDEX_SLOT i"
        "\<forall>j' < j. ?ix ! probe ?cap r j' \<noteq> INDEX_EMPTY"
        using reach by (auto simp: reachable_def)
      have hit: "in_use (?es ! i) \<and> key (?es ! i) = r"
        using own by (simp add: owns_def)
      show False
      proof (cases b)
        case None
        then have "\<exists>i'. ?ix ! probe ?cap r j = INDEX_SLOT i' \<and>
            \<not> (in_use (?es ! i') \<and> key (?es ! i') = r)"
          using spec \<open>q = None\<close> j(1) unfolding lookup_result_def Let_def res by simp
        then show False using j(2) hit by simp
      next
        case (Some b')
        then have "\<exists>j' < j. ?ix ! probe ?cap r j' = INDEX_EMPTY"
          using spec None j(1,2) hit unfolding lookup_result_def Let_def res by simp
        then show False using j(3) by blast
      qed
    qed
    then show ?thesis
      using spec None by (cases b) (auto simp: res insertable_def lookup_result_def Let_def)
  qed
qed

subsection \<open>Every operation keeps the invariant\<close>

text \<open>The entry stored for a relation.\<close>

definition super_lookup :: "'x map_super_scheme \<Rightarrow> RelFileLocator \<Rightarrow> MapSuperEntry option" where
  "super_lookup s r = find (\<lambda>e. in_use e \<and> key e = r) (MapSuperEntries s)"

lemma owns_super_lookup:
  assumes "entries_ok (MapSuperEntries s) h" and "owns (MapSuperEntries s) i r"
  shows "super_lookup s r = Some (MapSuperEntries s ! i)"
proof -
  let ?es = "MapSuperEntries s"
  have "super_lookup s r \<noteq> None"
    using assms(2) by (auto simp: super_lookup_def find_None_iff owns_def in_set_conv_nth)
  then obtain j where "owns ?es j r" "super_lookup s r = Some (?es ! j)"
    by (auto simp: super_lookup_def find_Some_iff owns_def)
  then show ?thesis
    using assms by (metis entries_ok_def)
qed

lemma no_owner_super_lookup: "(\<forall>i. \<not> owns (MapSuperEntries s) i r) \<longleftrightarrow> super_lookup s r = None"
  by (auto simp: super_lookup_def find_None_iff owns_def in_set_conv_nth)

lemma super_lookup_Some:
  assumes "entries_ok (MapSuperEntries s) h"
  shows "super_lookup s r = Some e \<longleftrightarrow> (\<exists>i. owns (MapSuperEntries s) i r \<and> MapSuperEntries s ! i = e)"
  using owns_super_lookup [OF assms] no_owner_super_lookup [of s r] by fastforce

lemma free_chain_cong:
  "free_chain es h fl \<Longrightarrow> \<forall>i \<in> set fl. next_free_slot (es' ! i) = next_free_slot (es ! i) \<Longrightarrow>
   free_chain es' h fl"
  by (induction fl arbitrary: h) auto

lemma owns_update:
  assumes "i < length es"
  shows "owns (es[i := e]) j r \<longleftrightarrow> (if j = i then in_use e \<and> key e = r else owns es j r)"
  using assms by (auto simp: owns_def)

text \<open>Taking the head of the free list for a new relation, and putting an entry back.\<close>

lemma entries_ok_take:
  assumes ok: "entries_ok es (FREENEXT_SLOT i)" and new: "\<And>j. \<not> owns es j (key e)"
    and e: "in_use e"
  shows "i < length es" "\<not> in_use (es ! i)"
    "entries_ok (es[i := e]) (next_free_slot (es ! i))"
proof -
  obtain fl where fl: "free_chain es (FREENEXT_SLOT i) fl" "distinct fl"
    "set fl = {i. i < length es \<and> \<not> in_use (es ! i)}"
    using ok by (auto simp: entries_ok_def)
  have mem: "j \<in> set fl \<longleftrightarrow> j < length es \<and> \<not> in_use (es ! j)" for j
    using fl(3) by blast
  obtain fl' where fl': "fl = i # fl'" using fl(1) by (cases fl) auto
  show i: "i < length es" "\<not> in_use (es ! i)"
    using mem [of i] fl' by simp_all
  have chain: "free_chain es (next_free_slot (es ! i)) fl'" and i': "i \<notin> set fl'"
    using fl(1,2) fl' by simp_all
  then have "free_chain (es[i := e]) (next_free_slot (es ! i)) fl'"
    by (intro free_chain_cong [OF chain]) (metis nth_list_update_neq)
  moreover have "set fl' = {j. j < length (es[i := e]) \<and> \<not> in_use (es[i := e] ! j)}"
  proof (intro set_eqI iffI)
    fix j
    show "j \<in> {j. j < length (es[i := e]) \<and> \<not> in_use (es[i := e] ! j)}" if "j \<in> set fl'"
      using that mem [of j] fl' i' by (cases "j = i") simp_all
    show "j \<in> set fl'" if "j \<in> {j. j < length (es[i := e]) \<and> \<not> in_use (es[i := e] ! j)}"
      using that mem [of j] fl' i e by (cases "j = i") simp_all
  qed
  ultimately have "\<exists>fl. free_chain (es[i := e]) (next_free_slot (es ! i)) fl \<and> distinct fl \<and>
      set fl = {j. j < length (es[i := e]) \<and> \<not> in_use (es[i := e] ! j)}"
    using fl(2) fl' by auto
  then show "entries_ok (es[i := e]) (next_free_slot (es ! i))"
    using ok new i unfolding entries_ok_def owns_update [OF i(1)] by (auto split: if_splits)
qed

lemma entries_ok_put:
  assumes ok: "entries_ok es h" and i: "i < length es" "in_use (es ! i)"
    and e: "\<not> in_use e" "next_free_slot e = h"
  shows "entries_ok (es[i := e]) (FREENEXT_SLOT i)"
proof -
  obtain fl where fl: "free_chain es h fl" "distinct fl"
    "set fl = {i. i < length es \<and> \<not> in_use (es ! i)}"
    using ok by (auto simp: entries_ok_def)
  have mem: "j \<in> set fl \<longleftrightarrow> j < length es \<and> \<not> in_use (es ! j)" for j
    using fl(3) by blast
  then have "i \<notin> set fl" using i by simp
  then have "free_chain (es[i := e]) h fl"
    by (intro free_chain_cong [OF fl(1)]) (metis nth_list_update_neq)
  then have "free_chain (es[i := e]) (FREENEXT_SLOT i) (i # fl)"
    using i e by simp
  moreover have "distinct (i # fl)" using fl(2) \<open>i \<notin> set fl\<close> by simp
  moreover have "set (i # fl) = {j. j < length (es[i := e]) \<and> \<not> in_use (es[i := e] ! j)}"
    (is "_ = ?R")
  proof (intro set_eqI)
    fix j
    show "j \<in> set (i # fl) \<longleftrightarrow> j \<in> ?R"
      using mem [of j] i e by (cases "j = i") simp_all
  qed
  ultimately have "\<exists>fl. free_chain (es[i := e]) (FREENEXT_SLOT i) fl \<and> distinct fl \<and>
      set fl = {j. j < length (es[i := e]) \<and> \<not> in_use (es[i := e] ! j)}"
    by blast
  then show ?thesis
    using ok e unfolding entries_ok_def owns_update [OF i(1)] by (auto split: if_splits)
qed

lemma reachable_update:
  assumes "reachable cap ix r i" and "b < length ix"
    and "ix ! b \<noteq> INDEX_SLOT i" and "v \<noteq> INDEX_EMPTY"
  shows "reachable cap (ix[b := v]) r i"
  using assms unfolding reachable_def by (metis nth_list_update_eq nth_list_update_neq)

definition inserted ::
  "'x map_super_scheme \<Rightarrow> RelFileLocator \<Rightarrow> nat \<Rightarrow> nat \<Rightarrow> 'x map_super_scheme" where
  "inserted s r b i = s\<lparr>
     MapSuperEntries := (MapSuperEntries s)[i := reset_entry r (MapSuperEntries s ! i)],
     MapSuperIndex := (MapSuperIndex s)[b := INDEX_SLOT i],
     free_head := next_free_slot (MapSuperEntries s ! i)\<rparr>"

definition deleted :: "'x map_super_scheme \<Rightarrow> nat \<Rightarrow> nat \<Rightarrow> 'x map_super_scheme" where
  "deleted s b i = s\<lparr>
     MapSuperEntries := (MapSuperEntries s)[i := clear_entry (free_head s) (MapSuperEntries s ! i)],
     MapSuperIndex := (MapSuperIndex s)[b := INDEX_DELETED],
     free_head := FREENEXT_SLOT i\<rparr>"

lemma super_ok_inserted:
  assumes ok: "super_ok s" and ins: "insertable s r b"
    and new: "\<And>j. \<not> owns (MapSuperEntries s) j r" and free: "free_head s = FREENEXT_SLOT i"
  shows "super_ok (inserted s r b i)" and "owns (MapSuperEntries (inserted s r b i)) i r"
proof -
  let ?es = "MapSuperEntries s" and ?ix = "MapSuperIndex s" and ?e = "reset_entry r (MapSuperEntries s ! i)"
  have e: "in_use ?e" "key ?e = r" by (simp_all add: reset_entry_def)
  have es: "entries_ok ?es (FREENEXT_SLOT i)" using ok free by (simp add: super_ok_def)
  have new': "\<not> owns ?es j (key ?e)" for j using new e(2) by simp
  note take = entries_ok_take [OF es new' e(1)]
  obtain j where j: "j < super_cap s" "b = probe (super_cap s) r j"
    "?ix ! b = INDEX_EMPTY \<or> ?ix ! b = INDEX_DELETED"
    "\<And>j'. j' < j \<Longrightarrow> ?ix ! probe (super_cap s) r j' \<noteq> INDEX_EMPTY"
    using ins by (auto simp: insertable_def)
  have b: "b < length ?ix" using probe_less [OF ok] j(2) by simp
  have sound: "index_sound ?es ?ix" using ok by (simp add: super_ok_def)
  have fresh: "?ix ! p \<noteq> INDEX_SLOT i" if "p < length ?ix" for p
    using sound take(2) that by (auto simp: index_sound_def)
  have "index_sound (?es[i := ?e]) (?ix[b := INDEX_SLOT i])"
    using sound fresh b take(1) e(1) unfolding index_sound_def
    by (simp add: nth_list_update)
  moreover have "reachable (super_cap s) (?ix[b := INDEX_SLOT i]) r' i'"
    if own: "owns (?es[i := ?e]) i' r'" for r' i'
  proof (cases "i' = i")
    case True
    then have "r' = r" using own take(1) e(2) by (simp add: owns_update)
    moreover have "reachable (super_cap s) (?ix[b := INDEX_SLOT i]) r i"
      unfolding reachable_def
    proof (intro exI conjI allI impI)
      show "?ix[b := INDEX_SLOT i] ! probe (super_cap s) r j = INDEX_SLOT i" using b j(2) by simp
      fix j' assume "j' < j"
      then show "?ix[b := INDEX_SLOT i] ! probe (super_cap s) r j' \<noteq> INDEX_EMPTY"
        using j(4) b by (auto simp: nth_list_update)
    qed (rule j(1))
    ultimately show ?thesis using True by simp
  next
    case False
    then have "owns ?es i' r'" using own take(1) by (simp add: owns_update)
    then have "reachable (super_cap s) ?ix r' i'" using ok by (simp add: super_ok_def)
    then show ?thesis
      using b j(3) by (intro reachable_update) auto
  qed
  ultimately show "super_ok (inserted s r b i)"
    using ok take(3) by (simp add: super_ok_def inserted_def)
  show "owns (MapSuperEntries (inserted s r b i)) i r"
    using take(1) e by (simp add: inserted_def owns_update)
qed

lemma super_ok_deleted:
  assumes ok: "super_ok s" and own: "owns (MapSuperEntries s) i r"
    and b: "b < length (MapSuperIndex s)" "MapSuperIndex s ! b = INDEX_SLOT i"
  shows "super_ok (deleted s b i)"
proof -
  let ?es = "MapSuperEntries s" and ?ix = "MapSuperIndex s"
    and ?e = "clear_entry (free_head s) (MapSuperEntries s ! i)"
  have i: "i < length ?es" "in_use (?es ! i)" using own by (auto simp: owns_def)
  have e: "\<not> in_use ?e" "next_free_slot ?e = free_head s" by (simp_all add: clear_entry_def)
  have sound: "index_sound ?es ?ix" using ok by (simp add: super_ok_def)
  have "index_sound (?es[i := ?e]) (?ix[b := INDEX_DELETED])"
    using sound b i(1) unfolding index_sound_def
    by (simp add: nth_list_update) (metis MapSuperIndexSlot.distinct(5))
  moreover have "reachable (super_cap s) (?ix[b := INDEX_DELETED]) r' i'"
    if own': "owns (?es[i := ?e]) i' r'" for r' i'
  proof -
    have "i' \<noteq> i" "owns ?es i' r'" using own' i(1) e(1) by (auto simp: owns_update split: if_splits)
    moreover from this have "reachable (super_cap s) ?ix r' i'" using ok by (simp add: super_ok_def)
    ultimately show ?thesis
      using b by (intro reachable_update) auto
  qed
  moreover have "entries_ok (?es[i := ?e]) (FREENEXT_SLOT i)"
    using ok i e by (intro entries_ok_put) (auto simp: super_ok_def)
  ultimately show ?thesis
    using ok by (simp add: super_ok_def deleted_def)
qed

lemma super_lookup_inserted:
  assumes ok: "super_ok s" and ins: "insertable s r b"
    and new: "\<And>j. \<not> owns (MapSuperEntries s) j r" and free: "free_head s = FREENEXT_SLOT i"
  shows "super_lookup (inserted s r b i) = (super_lookup s)(r \<mapsto> reset_entry r (MapSuperEntries s ! i))"
    and "MapSuperEntries (inserted s r b i) ! i = reset_entry r (MapSuperEntries s ! i)"
proof -
  let ?es = "MapSuperEntries s" and ?t = "inserted s r b i"
  note t = super_ok_inserted [OF assms]
  have i: "i < length ?es" "\<not> in_use (?es ! i)"
    using t(2) entries_ok_take(2) [of ?es i "reset_entry r (?es ! i)"] ok free new
    by (auto simp: owns_def inserted_def super_ok_def reset_entry_def)
  show at: "MapSuperEntries ?t ! i = reset_entry r (?es ! i)"
    using i by (simp add: inserted_def)
  have ok': "entries_ok ?es (free_head s)" "entries_ok (MapSuperEntries ?t) (free_head ?t)"
    using ok t(1) by (simp_all add: super_ok_def)
  have "super_lookup ?t r' = super_lookup s r'" if "r' \<noteq> r" for r'
  proof -
    have "owns (MapSuperEntries ?t) j r' \<longleftrightarrow> owns ?es j r'" for j
      using i that by (cases "j = i") (simp_all add: inserted_def owns_update, simp_all add: owns_def reset_entry_def)
    moreover have "MapSuperEntries ?t ! j = ?es ! j" if "owns ?es j r'" for j
      using i that by (auto simp: inserted_def owns_def nth_list_update)
    ultimately have "super_lookup ?t r' = Some e \<longleftrightarrow> super_lookup s r' = Some e" for e
      unfolding super_lookup_Some [OF ok'(1)] super_lookup_Some [OF ok'(2)] by auto
    then show ?thesis by (metis not_None_eq)
  qed
  moreover have "super_lookup ?t r = Some (reset_entry r (?es ! i))"
    using owns_super_lookup [OF ok'(2) t(2)] at by simp
  ultimately show "super_lookup ?t = (super_lookup s)(r \<mapsto> reset_entry r (?es ! i))"
    by auto
qed

lemma super_lookup_deleted:
  assumes ok: "super_ok s" and own: "owns (MapSuperEntries s) i r"
    and b: "b < length (MapSuperIndex s)" "MapSuperIndex s ! b = INDEX_SLOT i"
  shows "super_lookup (deleted s b i) = (super_lookup s)(r := None)"
proof -
  let ?es = "MapSuperEntries s" and ?t = "deleted s b i"
  have ok': "entries_ok ?es (free_head s)" "entries_ok (MapSuperEntries ?t) (free_head ?t)"
    using ok super_ok_deleted [OF assms] by (simp_all add: super_ok_def)
  have i: "i < length ?es" using own by (simp add: owns_def)
  have owns: "owns (MapSuperEntries ?t) j r' \<longleftrightarrow> j \<noteq> i \<and> owns ?es j r'" for j r'
    using i by (auto simp: deleted_def owns_update clear_entry_def)
  have uniq: "j = i \<longleftrightarrow> r' = r" if "owns ?es j r'" for j r'
    using that own ok'(1) unfolding entries_ok_def by (metis owns_def)
  have val: "MapSuperEntries ?t ! j = ?es ! j" if "j \<noteq> i" for j
    using that by (simp add: deleted_def)
  have "super_lookup ?t r' = Some e \<longleftrightarrow> r' \<noteq> r \<and> super_lookup s r' = Some e" for r' e
    unfolding super_lookup_Some [OF ok'(1)] super_lookup_Some [OF ok'(2)]
    using owns uniq val by metis
  then have "super_lookup ?t r' = Some e \<longleftrightarrow> ((super_lookup s)(r := None)) r' = Some e" for r' e
    by simp
  then show ?thesis by (intro ext) (metis not_None_eq)
qed

subsection \<open>The table as a keyed store\<close>

text \<open>The contract of the table for the code above it: a finite map from keys to values, with slot
  numbers as handles.\<close>

locale keyed_table =
  fixes inv :: "'s \<Rightarrow> bool" and look :: "'s \<Rightarrow> 'k \<Rightarrow> 'v option" and val_at :: "'s \<Rightarrow> nat \<Rightarrow> 'v"
    and fresh :: "'k \<Rightarrow> 'v"
    and find_slot :: "'k \<Rightarrow> ('s, nat option) um"
    and ensure :: "'k \<Rightarrow> ('s, nat) um" and remove :: "'k \<Rightarrow> ('s, unit) um"
  assumes find_law: "inv s \<Longrightarrow> wpU (find_slot k) (\<lambda>res t. t = s \<and>
      (\<exists>x. res = Inr x \<and> map_option (val_at s) x = look s k)) s"
    and ensure_law: "inv s \<Longrightarrow> wpU (ensure k) (\<lambda>res t. inv t \<and> (case res of
        Inl e \<Rightarrow> t = s \<and> look s k = None
      | Inr i \<Rightarrow> look t k = Some (val_at t i) \<and>
          look t = (if look s k = None then (look s)(k \<mapsto> fresh k) else look s))) s"
    and remove_law: "inv s \<Longrightarrow> wpU (remove k) (\<lambda>res t. res = Inr () \<and> inv t \<and>
        look t = (look s)(k := None)) s"
begin

lemma find_after_ensure:
  assumes "inv s"
  shows "wpU (bindU (ensure k) (\<lambda>_. find_slot k')) (\<lambda>res t. \<forall>x. res = Inr x \<longrightarrow>
     map_option (val_at t) x =
       (if k' = k \<and> look s k = None then Some (fresh k) else look s k')) s"
proof (rule wpU_bindI [OF ensure_law [OF assms]], goal_cases)
  case (2 i t)
  then show ?case
    by (intro wpU_mono [OF find_law [of t k']]) (auto split: if_splits)
qed simp

lemma find_after_remove:
  assumes "inv s"
  shows "wpU (bindU (remove k) (\<lambda>_. find_slot k')) (\<lambda>res t. inv t \<and>
     (\<exists>x. res = Inr x \<and> map_option (val_at t) x = (if k' = k then None else look s k'))) s"
proof (rule wpU_bindI [OF remove_law [OF assms]], goal_cases)
  case (2 u t)
  then show ?case
    by (intro wpU_mono [OF find_law [of t k']]) auto
qed simp

end

definition new_entry :: "RelFileLocator \<Rightarrow> MapSuperEntry" where
  "new_entry r = reset_entry r (fresh_entry 1 0)"

lemma reset_entry_new: "reset_entry r e = new_entry r"
  by (cases e) (simp add: reset_entry_def new_entry_def fresh_entry_def)

lemma free_chain_head: "free_chain es (FREENEXT_SLOT i) fl \<Longrightarrow> i \<in> set fl"
  by (cases fl) auto

lemma find_run [runU]:
  "MapSuperFindEntryLocked r s = (Inr (fst (super_slot_lookup s r)), s)"
  by (simp add: MapSuperFindEntryLocked_def super_slot_lookup_def Let_def getU_apply)

lemma ensure_run:
  "MapSuperEnsureEntryLocked r s = (case super_slot_lookup s r of
     (Some i, b) \<Rightarrow> (Inr i, s)
   | (None, None) \<Rightarrow> (Inl (ERROR, E_TABLE_FULL), s)
   | (None, Some b) \<Rightarrow> (case free_head s of
         FREENEXT_SLOT i \<Rightarrow> (Inr i, inserted s r b i)
       | _ \<Rightarrow> (Inl (ERROR, E_TABLE_FULL), s)))"
  by (simp add: MapSuperEnsureEntryLocked_def super_slot_lookup_def [symmetric] Let_def runU
      upd_entry_def MapSuperEntryBySlot_def inserted_def
      split: prod.split option.split free_next.split)

lemma delete_run:
  "MapSuperDeleteEntry r s = (case super_slot_lookup s r of
     (Some i, Some b) \<Rightarrow> (Inr (), deleted s b i)
   | _ \<Rightarrow> (Inr (), s))"
  by (simp add: MapSuperDeleteEntry_def super_slot_lookup_def [symmetric] Let_def runU
      upd_entry_def MapSuperEntryBySlot_def deleted_def
      split: prod.split option.split)

lemma free_head_cases [consumes 1, case_names full slot]:
  assumes "super_ok s"
  obtains (full) "free_head s = FREENEXT_END" "\<forall>i < length (MapSuperEntries s). in_use (MapSuperEntries s ! i)"
    | (slot) i where "free_head s = FREENEXT_SLOT i"
proof -
  obtain fl where fl: "free_chain (MapSuperEntries s) (free_head s) fl"
    "set fl = {i. i < length (MapSuperEntries s) \<and> \<not> in_use (MapSuperEntries s ! i)}"
    using assms by (auto simp: super_ok_def entries_ok_def)
  show ?thesis
  proof (cases fl)
    case Nil
    then show ?thesis using fl by (intro full) auto
  next
    case (Cons i fl')
    then show ?thesis using fl(1) by (intro slot) simp
  qed
qed

interpretation super_tab: keyed_table super_ok super_lookup MapSuperEntryBySlot new_entry
  MapSuperFindEntryLocked MapSuperEnsureEntryLocked MapSuperDeleteEntry
proof
  fix s :: "'x map_super_scheme" and r
  assume ok: "super_ok s"
  have es: "entries_ok (MapSuperEntries s) (free_head s)" using ok by (simp add: super_ok_def)
  obtain x b where x: "super_slot_lookup s r = (x, b)" by fastforce
  note spec = lookup_spec [OF ok, of r, unfolded x]
  have look: "map_option (MapSuperEntryBySlot s) x = super_lookup s r"
    using spec owns_super_lookup [OF es] no_owner_super_lookup [of s r]
    by (cases x) (auto simp: MapSuperEntryBySlot_def)
  then show "wpU (MapSuperFindEntryLocked r) (\<lambda>res t. t = s \<and>
      (\<exists>x. res = Inr x \<and> map_option (MapSuperEntryBySlot s) x = super_lookup s r)) s"
    by (simp add: wpU_def find_run x)
  show "wpU (MapSuperEnsureEntryLocked r) (\<lambda>res t. super_ok t \<and> (case res of
        Inl e \<Rightarrow> t = s \<and> super_lookup s r = None
      | Inr i \<Rightarrow> super_lookup t r = Some (MapSuperEntryBySlot t i) \<and>
          super_lookup t = (if super_lookup s r = None then (super_lookup s)(r \<mapsto> new_entry r)
            else super_lookup s))) s"
  proof (cases x)
    case (Some i)
    then show ?thesis using ok look by (auto simp: wpU_def ensure_run x)
  next
    case None
    then have new: "super_lookup s r = None" "\<And>j. \<not> owns (MapSuperEntries s) j r"
      and ins: "\<And>p. b = Some p \<Longrightarrow> insertable s r p"
      using spec look by auto
    from ok show ?thesis
    proof (cases rule: free_head_cases)
      case full
      then show ?thesis using None ok new(1) by (simp add: wpU_def ensure_run x split: option.split)
    next
      case (slot i)
      show ?thesis
      proof (cases b)
        case (Some p)
        note t = super_ok_inserted [OF ok ins [OF Some] new(2) slot]
          super_lookup_inserted [OF ok ins [OF Some] new(2) slot]
        show ?thesis
          using t None Some slot new(1)
          by (simp add: wpU_def ensure_run x MapSuperEntryBySlot_def reset_entry_new)
      qed (use None ok new(1) in \<open>simp add: wpU_def ensure_run x\<close>)
    qed
  qed
  show "wpU (MapSuperDeleteEntry r) (\<lambda>res t. res = Inr () \<and> super_ok t \<and>
      super_lookup t = (super_lookup s)(r := None)) s"
  proof (cases x)
    case (Some i)
    then obtain p where p: "b = Some p" "p < length (MapSuperIndex s)" "MapSuperIndex s ! p = INDEX_SLOT i"
      and own: "owns (MapSuperEntries s) i r" using spec by auto
    show ?thesis
      using Some p super_ok_deleted [OF ok own p(2,3)] super_lookup_deleted [OF ok own p(2,3)]
      by (simp add: wpU_def delete_run x)
  qed (use ok look in \<open>auto simp: wpU_def delete_run x fun_upd_idem\<close>)
qed

subsection \<open>The initial table\<close>

lemma index_capacity_loop_spec:
  assumes "cap = 2 ^ m" and "target \<le> cap + n"
  shows "\<exists>k. index_capacity_loop n target cap = 2 ^ k" and "target \<le> index_capacity_loop n target cap"
proof -
  have "(\<exists>k. index_capacity_loop n target cap = 2 ^ k) \<and> target \<le> index_capacity_loop n target cap"
    using assms
  proof (induction n arbitrary: cap m)
    case (Suc n)
    have "0 < cap" using Suc.prems(1) by simp
    then have "target \<le> 2 * cap + n" using Suc.prems(2) by simp
    then show ?case
      using Suc.IH [of "2 * cap" "Suc m"] Suc.prems(1) by auto
  qed auto
  then show "\<exists>k. index_capacity_loop n target cap = 2 ^ k" "target \<le> index_capacity_loop n target cap"
    by auto
qed

lemma index_capacity_spec:
  "(\<exists>k. MapSuperIndexCapacityForPartition n = 2 ^ k) \<and>
   2 * n \<le> MAP_SUPER_NPARTITIONS * MapSuperIndexCapacityForPartition n"
proof -
  let ?t = "(2 * n + MAP_SUPER_NPARTITIONS - 1) div MAP_SUPER_NPARTITIONS"
  note cap = index_capacity_loop_spec [of 1 0 ?t ?t, simplified]
  have "2 * n \<le> MAP_SUPER_NPARTITIONS * ?t"
    by (simp add: MAP_SUPER_NPARTITIONS_def)
  also have "\<dots> \<le> MAP_SUPER_NPARTITIONS * MapSuperIndexCapacityForPartition n"
    using cap(2) by (intro mult_le_mono2) (simp add: MapSuperIndexCapacityForPartition_def Let_def)
  finally show ?thesis
    using cap(1) by (simp add: MapSuperIndexCapacityForPartition_def Let_def)
qed

lemma free_chain_fresh:
  assumes "i < n"
  shows "free_chain (map (fresh_entry n) [0..<n]) (FREENEXT_SLOT i) [i..<n]"
  using assms
proof (induction "n - i" arbitrary: i)
  case (Suc m)
  then show ?case
    by (cases "Suc i < n") (auto simp: upt_conv_Cons [of i] fresh_entry_def)
qed simp

lemma init_run:
  "\<exists>t. MapSuperTableShmemInit n s = (Inr (), t) \<and> super_ok t \<and> super_lookup t = (\<lambda>r. None) \<and>
     length (MapSuperEntries t) = max n MAP_SUPERBLOCK_MIN_ENTRIES \<and>
     2 * length (MapSuperEntries t) \<le> length (MapSuperIndex t)"
proof -
  define c where "c = max n MAP_SUPERBLOCK_MIN_ENTRIES"
  define ic where "ic = MapSuperIndexCapacityForPartition c"
  define es where "es = map (fresh_entry c) [0..<c]"
  have c: "0 < c" by (simp add: c_def MAP_SUPERBLOCK_MIN_ENTRIES_def)
  have unused: "\<not> in_use (es ! i)" if "i < c" for i
    using that by (simp add: es_def fresh_entry_def)
  have len: "length es = c" by (simp add: es_def)
  have no: "\<not> owns es i r" for i r
    using unused len by (auto simp: owns_def)
  have chain: "free_chain es (FREENEXT_SLOT 0) [0..<c]"
    using free_chain_fresh [OF c] by (simp add: es_def)
  have "set [0..<c] = {i. i < length es \<and> \<not> in_use (es ! i)}"
    using unused len by auto
  then have "entries_ok es (FREENEXT_SLOT 0)"
    using chain no unfolding entries_ok_def by (metis distinct_upt)
  moreover obtain k where "ic = 2 ^ k" "2 * c \<le> MAP_SUPER_NPARTITIONS * ic"
    using index_capacity_spec [of c] by (auto simp: ic_def)
  moreover have "find (\<lambda>e. in_use e \<and> key e = r) es = None" for r
    using unused len by (auto simp: find_None_iff in_set_conv_nth)
  ultimately show ?thesis
    using no by (auto simp: MapSuperTableShmemInit_def Let_def modifyU_apply super_ok_def index_sound_def
        super_lookup_def len c_def [symmetric] ic_def [symmetric] es_def [symmetric] mult.commute)
qed

subsection \<open>Reachable tables\<close>

text \<open>The tables a running server can have: the initial one and what ensuring, deleting and updating
  entries makes of it. An update through an entry pointer changes neither key nor linkage.\<close>

inductive super_reach :: "'x map_super_scheme \<Rightarrow> bool" where
  init: "super_reach (snd (MapSuperTableShmemInit n s))"
| ensure: "super_reach s \<Longrightarrow> super_reach (snd (MapSuperEnsureEntryLocked r s))"
| delete: "super_reach s \<Longrightarrow> super_reach (snd (MapSuperDeleteEntry r s))"
| update: "super_reach s \<Longrightarrow> (\<And>e. key (f e) = key e \<and> in_use (f e) = in_use e \<and>
     next_free_slot (f e) = next_free_slot e) \<Longrightarrow> super_reach (upd_entry i f s)"

inductive_cases super_reach_initE: "super_reach (snd (MapSuperTableShmemInit n s))"

lemma nth_entry_update:
  assumes "\<And>e. g (f e) = g e"
  shows "g (es[i := f (es ! i)] ! j) = g (es ! j)"
  using assms by (cases "i < length es"; cases "j = i") (simp_all add: list_update_beyond)

lemma super_ok_upd_entry:
  assumes ok: "super_ok s" and f: "\<And>e. key (f e) = key e" "\<And>e. in_use (f e) = in_use e"
    "\<And>e. next_free_slot (f e) = next_free_slot e"
  shows "super_ok (upd_entry i f s)"
proof -
  let ?es = "MapSuperEntries s" and ?es' = "(MapSuperEntries s)[i := f (MapSuperEntries s ! i)]"
  note same = nth_entry_update [of key f, OF f(1)] nth_entry_update [of in_use f, OF f(2)]
    nth_entry_update [of next_free_slot f, OF f(3)]
  have owns: "owns ?es' = owns ?es"
    by (simp add: fun_eq_iff owns_def same)
  have chain: "free_chain ?es' h fl = free_chain ?es h fl" for h fl
    by (induction fl arbitrary: h) (auto simp: same)
  have "entries_ok ?es' (free_head s)"
    using ok unfolding super_ok_def entries_ok_def owns chain by (simp add: same)
  moreover have "index_sound ?es' (MapSuperIndex s)"
    using ok unfolding super_ok_def index_sound_def by (simp add: same)
  ultimately show ?thesis
    using ok owns by (simp add: super_ok_def upd_entry_def)
qed

lemma super_reach_ok: "super_reach s \<Longrightarrow> super_ok s"
proof (induction rule: super_reach.induct)
  case (init n s)
  then show ?case using init_run [of n s] by auto
next
  case (ensure s r)
  then show ?case using super_tab.ensure_law [of s r] by (simp add: wpU_def split_beta)
next
  case (delete s r)
  then show ?case using super_tab.remove_law [of s r] by (simp add: wpU_def split_beta)
next
  case (update s f i)
  then show ?case by (intro super_ok_upd_entry) auto
qed

definition demo_super0 :: map_super where
  "demo_super0 = um_fs.extend demo_fs (map_super.fields [] [] FREENEXT_END 1)"

definition demo_super :: map_super where
  "demo_super = snd (MapSuperTableShmemInit 0 demo_super0)"

lemma demo_super_ok: "super_ok demo_super" "super_lookup demo_super = (\<lambda>r. None)"
  using init_run [of 0 demo_super0] by (auto simp: demo_super_def)

lemma demo_super_blank:
  "p < length (MapSuperIndex demo_super) \<Longrightarrow> MapSuperIndex demo_super ! p = INDEX_EMPTY"
  "0 < length (MapSuperEntries demo_super)" "\<not> in_use (MapSuperEntries demo_super ! 0)"
  by (auto simp: demo_super_def MapSuperTableShmemInit_def Let_def modifyU_apply fresh_entry_def
      MAP_SUPERBLOCK_MIN_ENTRIES_def)

lemma distinct_keys_of_owners:
  assumes "\<forall>i j r. owns es i r \<and> owns es j r \<longrightarrow> i = j"
  shows "distinct (map key (filter in_use es))"
  using assms
proof (induction es)
  case (Cons e es)
  have "i = j" if "owns es i r" "owns es j r" for i j r
    using Cons.prems [rule_format, of "Suc i" r "Suc j"] that by (simp add: owns_def)
  moreover have "key e \<noteq> key (es ! j)" if "in_use e" "j < length es" "in_use (es ! j)" for j
    using Cons.prems [rule_format, of 0 "key e" "Suc j"] that by (auto simp: owns_def)
  ultimately show ?case
    using Cons.IH by (auto simp: in_set_conv_nth)
qed simp

lemma ensure_error_iff:
  assumes ok: "super_ok s"
  shows "fst (MapSuperEnsureEntryLocked r s) = Inl e \<longleftrightarrow>
     e = (ERROR, E_TABLE_FULL) \<and> super_lookup s r = None \<and>
     ((\<forall>i < length (MapSuperEntries s). in_use (MapSuperEntries s ! i)) \<or>
      (\<forall>j < super_cap s. \<exists>i. MapSuperIndex s ! probe (super_cap s) r j = INDEX_SLOT i))"
proof -
  obtain x b where x: "super_slot_lookup s r = (x, b)" by fastforce
  note spec = lookup_spec [OF ok, of r, unfolded x]
  show ?thesis
  proof (cases x)
    case (Some i)
    then have "super_lookup s r \<noteq> None"
      using spec no_owner_super_lookup [of s r] by auto
    then show ?thesis using Some by (simp add: ensure_run x)
  next
    case None
    then have new: "super_lookup s r = None" using spec no_owner_super_lookup [of s r] by auto
    have part: "b = None \<longleftrightarrow> (\<forall>j < super_cap s. \<exists>i. MapSuperIndex s ! probe (super_cap s) r j = INDEX_SLOT i)"
      using spec None by (cases b) (force simp: insertable_def)+
    from ok show ?thesis
    proof (cases rule: free_head_cases)
      case full
      then show ?thesis using None new by (cases b) (auto simp: ensure_run x)
    next
      case (slot i)
      have "i < length (MapSuperEntries s) \<and> \<not> in_use (MapSuperEntries s ! i)"
        using ok slot by (auto simp: super_ok_def entries_ok_def neq_Nil_conv dest: free_chain_head)
      then show ?thesis using None new slot part by (cases b) (auto simp: ensure_run x)
    qed
  qed
qed

subsection \<open>Properties\<close>

text \<open>C12: In every reachable table, the probing lookup of a relation is exactly the search for a used
  entry with that key: whatever was inserted and deleted before, a present relation is found in
  its own slot and an absent one is not found, and no two used entries share a key.\<close>

theorem super_table_lookup_exact:
  assumes "super_reach s"
  shows "wpU (MapSuperFindEntryLocked r) (\<lambda>res t. t = s \<and>
       (\<exists>x. res = Inr x \<and> map_option (MapSuperEntryBySlot s) x =
          find (\<lambda>e. in_use e \<and> key e = r) (MapSuperEntries s))) s \<and>
     distinct (map key (filter in_use (MapSuperEntries s)))"
proof
  note ok = super_reach_ok [OF assms]
  show "wpU (MapSuperFindEntryLocked r) (\<lambda>res t. t = s \<and>
       (\<exists>x. res = Inr x \<and> map_option (MapSuperEntryBySlot s) x =
          find (\<lambda>e. in_use e \<and> key e = r) (MapSuperEntries s))) s"
    using super_tab.find_law [OF ok, of r] by (simp add: super_lookup_def)
  have "\<forall>i j r. owns (MapSuperEntries s) i r \<and> owns (MapSuperEntries s) j r \<longrightarrow> i = j"
    using ok by (auto simp: super_ok_def entries_ok_def)
  then show "distinct (map key (filter in_use (MapSuperEntries s)))"
    by (intro distinct_keys_of_owners)
qed

theorem super_table_lookup_exact_witness:
  "wpU (MapSuperFindEntryLocked (locator demo_rloc))
     (\<lambda>res t. \<exists>x. res = Inr x \<and> map_option (MapSuperEntryBySlot demo_super) x = None) demo_super"
  using super_table_lookup_exact [OF super_reach.init, of "locator demo_rloc" 0 demo_super0]
    demo_super_ok(2)
  by (auto simp: demo_super_def super_lookup_def fun_eq_iff elim!: wpU_mono)

text \<open>C21: Ensuring an entry refines insertion into a map: an existing entry is returned unchanged, a
  new one is blank and the entries of all other relations stay; an error changes nothing. The table
  stays well formed.\<close>

theorem MapSuperEnsureEntryLocked_refines:
  assumes "super_ok s"
  shows "wpU (MapSuperEnsureEntryLocked r) (\<lambda>res t. super_ok t \<and> (case res of
       Inl e \<Rightarrow> t = s \<and> super_lookup s r = None
     | Inr i \<Rightarrow> super_lookup t r = Some (MapSuperEntryBySlot t i) \<and>
         super_lookup t = (if super_lookup s r = None then (super_lookup s)(r \<mapsto> new_entry r)
           else super_lookup s))) s"
  using assms by (rule super_tab.ensure_law)

theorem MapSuperEnsureEntryLocked_refines_witness:
  "wpU (MapSuperEnsureEntryLocked (locator demo_rloc)) (\<lambda>res t. super_ok t) demo_super"
  using MapSuperEnsureEntryLocked_refines [OF demo_super_ok(1), of "locator demo_rloc"]
  by (auto elim!: wpU_mono)

text \<open>C35: Ensuring an entry fails only for a relation without one, and then exactly when every slot is
  used or every bucket of the relation's index partition holds a slot; the error is the table-full
  error.\<close>

theorem MapSuperEnsureEntryLocked_full_iff:
  assumes "super_ok s"
  shows "fst (MapSuperEnsureEntryLocked r s) = Inl e \<longleftrightarrow>
     e = (ERROR, E_TABLE_FULL) \<and> super_lookup s r = None \<and>
     ((\<forall>i < length (MapSuperEntries s). in_use (MapSuperEntries s ! i)) \<or>
      (\<forall>j < super_cap s. \<exists>i. MapSuperIndex s ! probe (super_cap s) r j = INDEX_SLOT i))"
  using assms by (rule ensure_error_iff)

theorem MapSuperEnsureEntryLocked_full_iff_witness:
  "\<exists>i. fst (MapSuperEnsureEntryLocked (locator demo_rloc) demo_super) = Inr i"
proof -
  let ?res = "fst (MapSuperEnsureEntryLocked (locator demo_rloc) demo_super)"
  have "MapSuperIndex demo_super ! probe (super_cap demo_super) (locator demo_rloc) 0 = INDEX_EMPTY"
    by (rule demo_super_blank(1) [OF probe_less [OF demo_super_ok(1)]])
  then have "?res \<noteq> Inl e" for e
    using MapSuperEnsureEntryLocked_full_iff [OF demo_super_ok(1), of "locator demo_rloc" e]
      demo_super_blank(2,3) super_cap_pos [OF demo_super_ok(1)] by (metis MapSuperIndexSlot.distinct(3))
  then show ?thesis by (cases ?res) auto
qed

text \<open>C34: Deleting an entry refines removal from a map: the relation is gone, every other relation
  keeps its entry, and the table stays well formed, so that later lookups are not misled by the
  tombstone left in the index.\<close>

theorem MapSuperDeleteEntry_refines:
  assumes "super_ok s"
  shows "wpU (bindU (MapSuperDeleteEntry r) (\<lambda>_. MapSuperFindEntryLocked r')) (\<lambda>res t. super_ok t \<and>
     (\<exists>x. res = Inr x \<and> map_option (MapSuperEntryBySlot t) x =
        (if r' = r then None else super_lookup s r'))) s"
  using assms by (rule super_tab.find_after_remove)

theorem MapSuperDeleteEntry_refines_witness:
  "wpU (bindU (MapSuperDeleteEntry (locator demo_rloc)) (\<lambda>_. MapSuperFindEntryLocked (locator demo_rloc)))
     (\<lambda>res t. res = Inr None) demo_super"
  using MapSuperDeleteEntry_refines [OF demo_super_ok(1), of "locator demo_rloc" "locator demo_rloc"]
  by (auto elim!: wpU_mono)


end
