(* ===== verification/MapSuperState.thy ===== *)
theory MapSuperState
  imports MapSuperTable MapLayout
begin

unbundle bit_operations_syntax

text \<open>
  The superblock operations of \<^verbatim>\<open>src/backend/storage/map/mapsuper.c\<close> and the inline helpers of
  \<^verbatim>\<open>src/include/storage/mapsuper_internal.h\<close>: loading a relation's superblock into the shared table,
  the getters, and the updates of the logical size, the physical capacity, the allocation frontier
  and the reclaim boundary. \<^verbatim>\<open>Assert\<close>s are not part of the operations; the condition they state is
  the invariant \<open>alloc_ok\<close> that every operation is shown to keep.

  The WAL positions that \<^verbatim>\<open>GetXLogReplayRecPtr\<close> and \<^verbatim>\<open>GetXLogWriteRecPtr\<close> return, the position up to
  which WAL is flushed and the list of relations reported by \<^verbatim>\<open>XLogLogMissingRelationMetadata\<close> are
  fields of the state. A backend that would sleep until another one finishes its extension stops
  with the error \<open>E_WAIT\<close>.
\<close>

record map_sb = map_super +
  XLogReplayRecPtr :: XLogRecPtr
  XLogWriteRecPtr :: XLogRecPtr
  XLogFlushRecPtr :: XLogRecPtr
  MissingMetadata :: "RelFileLocator list"

definition XLogFlush :: "XLogRecPtr \<Rightarrow> ('x map_sb_scheme, unit) um" where
  "XLogFlush lsn = modifyU (\<lambda>s. s\<lparr>XLogFlushRecPtr := max (XLogFlushRecPtr s) lsn\<rparr>)"

definition XLogLogMissingRelationMetadata :: "RelFileLocator \<Rightarrow> ('x map_sb_scheme, unit) um" where
  "XLogLogMissingRelationMetadata rnode =
     modifyU (\<lambda>s. s\<lparr>MissingMetadata := rnode # MissingMetadata s\<rparr>)"

definition bindE :: "um_error + 'a \<Rightarrow> ('a \<Rightarrow> um_error + 'b) \<Rightarrow> um_error + 'b" where
  "bindE m f = (case m of Inl e \<Rightarrow> Inl e | Inr x \<Rightarrow> f x)"

lemma bindE_simps [simp]: "bindE (Inl e) f = Inl e" "bindE (Inr x) f = f x"
  by (simp_all add: bindE_def)

lemma bindE_Inr: "bindE m f = Inr y \<longleftrightarrow> (\<exists>x. m = Inr x \<and> f x = Inr y)"
  by (cases m) auto

definition getE :: "nat \<Rightarrow> ('x map_sb_scheme, MapSuperEntry) um" where
  "getE slot = getU (\<lambda>s. MapSuperEntryBySlot s slot)"

text \<open>An update of the entry in a slot that may raise.\<close>

definition updE :: "nat \<Rightarrow> (MapSuperEntry \<Rightarrow> um_error + MapSuperEntry) \<Rightarrow> ('x map_sb_scheme, unit) um" where
  "updE slot f = (\<lambda>s. case f (MapSuperEntryBySlot s slot) of
     Inl e \<Rightarrow> (Inl e, s) | Inr e' \<Rightarrow> (Inr (), upd_entry slot (\<lambda>_. e') s))"

subsection \<open>Flags and per-fork accessors of an entry\<close>

definition MAPSUPER_FLAG_VALID :: u32 where "MAPSUPER_FLAG_VALID = 0x01"
definition MAPSUPER_FLAG_DIRTY :: u32 where "MAPSUPER_FLAG_DIRTY = 0x02"
definition MAPSUPER_FLAG_CORRUPT :: u32 where "MAPSUPER_FLAG_CORRUPT = 0x04"

fun MapForkHasMappedState :: "ForkNumber \<Rightarrow> bool" where
  "MapForkHasMappedState MAIN_FORKNUM = True"
| "MapForkHasMappedState FSM_FORKNUM = True"
| "MapForkHasMappedState VISIBILITYMAP_FORKNUM = True"
| "MapForkHasMappedState _ = False"

fun MapForkUsesAbsentSentinel :: "ForkNumber \<Rightarrow> bool" where
  "MapForkUsesAbsentSentinel FSM_FORKNUM = True"
| "MapForkUsesAbsentSentinel VISIBILITYMAP_FORKNUM = True"
| "MapForkUsesAbsentSentinel _ = False"

definition MapNormalizeForkBlockCount :: "ForkNumber \<Rightarrow> BlockNumber \<Rightarrow> BlockNumber" where
  "MapNormalizeForkBlockCount f raw =
     (if MapForkUsesAbsentSentinel f \<and> raw = InvalidBlockNumber then 0 else raw)"

definition MapSuperForkExists :: "MapSuperblock \<Rightarrow> ForkNumber \<Rightarrow> um_error + bool" where
  "MapSuperForkExists sb f =
     (if \<not> MapForkHasMappedState f then Inr False
      else if \<not> MapForkUsesAbsentSentinel f then Inr True
      else bindE (MapSuperblockGetLogicalNblocks sb f) (\<lambda>n. Inr (n \<noteq> InvalidBlockNumber)))"

fun MapSuperPreallocFlag :: "ForkNumber \<Rightarrow> u32" where
  "MapSuperPreallocFlag MAIN_FORKNUM = 0x01"
| "MapSuperPreallocFlag FSM_FORKNUM = 0x02"
| "MapSuperPreallocFlag VISIBILITYMAP_FORKNUM = 0x04"
| "MapSuperPreallocFlag _ = 0"

fun MapSuperExtendingFlag :: "ForkNumber \<Rightarrow> u32" where
  "MapSuperExtendingFlag MAIN_FORKNUM = 0x08"
| "MapSuperExtendingFlag FSM_FORKNUM = 0x10"
| "MapSuperExtendingFlag VISIBILITYMAP_FORKNUM = 0x20"
| "MapSuperExtendingFlag _ = 0"

fun MapSuperGetReservedNextFree :: "MapSuperEntry \<Rightarrow> ForkNumber \<Rightarrow> um_error + BlockNumber" where
  "MapSuperGetReservedNextFree e MAIN_FORKNUM = Inr (reserved_next_free_main e)"
| "MapSuperGetReservedNextFree e FSM_FORKNUM = Inr (reserved_next_free_fsm e)"
| "MapSuperGetReservedNextFree e VISIBILITYMAP_FORKNUM = Inr (reserved_next_free_vm e)"
| "MapSuperGetReservedNextFree e _ = Inl (ERROR, E_UNSUPPORTED_FORK)"

fun MapSuperPutReservedNextFree ::
  "MapSuperEntry \<Rightarrow> ForkNumber \<Rightarrow> BlockNumber \<Rightarrow> um_error + MapSuperEntry" where
  "MapSuperPutReservedNextFree e MAIN_FORKNUM b = Inr (e\<lparr>reserved_next_free_main := b\<rparr>)"
| "MapSuperPutReservedNextFree e FSM_FORKNUM b = Inr (e\<lparr>reserved_next_free_fsm := b\<rparr>)"
| "MapSuperPutReservedNextFree e VISIBILITYMAP_FORKNUM b = Inr (e\<lparr>reserved_next_free_vm := b\<rparr>)"
| "MapSuperPutReservedNextFree e _ b = Inl (ERROR, E_UNSUPPORTED_FORK)"

definition MapSuperSetReservedNextFree ::
  "MapSuperEntry \<Rightarrow> ForkNumber \<Rightarrow> BlockNumber \<Rightarrow> um_error + MapSuperEntry" where
  "MapSuperSetReservedNextFree e f blkno =
     MapSuperPutReservedNextFree e f (MapNormalizeForkBlockCount f blkno)"

definition MapSuperMaybeBumpReservedNextFree ::
  "MapSuperEntry \<Rightarrow> ForkNumber \<Rightarrow> BlockNumber \<Rightarrow> um_error + MapSuperEntry" where
  "MapSuperMaybeBumpReservedNextFree e f blkno =
     (let blkno = MapNormalizeForkBlockCount f blkno in
      bindE (MapSuperGetReservedNextFree e f) (\<lambda>current.
        if current < blkno then MapSuperSetReservedNextFree e f blkno else Inr e))"

definition MapSuperResetReservedNextFrees :: "MapSuperEntry \<Rightarrow> um_error + MapSuperEntry" where
  "MapSuperResetReservedNextFrees e =
     bindE (bindE (MapSuperblockGetNextFreePhysBlock (super e) MAIN_FORKNUM)
              (MapSuperSetReservedNextFree e MAIN_FORKNUM)) (\<lambda>e.
     bindE (bindE (MapSuperblockGetNextFreePhysBlock (super e) FSM_FORKNUM)
              (MapSuperSetReservedNextFree e FSM_FORKNUM)) (\<lambda>e.
     bindE (MapSuperblockGetNextFreePhysBlock (super e) VISIBILITYMAP_FORKNUM)
       (MapSuperSetReservedNextFree e VISIBILITYMAP_FORKNUM)))"

fun MapSuperGetExtendingTarget :: "MapSuperEntry \<Rightarrow> ForkNumber \<Rightarrow> BlockNumber" where
  "MapSuperGetExtendingTarget e MAIN_FORKNUM = extending_target_main e"
| "MapSuperGetExtendingTarget e FSM_FORKNUM = extending_target_fsm e"
| "MapSuperGetExtendingTarget e VISIBILITYMAP_FORKNUM = extending_target_vm e"
| "MapSuperGetExtendingTarget e _ = InvalidBlockNumber"

fun MapSuperSetExtendingTarget ::
  "MapSuperEntry \<Rightarrow> ForkNumber \<Rightarrow> BlockNumber \<Rightarrow> um_error + MapSuperEntry" where
  "MapSuperSetExtendingTarget e MAIN_FORKNUM n = Inr (e\<lparr>extending_target_main := n\<rparr>)"
| "MapSuperSetExtendingTarget e FSM_FORKNUM n = Inr (e\<lparr>extending_target_fsm := n\<rparr>)"
| "MapSuperSetExtendingTarget e VISIBILITYMAP_FORKNUM n = Inr (e\<lparr>extending_target_vm := n\<rparr>)"
| "MapSuperSetExtendingTarget e _ n = Inl (ERROR, E_UNSUPPORTED_FORK)"

fun MapSuperGetReclaimBoundary :: "MapSuperEntry \<Rightarrow> ForkNumber \<Rightarrow> um_error + BlockNumber" where
  "MapSuperGetReclaimBoundary e MAIN_FORKNUM = Inr (reclaim_boundary_main e)"
| "MapSuperGetReclaimBoundary e FSM_FORKNUM = Inr (reclaim_boundary_fsm e)"
| "MapSuperGetReclaimBoundary e VISIBILITYMAP_FORKNUM = Inr (reclaim_boundary_vm e)"
| "MapSuperGetReclaimBoundary e _ = Inl (ERROR, E_UNSUPPORTED_FORK)"

fun MapSuperSetReclaimBoundary ::
  "MapSuperEntry \<Rightarrow> ForkNumber \<Rightarrow> BlockNumber \<Rightarrow> um_error + MapSuperEntry" where
  "MapSuperSetReclaimBoundary e MAIN_FORKNUM b = Inr (e\<lparr>reclaim_boundary_main := b\<rparr>)"
| "MapSuperSetReclaimBoundary e FSM_FORKNUM b = Inr (e\<lparr>reclaim_boundary_fsm := b\<rparr>)"
| "MapSuperSetReclaimBoundary e VISIBILITYMAP_FORKNUM b = Inr (e\<lparr>reclaim_boundary_vm := b\<rparr>)"
| "MapSuperSetReclaimBoundary e _ b = Inl (ERROR, E_UNSUPPORTED_FORK)"

definition MapSuperResetReclaimBoundaries :: "MapSuperEntry \<Rightarrow> um_error + MapSuperEntry" where
  "MapSuperResetReclaimBoundaries e =
     bindE (MapSuperblockGetNextFreePhysBlock (super e) MAIN_FORKNUM) (\<lambda>m.
     bindE (MapSuperblockGetNextFreePhysBlock (super e) FSM_FORKNUM) (\<lambda>f.
     bindE (MapSuperblockGetNextFreePhysBlock (super e) VISIBILITYMAP_FORKNUM) (\<lambda>v.
       Inr (e\<lparr>reclaim_boundary_main := MapNormalizeForkBlockCount MAIN_FORKNUM m,
              reclaim_boundary_fsm := MapNormalizeForkBlockCount FSM_FORKNUM f,
              reclaim_boundary_vm := MapNormalizeForkBlockCount VISIBILITYMAP_FORKNUM v\<rparr>))))"

subsection \<open>Loading a superblock\<close>

datatype MapSBlockReadStatus = MAP_SBLOCK_READ_OK | MAP_SBLOCK_READ_MISSING | MAP_SBLOCK_READ_CORRUPT

definition has_flag :: "u32 \<Rightarrow> u32 \<Rightarrow> bool" where
  "has_flag w fl \<longleftrightarrow> w AND fl \<noteq> 0"

definition MapSBlockReportCorrupt :: "RelFileLocator \<Rightarrow> ('x map_sb_scheme, 'a) um" where
  "MapSBlockReportCorrupt rnode = throwU (ERROR, E_DATA_CORRUPTED)"

text \<open>The superblock is meaningful unless the status is \<^const>\<open>MAP_SBLOCK_READ_MISSING\<close>.\<close>

definition MapSuperLoadFromDisk ::
  "nat \<Rightarrow> RelFileLocator \<Rightarrow> ('x map_sb_scheme, MapSBlockReadStatus \<times> MapSuperblock) um" where
  "MapSuperLoadFromDisk c rnode =
     bindU (umfile_ctx_fork_exists c UMBRA_METADATA_FORKNUM UMFILE_EXISTS_DENSE) (\<lambda>ex.
       if \<not> ex then returnU (MAP_SBLOCK_READ_MISSING, zero_superblock)
       else
         bindU (umfile_ctx_read c UMBRA_METADATA_FORKNUM MAP_BLOCK_SUPER MAP_SUPERBLOCK_SIZE) (\<lambda>sector.
           let sb = MapSuperblockUnpackSector sector
           in if \<not> MapSuperblockHasValidIdentity sb \<or> \<not> MapSuperblockCheckCRC sb
              then returnU (MAP_SBLOCK_READ_CORRUPT, sb)
              else returnU (MAP_SBLOCK_READ_OK, sb)))"

text \<open>Filling an entry that is not valid yet, the block the loading functions share.\<close>

definition MapSuperPopulate ::
  "MapSBlockReadStatus \<Rightarrow> MapSuperblock \<Rightarrow> MapSuperEntry \<Rightarrow> um_error + MapSuperEntry" where
  "MapSuperPopulate status disk_super e =
     (if has_flag (flags e) MAPSUPER_FLAG_VALID then Inr e
      else if status = MAP_SBLOCK_READ_OK then
        bindE (MapSuperResetReservedNextFrees
                 (e\<lparr>super := disk_super, page_lsn := MapSuperblockGetLastUpdatedLSN disk_super,
                    flags := MAPSUPER_FLAG_VALID\<rparr>)) MapSuperResetReclaimBoundaries
      else
        bindE (MapSuperResetReservedNextFrees
                 (e\<lparr>super := MapSuperblockInit 0, page_lsn := InvalidXLogRecPtr,
                    flags := MAPSUPER_FLAG_VALID OR MAPSUPER_FLAG_CORRUPT\<rparr>))
          MapSuperResetReclaimBoundaries)"

text \<open>The slow path of \<^verbatim>\<open>MapSBlockRead\<close>, taken when there is no entry or the entry is not valid.\<close>

definition MapSBlockReadSlow ::
  "nat \<Rightarrow> RelFileLocator \<Rightarrow> ('x map_sb_scheme, MapSBlockReadStatus \<times> MapSuperblock) um" where
  "MapSBlockReadSlow c rnode =
     bindU (MapSuperLoadFromDisk c rnode) (\<lambda>(status, disk_super).
       if status = MAP_SBLOCK_READ_MISSING then returnU (MAP_SBLOCK_READ_MISSING, disk_super)
       else
         bindU (MapSuperEnsureEntryLocked rnode) (\<lambda>slot.
         bindU (getE slot) (\<lambda>e0.
         bindU (updE slot (MapSuperPopulate status disk_super)) (\<lambda>_.
         bindU (getE slot) (\<lambda>e.
           let status' = (if \<not> has_flag (flags e0) MAPSUPER_FLAG_VALID then status
                          else if has_flag (flags e0) MAPSUPER_FLAG_CORRUPT
                          then MAP_SBLOCK_READ_CORRUPT else MAP_SBLOCK_READ_OK)
           in returnU (status', super e))))))"

definition MapSBlockRead ::
  "nat \<Rightarrow> RelFileLocator \<Rightarrow> ('x map_sb_scheme, MapSBlockReadStatus \<times> MapSuperblock) um" where
  "MapSBlockRead c rnode =
     bindU (MapSuperFindEntryLocked rnode) (\<lambda>found.
       case found of
         None \<Rightarrow> MapSBlockReadSlow c rnode
       | Some slot \<Rightarrow>
           bindU (getE slot) (\<lambda>e.
             if \<not> has_flag (flags e) MAPSUPER_FLAG_VALID then MapSBlockReadSlow c rnode
             else returnU (if has_flag (flags e) MAPSUPER_FLAG_CORRUPT
                           then MAP_SBLOCK_READ_CORRUPT else MAP_SBLOCK_READ_OK, super e)))"

text \<open>The rebuild of an entry whose image is not to be trusted.\<close>

definition entry_untrusted :: "MapSuperEntry \<Rightarrow> bool" where
  "entry_untrusted e \<longleftrightarrow>
     has_flag (flags e) MAPSUPER_FLAG_CORRUPT \<or> \<not> MapSuperblockHasValidIdentity (super e) \<or>
     \<not> has_flag (flags e) MAPSUPER_FLAG_DIRTY \<and> \<not> MapSuperblockCheckCRC (super e)"

definition MapSuperRebuild :: "MapSuperEntry \<Rightarrow> um_error + MapSuperEntry" where
  "MapSuperRebuild e =
     bindE (MapSuperResetReservedNextFrees (e\<lparr>super := MapSuperblockInit 0, flags := MAPSUPER_FLAG_VALID\<rparr>))
       MapSuperResetReclaimBoundaries"

definition MapSuperPrepareEntryForUpdate ::
  "nat \<Rightarrow> RelFileLocator \<Rightarrow> XLogRecPtr \<Rightarrow> ('x map_sb_scheme, nat option) um" where
  "MapSuperPrepareEntryForUpdate c rnode map_lsn =
     bindU (getU InRecovery) (\<lambda>rec.
     bindU (MapSuperFindEntryLocked rnode) (\<lambda>found.
     bindU (case found of
              Some slot \<Rightarrow> returnU (Some slot)
            | None \<Rightarrow>
                bindU (MapSuperLoadFromDisk c rnode) (\<lambda>(status, disk_super).
                  if status = MAP_SBLOCK_READ_MISSING
                  then (if rec then bindU (XLogLogMissingRelationMetadata rnode) (\<lambda>_. returnU None)
                        else throwU (ERROR, E_MAP_MISSING))
                  else
                    bindU (MapSuperEnsureEntryLocked rnode) (\<lambda>slot.
                    bindU (updE slot (MapSuperPopulate status disk_super)) (\<lambda>_.
                    returnU (Some slot))))) (\<lambda>prepared.
       case prepared of
         None \<Rightarrow> returnU None
       | Some slot \<Rightarrow>
           bindU (getE slot) (\<lambda>e.
             if entry_untrusted e
             then (if \<not> rec \<or> map_lsn = InvalidXLogRecPtr then MapSBlockReportCorrupt rnode
                   else bindU (updE slot MapSuperRebuild) (\<lambda>_. returnU (Some slot)))
             else returnU (Some slot)))))"

subsection \<open>Updates\<close>

definition resolve_lsn :: "XLogRecPtr \<Rightarrow> ('x map_sb_scheme, XLogRecPtr) um" where
  "resolve_lsn map_lsn = getU (\<lambda>s.
     if map_lsn = InvalidXLogRecPtr
     then (if InRecovery s then XLogReplayRecPtr s else XLogWriteRecPtr s) else map_lsn)"

text \<open>Stamping an updated entry with its LSN and marking it dirty.\<close>

definition stamp_entry :: "XLogRecPtr \<Rightarrow> MapSuperEntry \<Rightarrow> MapSuperEntry" where
  "stamp_entry lsn e = e\<lparr>super := MapSuperblockSetLastUpdatedLSN (super e) lsn, page_lsn := lsn,
     flags := flags e OR MAPSUPER_FLAG_DIRTY\<rparr>"

definition update_logical ::
  "ForkNumber \<Rightarrow> BlockNumber \<Rightarrow> bool \<Rightarrow> XLogRecPtr \<Rightarrow> MapSuperEntry \<Rightarrow> um_error + MapSuperEntry" where
  "update_logical f nblocks bump_only lsn e =
     bindE (MapSuperblockGetLogicalNblocks (super e) f) (\<lambda>raw.
       let current = MapNormalizeForkBlockCount f raw
       in if \<not> bump_only \<or> current < nblocks
          then bindE (MapSuperblockSetLogicalNblocks (super e) f nblocks) (\<lambda>sb.
                 Inr (stamp_entry lsn (e\<lparr>super := sb\<rparr>)))
          else Inr e)"

definition MapSBlockUpdateLogicalNblocks ::
  "nat \<Rightarrow> RelFileLocator \<Rightarrow> ForkNumber \<Rightarrow> BlockNumber \<Rightarrow> XLogRecPtr \<Rightarrow> bool \<Rightarrow>
   ('x map_sb_scheme, unit) um" where
  "MapSBlockUpdateLogicalNblocks c rnode f nblocks map_lsn bump_only =
     (if \<not> MapForkHasMappedState f then returnU ()
      else
        bindU (MapSuperPrepareEntryForUpdate c rnode map_lsn) (\<lambda>prepared.
          case prepared of
            None \<Rightarrow> returnU ()
          | Some slot \<Rightarrow>
              bindU (resolve_lsn map_lsn) (\<lambda>lsn.
              updE slot (update_logical f nblocks bump_only lsn))))"

definition update_pending :: "bool \<Rightarrow> XLogRecPtr \<Rightarrow> MapSuperEntry \<Rightarrow> um_error + MapSuperEntry" where
  "update_pending pending lsn e =
     (let old = MapSuperblockGetFlags (super e);
          new = (if pending then old OR MAP_SUPERBLOCK_FLAG_SKIP_WAL_PENDING
                 else old AND NOT MAP_SUPERBLOCK_FLAG_SKIP_WAL_PENDING)
      in if new \<noteq> old
         then Inr (stamp_entry lsn (e\<lparr>super := MapSuperblockSetFlags (super e) new\<rparr>))
         else Inr e)"

definition MapSBlockSetPendingFlag ::
  "nat \<Rightarrow> RelFileLocator \<Rightarrow> bool \<Rightarrow> XLogRecPtr \<Rightarrow> ('x map_sb_scheme, unit) um" where
  "MapSBlockSetPendingFlag c rnode pending map_lsn =
     bindU (MapSuperPrepareEntryForUpdate c rnode map_lsn) (\<lambda>prepared.
       case prepared of
         None \<Rightarrow> returnU ()
       | Some slot \<Rightarrow>
           bindU (resolve_lsn map_lsn) (\<lambda>lsn. updE slot (update_pending pending lsn)))"

text \<open>The three conditional writes of \<^verbatim>\<open>MapSBlockBumpPhysicalState\<close>; the flag says whether anything
  changed.\<close>

definition bump_next_free_entry ::
  "bool \<Rightarrow> ForkNumber \<Rightarrow> BlockNumber \<Rightarrow> MapSuperEntry \<Rightarrow> um_error + MapSuperEntry" where
  "bump_next_free_entry rec f nblocks e =
     bindE (MapSuperblockSetNextFreePhysBlock (super e) f nblocks) (\<lambda>sb.
     bindE (MapSuperMaybeBumpReservedNextFree (e\<lparr>super := sb\<rparr>) f nblocks) (\<lambda>e.
       if rec then MapSuperSetReclaimBoundary e f nblocks else Inr e))"

definition update_physical ::
  "bool \<Rightarrow> ForkNumber \<Rightarrow> BlockNumber \<Rightarrow> bool \<Rightarrow> bool \<Rightarrow> XLogRecPtr \<Rightarrow> MapSuperEntry \<Rightarrow>
   um_error + MapSuperEntry" where
  "update_physical rec f nblocks bump_next_free bump_capacity lsn e =
     bindE (MapSuperblockGetNextFreePhysBlock (super e) f) (\<lambda>raw_next.
     bindE (MapSuperblockGetPhysCapacity (super e) f) (\<lambda>raw_capacity.
       let current_next = MapNormalizeForkBlockCount f raw_next;
           current_capacity = MapNormalizeForkBlockCount f raw_capacity;
           do_next = bump_next_free \<and> current_next < nblocks;
           do_capacity = bump_capacity \<and> current_capacity < nblocks
       in
       bindE (if do_next then bump_next_free_entry rec f nblocks e else Inr e) (\<lambda>e.
       bindE (if do_capacity
              then bindE (MapSuperblockSetPhysCapacity (super e) f nblocks) (\<lambda>sb. Inr (e\<lparr>super := sb\<rparr>))
              else Inr e) (\<lambda>e.
       Inr (if do_next \<or> do_capacity then stamp_entry lsn e else e)))))"

definition MapSBlockBumpPhysicalState ::
  "nat \<Rightarrow> RelFileLocator \<Rightarrow> ForkNumber \<Rightarrow> BlockNumber \<Rightarrow> bool \<Rightarrow> bool \<Rightarrow> XLogRecPtr \<Rightarrow>
   ('x map_sb_scheme, unit) um" where
  "MapSBlockBumpPhysicalState c rnode f nblocks bump_next_free bump_capacity map_lsn =
     (if \<not> MapForkHasMappedState f then returnU ()
      else
        bindU (MapSuperPrepareEntryForUpdate c rnode map_lsn) (\<lambda>prepared.
          case prepared of
            None \<Rightarrow> returnU ()
          | Some slot \<Rightarrow>
              bindU (getU InRecovery) (\<lambda>rec.
              bindU (resolve_lsn map_lsn) (\<lambda>lsn.
              updE slot (update_physical rec f nblocks bump_next_free bump_capacity lsn)))))"

definition MapSBlockBumpLogicalNblocks ::
  "nat \<Rightarrow> RelFileLocator \<Rightarrow> ForkNumber \<Rightarrow> BlockNumber \<Rightarrow> XLogRecPtr \<Rightarrow> ('x map_sb_scheme, unit) um" where
  "MapSBlockBumpLogicalNblocks c rnode f nblocks map_lsn =
     MapSBlockUpdateLogicalNblocks c rnode f nblocks map_lsn True"

definition MapSBlockSetLogicalNblocks ::
  "nat \<Rightarrow> RelFileLocator \<Rightarrow> ForkNumber \<Rightarrow> BlockNumber \<Rightarrow> XLogRecPtr \<Rightarrow> ('x map_sb_scheme, unit) um" where
  "MapSBlockSetLogicalNblocks c rnode f nblocks map_lsn =
     MapSBlockUpdateLogicalNblocks c rnode f nblocks map_lsn False"

definition MapSBlockBumpPhysicalNblocks ::
  "nat \<Rightarrow> RelFileLocator \<Rightarrow> ForkNumber \<Rightarrow> BlockNumber \<Rightarrow> XLogRecPtr \<Rightarrow> ('x map_sb_scheme, unit) um" where
  "MapSBlockBumpPhysicalNblocks c rnode f nblocks map_lsn =
     MapSBlockBumpPhysicalState c rnode f nblocks False True map_lsn"

definition MapSBlockBumpNextFreePhysBlock ::
  "nat \<Rightarrow> RelFileLocator \<Rightarrow> ForkNumber \<Rightarrow> BlockNumber \<Rightarrow> XLogRecPtr \<Rightarrow> ('x map_sb_scheme, unit) um" where
  "MapSBlockBumpNextFreePhysBlock c rnode f next_free_pblk map_lsn =
     MapSBlockBumpPhysicalState c rnode f next_free_pblk True False map_lsn"

definition MapSBlockSetSkipWalPending ::
  "nat \<Rightarrow> RelFileLocator \<Rightarrow> bool \<Rightarrow> XLogRecPtr \<Rightarrow> ('x map_sb_scheme, unit) um" where
  "MapSBlockSetSkipWalPending c rnode pending map_lsn = MapSBlockSetPendingFlag c rnode pending map_lsn"

text \<open>Creation: the fresh superblock goes to the entry and, after the WAL flush, to disk.\<close>

definition init_entry :: "XLogRecPtr \<Rightarrow> MapSuperEntry \<Rightarrow> um_error + MapSuperEntry" where
  "init_entry lsn e =
     bindE (MapSuperResetReservedNextFrees
              (e\<lparr>super := MapSuperblockSetLastUpdatedLSN (MapSuperblockInit 0) lsn, page_lsn := lsn,
                 flags := MAPSUPER_FLAG_VALID OR MAPSUPER_FLAG_DIRTY\<rparr>))
       MapSuperResetReclaimBoundaries"

definition MapSBlockInit :: "nat \<Rightarrow> RelFileLocator \<Rightarrow> XLogRecPtr \<Rightarrow> ('x map_sb_scheme, unit) um" where
  "MapSBlockInit c rnode map_lsn =
     bindU (umfile_ctx_fork_exists c UMBRA_METADATA_FORKNUM UMFILE_EXISTS_DENSE) (\<lambda>ex.
       if \<not> ex then throwU (ERROR, E_INTERNAL)
       else
         bindU (MapSuperEnsureEntryLocked rnode) (\<lambda>slot.
         bindU (getU (\<lambda>s. if map_lsn \<noteq> InvalidXLogRecPtr then map_lsn else XLogWriteRecPtr s)) (\<lambda>lsn.
         bindU (updE slot (init_entry lsn)) (\<lambda>_.
         bindU (getE slot) (\<lambda>e.
         bindU (getU InRecovery) (\<lambda>rec.
         bindU (whenU (\<not> rec \<and> page_lsn e \<noteq> InvalidXLogRecPtr) (XLogFlush (page_lsn e))) (\<lambda>_.
         bindU (umfile_ctx_write c UMBRA_METADATA_FORKNUM MAP_BLOCK_SUPER
                  (MapSuperblockPackSector (MapSuperblockRefreshCRC (super e)))) (\<lambda>_.
         umfile_ctx_register_dirty c UMBRA_METADATA_FORKNUM MAP_BLOCK_SUPER False False))))))))"

definition MapSBlockEnsureLoaded :: "nat \<Rightarrow> RelFileLocator \<Rightarrow> ('x map_sb_scheme, bool) um" where
  "MapSBlockEnsureLoaded c rnode =
     bindU (umfile_ctx_fork_exists c UMBRA_METADATA_FORKNUM UMFILE_EXISTS_DENSE) (\<lambda>ex.
       if \<not> ex then returnU False
       else
         bindU (MapSuperFindEntryLocked rnode) (\<lambda>found.
           if found \<noteq> None then returnU True
           else
             bindU (MapSuperLoadFromDisk c rnode) (\<lambda>(status, disk_super).
               if status = MAP_SBLOCK_READ_MISSING then returnU False
               else
                 bindU (MapSuperEnsureEntryLocked rnode) (\<lambda>slot.
                 bindU (updE slot (MapSuperPopulate status disk_super)) (\<lambda>_.
                 returnU True)))))"

subsection \<open>Getters\<close>

text \<open>The frame the three size getters share: \<^const>\<open>None\<close> is the answer false. \<open>get\<close> reads the field.\<close>

definition sblock_getter ::
  "(MapSuperblock \<Rightarrow> ForkNumber \<Rightarrow> um_error + BlockNumber) \<Rightarrow> nat \<Rightarrow> RelFileLocator \<Rightarrow> ForkNumber \<Rightarrow>
   ('x map_sb_scheme, BlockNumber option) um" where
  "sblock_getter get c rnode f =
     (if \<not> MapForkHasMappedState f then returnU None
      else
        bindU (getU InRecovery) (\<lambda>rec.
        bindU (MapSBlockRead c rnode) (\<lambda>(status, sb).
          case status of
            MAP_SBLOCK_READ_MISSING \<Rightarrow> returnU None
          | MAP_SBLOCK_READ_CORRUPT \<Rightarrow>
              if \<not> rec then MapSBlockReportCorrupt rnode else returnU None
          | MAP_SBLOCK_READ_OK \<Rightarrow>
              if \<not> MapSuperblockHasValidIdentity sb then returnU None
              else bindU (liftU (get sb f)) (\<lambda>n. returnU (Some (MapNormalizeForkBlockCount f n))))))"

definition MapSBlockTryGetLogicalNblocks ::
  "nat \<Rightarrow> RelFileLocator \<Rightarrow> ForkNumber \<Rightarrow> ('x map_sb_scheme, BlockNumber option) um" where
  "MapSBlockTryGetLogicalNblocks = sblock_getter MapSuperblockGetLogicalNblocks"

definition MapSBlockTryGetPhysicalNblocks ::
  "nat \<Rightarrow> RelFileLocator \<Rightarrow> ForkNumber \<Rightarrow> ('x map_sb_scheme, BlockNumber option) um" where
  "MapSBlockTryGetPhysicalNblocks = sblock_getter MapSuperblockGetPhysCapacity"

definition MapSBlockTryGetNextFreePhysBlock ::
  "nat \<Rightarrow> RelFileLocator \<Rightarrow> ForkNumber \<Rightarrow> ('x map_sb_scheme, BlockNumber option) um" where
  "MapSBlockTryGetNextFreePhysBlock = sblock_getter MapSuperblockGetNextFreePhysBlock"

definition MapSBlockForkExists ::
  "nat \<Rightarrow> RelFileLocator \<Rightarrow> ForkNumber \<Rightarrow> ('x map_sb_scheme, bool) um" where
  "MapSBlockForkExists c rnode f =
     (if \<not> MapForkHasMappedState f then returnU False
      else
        bindU (MapSBlockRead c rnode) (\<lambda>(status, sb).
          if status \<noteq> MAP_SBLOCK_READ_OK \<or> \<not> MapSuperblockHasValidIdentity sb then returnU False
          else liftU (MapSuperForkExists sb f)))"

definition MapSBlockIsSkipWalPending :: "nat \<Rightarrow> RelFileLocator \<Rightarrow> ('x map_sb_scheme, bool) um" where
  "MapSBlockIsSkipWalPending c rnode =
     bindU (MapSBlockRead c rnode) (\<lambda>(status, sb).
       if status \<noteq> MAP_SBLOCK_READ_OK \<or> \<not> MapSuperblockHasValidIdentity sb then returnU False
       else returnU (has_flag (MapSuperblockGetFlags sb) MAP_SUPERBLOCK_FLAG_SKIP_WAL_PENDING))"

definition MapSBlockTryGetReclaimBoundary ::
  "nat \<Rightarrow> RelFileLocator \<Rightarrow> ForkNumber \<Rightarrow> ('x map_sb_scheme, BlockNumber option) um" where
  "MapSBlockTryGetReclaimBoundary c rnode f =
     (if \<not> MapForkHasMappedState f then returnU None
      else
        bindU (MapSBlockEnsureLoaded c rnode) (\<lambda>loaded.
          if \<not> loaded then returnU None
          else
            bindU (MapSuperFindEntryLocked rnode) (\<lambda>found.
              case found of
                None \<Rightarrow> returnU None
              | Some slot \<Rightarrow>
                  bindU (getE slot) (\<lambda>e.
                  bindU (getU InRecovery) (\<lambda>rec.
                    if entry_untrusted e
                    then (if \<not> rec then MapSBlockReportCorrupt rnode else returnU None)
                    else bindU (liftU (MapSuperGetReclaimBoundary e f)) (\<lambda>b.
                           returnU (Some (MapNormalizeForkBlockCount f b))))))))"

definition advance_reclaim :: "ForkNumber \<Rightarrow> BlockNumber \<Rightarrow> MapSuperEntry \<Rightarrow> um_error + MapSuperEntry" where
  "advance_reclaim f boundary_pblk e =
     (if \<not> in_use e \<or> \<not> has_flag (flags e) MAPSUPER_FLAG_VALID \<or> entry_untrusted e then Inr e
      else
        bindE (MapSuperGetReclaimBoundary e f) (\<lambda>raw_current.
        bindE (MapSuperblockGetNextFreePhysBlock (super e) f) (\<lambda>raw_next.
          let current = MapNormalizeForkBlockCount f raw_current;
              next_free = MapNormalizeForkBlockCount f raw_next;
              boundary = (if boundary_pblk > next_free then next_free else boundary_pblk)
          in if boundary > current then MapSuperSetReclaimBoundary e f boundary else Inr e)))"

definition MapSBlockAdvanceReclaimBoundary ::
  "nat \<Rightarrow> RelFileLocator \<Rightarrow> ForkNumber \<Rightarrow> BlockNumber \<Rightarrow> ('x map_sb_scheme, unit) um" where
  "MapSBlockAdvanceReclaimBoundary c rnode f boundary_pblk =
     (if \<not> MapForkHasMappedState f \<or> boundary_pblk = InvalidBlockNumber then returnU ()
      else
        bindU (MapSBlockEnsureLoaded c rnode) (\<lambda>loaded.
          if \<not> loaded then returnU ()
          else
            bindU (MapSuperFindEntryLocked rnode) (\<lambda>found.
              case found of
                None \<Rightarrow> returnU ()
              | Some slot \<Rightarrow> updE slot (advance_reclaim f boundary_pblk))))"

subsection \<open>Materialising physical blocks\<close>

definition extend_block :: "nat \<Rightarrow> ForkNumber \<Rightarrow> bool \<Rightarrow> BlockNumber \<Rightarrow> ('x map_sb_scheme, unit) um" where
  "extend_block c f skipFsync blk =
     bindU (umfile_ctx_block_exists c f blk) (\<lambda>ex.
       whenU (\<not> ex) (umfile_zeroextend c f blk 1 skipFsync))"

definition begin_extend :: "ForkNumber \<Rightarrow> BlockNumber \<Rightarrow> MapSuperEntry \<Rightarrow> um_error + MapSuperEntry" where
  "begin_extend f nblocks e =
     MapSuperSetExtendingTarget (e\<lparr>runtime_flags := runtime_flags e OR MapSuperExtendingFlag f\<rparr>) f nblocks"

definition end_extend :: "ForkNumber \<Rightarrow> MapSuperEntry \<Rightarrow> um_error + MapSuperEntry" where
  "end_extend f e =
     MapSuperSetExtendingTarget (e\<lparr>runtime_flags := runtime_flags e AND NOT (MapSuperExtendingFlag f)\<rparr>)
       f InvalidBlockNumber"

definition publish_capacity ::
  "ForkNumber \<Rightarrow> BlockNumber \<Rightarrow> XLogRecPtr \<Rightarrow> MapSuperEntry \<Rightarrow> um_error + MapSuperEntry" where
  "publish_capacity f desired lsn e =
     bindE (MapSuperblockGetPhysCapacity (super e) f) (\<lambda>raw.
       if MapNormalizeForkBlockCount f raw < desired
       then bindE (MapSuperblockSetPhysCapacity (super e) f desired) (\<lambda>sb.
              Inr (stamp_entry lsn (e\<lparr>super := sb\<rparr>)))
       else Inr e)"

text \<open>The loop of the extending backend. Each round materialises the blocks up to \<open>desired\<close> and looks
  for a higher target that another backend asked for meanwhile; \<open>n\<close> bounds the rounds.\<close>

primrec extend_loop ::
  "nat \<Rightarrow> nat \<Rightarrow> RelFileLocator \<Rightarrow> ForkNumber \<Rightarrow> bool \<Rightarrow> BlockNumber \<Rightarrow> BlockNumber \<Rightarrow>
   ('x map_sb_scheme, bool) um" where
  "extend_loop 0 c rnode f skipFsync current desired = throwU (ERROR, E_WAIT)"
| "extend_loop (Suc n) c rnode f skipFsync current desired =
     bindU (forU (map of_nat [unat current..<unat desired]) (extend_block c f skipFsync)) (\<lambda>_.
     bindU (MapSuperPrepareEntryForUpdate c rnode InvalidXLogRecPtr) (\<lambda>prepared.
       case prepared of
         None \<Rightarrow> throwU (ERROR, E_INTERNAL)
       | Some slot \<Rightarrow>
           bindU (getE slot) (\<lambda>e0.
           bindU (liftU (MapSuperblockGetPhysCapacity (super e0) f)) (\<lambda>raw.
           bindU (resolve_lsn InvalidXLogRecPtr) (\<lambda>lsn.
           bindU (updE slot (publish_capacity f desired lsn)) (\<lambda>_.
           bindU (getE slot) (\<lambda>e.
             let current0 = MapNormalizeForkBlockCount f raw;
                 current' = (if current0 < desired then desired else current0);
                 desired' = max desired (MapSuperGetExtendingTarget e f)
             in if current' \<ge> desired'
                then bindU (updE slot (end_extend f)) (\<lambda>_. returnU True)
                else bindU (updE slot (\<lambda>e. MapSuperSetExtendingTarget e f desired')) (\<lambda>_.
                     extend_loop n c rnode f skipFsync current' desired'))))))))"

definition MapSBlockEnsurePhysicalNblocks ::
  "nat \<Rightarrow> nat \<Rightarrow> RelFileLocator \<Rightarrow> ForkNumber \<Rightarrow> BlockNumber \<Rightarrow> bool \<Rightarrow> ('x map_sb_scheme, bool) um" where
  "MapSBlockEnsurePhysicalNblocks rounds c rnode f nblocks skipFsync =
     (if \<not> MapForkHasMappedState f then returnU False
      else if nblocks = 0 then returnU True
      else
        bindU (MapSBlockEnsureLoaded c rnode) (\<lambda>loaded.
          if \<not> loaded then returnU False
          else
            bindU (MapSuperPrepareEntryForUpdate c rnode InvalidXLogRecPtr) (\<lambda>prepared.
              case prepared of
                None \<Rightarrow> returnU False
              | Some slot \<Rightarrow>
                  bindU (getE slot) (\<lambda>e.
                  bindU (liftU (MapSuperblockGetPhysCapacity (super e) f)) (\<lambda>raw.
                    let current = MapNormalizeForkBlockCount f raw in
                    if current \<ge> nblocks then returnU True
                    else if has_flag (runtime_flags e) (MapSuperExtendingFlag f)
                    then
                      bindU (whenU (MapSuperGetExtendingTarget e f < nblocks)
                               (updE slot (\<lambda>e. MapSuperSetExtendingTarget e f nblocks))) (\<lambda>_.
                      throwU (ERROR, E_WAIT))
                    else
                      bindU (updE slot (begin_extend f nblocks)) (\<lambda>_.
                      catchU (extend_loop rounds c rnode f skipFsync current nblocks)
                        (bindU (MapSuperFindEntryLocked rnode) (\<lambda>found.
                           case found of
                             None \<Rightarrow> returnU ()
                           | Some slot \<Rightarrow> updE slot (end_extend f)))))))))"

subsection \<open>The allocator invariant of an entry\<close>

lemma MapForkHasMappedState_iff: "MapForkHasMappedState f \<longleftrightarrow> mapped_fork f"
  by (cases f) (simp_all add: mapped_fork_def)

interpretation reserved: fork_field MapSuperGetReservedNextFree MapSuperPutReservedNextFree
proof
  show "MapSuperGetReservedNextFree s' g = (if g = f then Inr v else MapSuperGetReservedNextFree s g)"
    if "MapSuperPutReservedNextFree s f v = Inr s'" for s f v s' g
    using that by (cases f; cases g) auto
qed (auto elim!: MapSuperGetReservedNextFree.elims MapSuperPutReservedNextFree.elims simp: mapped_fork_def)

interpretation reclaim: fork_field MapSuperGetReclaimBoundary MapSuperSetReclaimBoundary
proof
  show "MapSuperGetReclaimBoundary s' g = (if g = f then Inr v else MapSuperGetReclaimBoundary s g)"
    if "MapSuperSetReclaimBoundary s f v = Inr s'" for s f v s' g
    using that by (cases f; cases g) auto
qed (auto elim!: MapSuperGetReclaimBoundary.elims MapSuperSetReclaimBoundary.elims simp: mapped_fork_def)

text \<open>The normalised frontier, reservation, reclaim boundary, capacity and logical size of a fork.\<close>

definition nval :: "ForkNumber \<Rightarrow> um_error + BlockNumber \<Rightarrow> BlockNumber" where
  "nval f m = (case m of Inl e \<Rightarrow> 0 | Inr v \<Rightarrow> MapNormalizeForkBlockCount f v)"

definition next_free_of :: "MapSuperEntry \<Rightarrow> ForkNumber \<Rightarrow> BlockNumber" where
  "next_free_of e f = nval f (MapSuperblockGetNextFreePhysBlock (super e) f)"

definition reserved_of :: "MapSuperEntry \<Rightarrow> ForkNumber \<Rightarrow> BlockNumber" where
  "reserved_of e f = (case MapSuperGetReservedNextFree e f of Inl _ \<Rightarrow> 0 | Inr v \<Rightarrow> v)"

definition boundary_of :: "MapSuperEntry \<Rightarrow> ForkNumber \<Rightarrow> BlockNumber" where
  "boundary_of e f = nval f (MapSuperGetReclaimBoundary e f)"

definition capacity_of :: "MapSuperEntry \<Rightarrow> ForkNumber \<Rightarrow> BlockNumber" where
  "capacity_of e f = nval f (MapSuperblockGetPhysCapacity (super e) f)"

definition logical_of :: "MapSuperEntry \<Rightarrow> ForkNumber \<Rightarrow> BlockNumber" where
  "logical_of e f = nval f (MapSuperblockGetLogicalNblocks (super e) f)"

lemmas entry_values = next_free_of_def reserved_of_def boundary_of_def capacity_of_def logical_of_def
  nval_def

definition alloc_ok :: "MapSuperEntry \<Rightarrow> bool" where
  "alloc_ok e \<longleftrightarrow> (\<forall>f. mapped_fork f \<longrightarrow> boundary_of e f \<le> next_free_of e f \<and> next_free_of e f \<le> reserved_of e f)"

lemma alloc_ok_forks:
  "alloc_ok e \<longleftrightarrow> (\<forall>f \<in> {MAIN_FORKNUM, FSM_FORKNUM, VISIBILITYMAP_FORKNUM}.
     boundary_of e f \<le> next_free_of e f \<and> next_free_of e f \<le> reserved_of e f)"
  by (auto simp: alloc_ok_def mapped_fork_def)

definition same_link :: "MapSuperEntry \<Rightarrow> MapSuperEntry \<Rightarrow> bool" where
  "same_link e e' \<longleftrightarrow> key e' = key e \<and> in_use e' = in_use e \<and> next_free_slot e' = next_free_slot e"

text \<open>An entry update that always succeeds, keeps the linkage and keeps the allocator invariant.\<close>

definition safe_update :: "(MapSuperEntry \<Rightarrow> um_error + MapSuperEntry) \<Rightarrow> bool" where
  "safe_update u \<longleftrightarrow> (\<forall>e. \<exists>e'. u e = Inr e' \<and> same_link e e' \<and> (alloc_ok e \<longrightarrow> alloc_ok e'))"

lemma norm_idem [simp]: "MapNormalizeForkBlockCount f (MapNormalizeForkBlockCount f b) = MapNormalizeForkBlockCount f b"
  by (simp add: MapNormalizeForkBlockCount_def InvalidBlockNumber_def)

lemma safe_update_reset:
  "safe_update (\<lambda>e. bindE (MapSuperResetReservedNextFrees (g e)) MapSuperResetReclaimBoundaries)"
  if "\<And>e. same_link e (g e)"
  using that unfolding safe_update_def
  by (auto simp: MapSuperResetReservedNextFrees_def MapSuperResetReclaimBoundaries_def
      MapSuperSetReservedNextFree_def same_link_def alloc_ok_forks entry_values)

lemma safe_update_Inr: "safe_update Inr"
  by (simp add: safe_update_def same_link_def)

lemma safe_update_if: "safe_update u \<Longrightarrow> safe_update v \<Longrightarrow> safe_update (\<lambda>e. if P e then u e else v e)"
  by (auto simp: safe_update_def)

lemma safe_updates_pure:
  "safe_update (MapSuperPopulate st sb)" "safe_update MapSuperRebuild" "safe_update (init_entry lsn)"
proof -
  have "same_link e (e\<lparr>super := a, page_lsn := b, flags := c\<rparr>)" "same_link e (e\<lparr>super := a, flags := c\<rparr>)"
    for e a b c by (simp_all add: same_link_def)
  note r = safe_update_reset [OF this(1)] safe_update_reset [OF this(2)]
  show "safe_update MapSuperRebuild" unfolding MapSuperRebuild_def by (rule r(2))
  show "safe_update (init_entry lsn)" unfolding init_entry_def by (rule r(1))
  show "safe_update (MapSuperPopulate st sb)"
    unfolding MapSuperPopulate_def by (intro safe_update_if safe_update_Inr r(1))
qed

text \<open>The fields the invariant reads; an update that leaves them alone is safe.\<close>

definition alloc_view :: "MapSuperEntry \<Rightarrow> BlockNumber list" where
  "alloc_view e = [next_free_phys_block_main (super e), next_free_phys_block_fsm (super e),
     next_free_phys_block_vm (super e), reserved_next_free_main e, reserved_next_free_fsm e,
     reserved_next_free_vm e, reclaim_boundary_main e, reclaim_boundary_fsm e, reclaim_boundary_vm e]"

lemma alloc_ok_view: "alloc_view e' = alloc_view e \<Longrightarrow> alloc_ok e' = alloc_ok e"
  by (simp add: alloc_view_def alloc_ok_forks entry_values)

definition neutral_update :: "(MapSuperEntry \<Rightarrow> um_error + MapSuperEntry) \<Rightarrow> bool" where
  "neutral_update u \<longleftrightarrow> (\<forall>e. \<exists>e'. u e = Inr e' \<and> same_link e e' \<and> alloc_view e' = alloc_view e)"

lemma neutral_safe: "neutral_update u \<Longrightarrow> safe_update u"
  unfolding neutral_update_def safe_update_def using alloc_ok_view by blast

lemmas neutral_simps = neutral_update_def same_link_def alloc_view_def stamp_entry_def
  MapSuperblockSetLastUpdatedLSN_def MapSuperblockSetFlags_def Let_def

lemma neutral_logical:
  assumes "mapped_fork f"
  shows "neutral_update (update_logical f n b lsn)"
  using assms by (cases f rule: mapped_fork_cases) (simp_all add: neutral_simps update_logical_def)

lemma neutral_pending: "neutral_update (update_pending p lsn)"
  by (simp add: neutral_simps update_pending_def)

lemma neutral_extending:
  assumes "mapped_fork f"
  shows "neutral_update (begin_extend f n)" "neutral_update (end_extend f)"
    "neutral_update (\<lambda>e. MapSuperSetExtendingTarget e f n)" "neutral_update (publish_capacity f n lsn)"
  using assms
  by (cases f rule: mapped_fork_cases;
      simp add: neutral_simps begin_extend_def end_extend_def publish_capacity_def)+

lemma bump_next_free_safe:
  assumes "mapped_fork f" and "n \<noteq> InvalidBlockNumber" and "next_free_of e f < n"
  shows "\<exists>e'. bump_next_free_entry rec f n e = Inr e' \<and> same_link e e' \<and> (alloc_ok e \<longrightarrow> alloc_ok e') \<and>
     super e' = projr (MapSuperblockSetNextFreePhysBlock (super e) f n)"
  using assms
  by (cases f rule: mapped_fork_cases; cases rec)
    (auto simp: bump_next_free_entry_def same_link_def alloc_ok_forks entry_values
      MapSuperMaybeBumpReservedNextFree_def MapSuperSetReservedNextFree_def
      MapNormalizeForkBlockCount_def)

lemma stamp_neutral: "same_link e (stamp_entry lsn e)" "alloc_view (stamp_entry lsn e) = alloc_view e"
  by (simp_all add: neutral_simps)

lemma set_capacity_neutral:
  assumes "mapped_fork f"
  obtains sb where "MapSuperblockSetPhysCapacity (super e) f n = Inr sb"
    "same_link e (e\<lparr>super := sb\<rparr>)" "alloc_view (e\<lparr>super := sb\<rparr>) = alloc_view e"
  using assms by (cases f rule: mapped_fork_cases) (simp_all add: same_link_def alloc_view_def)

lemma same_link_trans: "same_link a b \<Longrightarrow> same_link b c \<Longrightarrow> same_link a c"
  by (simp add: same_link_def)

lemma safe_update_physical:
  assumes f: "mapped_fork f" and n: "n \<noteq> InvalidBlockNumber"
  shows "safe_update (update_physical rec f n bn bc lsn)"
  unfolding safe_update_def
proof
  fix e :: MapSuperEntry
  obtain rn rc where raw: "MapSuperblockGetNextFreePhysBlock (super e) f = Inr rn"
    "MapSuperblockGetPhysCapacity (super e) f = Inr rc"
    using f next_free.getE capacity.getE by metis
  define dn where "dn = (bn \<and> MapNormalizeForkBlockCount f rn < n)"
  define dc where "dc = (bc \<and> MapNormalizeForkBlockCount f rc < n)"
  have "next_free_of e f < n" if dn
    using that raw by (simp add: dn_def entry_values)
  then obtain e1 where e1: "(if dn then bump_next_free_entry rec f n e else Inr e) = Inr e1"
    "same_link e e1" "alloc_ok e \<longrightarrow> alloc_ok e1"
    using bump_next_free_safe [OF f n] by (cases dn) (auto simp: same_link_def)
  obtain sb where sb: "MapSuperblockSetPhysCapacity (super e1) f n = Inr sb"
    "same_link e1 (e1\<lparr>super := sb\<rparr>)" "alloc_view (e1\<lparr>super := sb\<rparr>) = alloc_view e1"
    using set_capacity_neutral [OF f] .
  obtain e2 where e2: "(if dc then bindE (MapSuperblockSetPhysCapacity (super e1) f n)
      (\<lambda>sb. Inr (e1\<lparr>super := sb\<rparr>)) else Inr e1) = Inr e2"
    "same_link e1 e2" "alloc_view e2 = alloc_view e1"
    using sb by (cases dc) (auto simp: same_link_def)
  define e3 where "e3 = (if dn \<or> dc then stamp_entry lsn e2 else e2)"
  have e3: "same_link e2 e3" "alloc_view e3 = alloc_view e2"
    using stamp_neutral [where e = e2 and lsn = lsn] by (auto simp: e3_def same_link_def)
  have "update_physical rec f n bn bc lsn e = Inr e3"
    using e1(1) e2(1) by (simp add: update_physical_def raw Let_def dn_def [symmetric] dc_def [symmetric] e3_def)
  then show "\<exists>e'. update_physical rec f n bn bc lsn e = Inr e' \<and> same_link e e' \<and> (alloc_ok e \<longrightarrow> alloc_ok e')"
    using e1 e2 e3 same_link_trans alloc_ok_view by metis
qed

lemma safe_update_reclaim:
  assumes "mapped_fork f"
  shows "safe_update (advance_reclaim f b)"
  unfolding safe_update_def
proof
  fix e
  show "\<exists>e'. advance_reclaim f b e = Inr e' \<and> same_link e e' \<and> (alloc_ok e \<longrightarrow> alloc_ok e')"
    using assms
    by (cases f rule: mapped_fork_cases)
      (auto simp: advance_reclaim_def same_link_def alloc_ok_forks entry_values Let_def
        MapNormalizeForkBlockCount_def)
qed

end
