(* ===== verification/MapSuperSpec.thy ===== *)
theory MapSuperSpec
  imports MapSuperState
begin

unbundle bit_operations_syntax

text \<open>
  Specifications of the superblock operations of \<^verbatim>\<open>MapSuperState\<close> and the properties of
  \<^verbatim>\<open>src/backend/storage/map/mapsuper.c\<close>: every operation keeps the table and allocator invariants,
  the getters return what the updates stored, a created superblock survives the loss of the shared
  entry, and WAL is flushed before the sector it describes is written.
\<close>

subsection \<open>Frames\<close>

text \<open>What a step leaves of the files, and what a file operation leaves of the table.\<close>

definition fs_view :: "'x um_fs_scheme \<Rightarrow> um_fs" where
  "fs_view s = um_fs.truncate s"

lemma fs_view_fields:
  assumes "fs_view t = fs_view s"
  shows "um_dir t = um_dir s" "um_inode t = um_inode s" "um_next_inode t = um_next_inode s"
    "um_ctxs t = um_ctxs s" "InRecovery t = InRecovery s"
  using assms by (simp_all add: fs_view_def um_fs.truncate_def um_fs.make_def)

lemma fs_view_same:
  assumes "fs_view t = fs_view s"
  shows "fs_ok t = fs_ok s" "ctx_ok t c = ctx_ok s c" "ctx_rloc t c = ctx_rloc s c"
    "fork_block t = fork_block s" "path_inode t = path_inode s" "InRecovery t = InRecovery s"
    "ctx_segs t = ctx_segs s"
proof -
  note fields = fs_view_fields [OF assms]
  show path: "path_inode t = path_inode s"
    by (rule ext) (simp add: path_inode_def fields)
  show rloc: "ctx_rloc t c = ctx_rloc s c" for c
    by (simp add: ctx_rloc_def fields)
  show segs: "ctx_segs t = ctx_segs s"
    by (intro ext) (simp add: ctx_segs_def fields)
  show "fork_block t = fork_block s"
    by (intro ext) (simp only: fork_block_def path fields)
  have full: "seg_full t = seg_full s"
    by (intro ext) (simp only: seg_full_def path fields)
  have entry: "seg_entry_ok t = seg_entry_ok s"
    by (intro ext) (simp only: seg_entry_ok_def path)
  show "fs_ok t = fs_ok s"
    unfolding fs_ok_def path full fields ..
  show "ctx_ok t c = ctx_ok s c"
    unfolding ctx_ok_def segs entry rloc ..
qed (rule fs_view_fields(5) [OF assms])

lemma more_fields:
  fixes s t :: "'x map_sb_scheme"
  assumes "um_fs.more t = um_fs.more s"
  shows "MapSuperEntries t = MapSuperEntries s" "MapSuperIndex t = MapSuperIndex s"
    "free_head t = free_head s" "super_cap t = super_cap s"
    "XLogFlushRecPtr t = XLogFlushRecPtr s" "XLogWriteRecPtr t = XLogWriteRecPtr s"
    "XLogReplayRecPtr t = XLogReplayRecPtr s" "map_sb.more t = map_sb.more s"
  using assms by (cases s; cases t; simp)+

lemma fs_view_upd_entry [simp]: "fs_view (upd_entry i f s) = fs_view s"
  by (simp add: fs_view_def upd_entry_def um_fs.truncate_def um_fs.make_def)

lemma fs_view_inserted [simp]: "fs_view (inserted s r b i) = fs_view s"
  by (simp add: fs_view_def inserted_def um_fs.truncate_def um_fs.make_def)

definition sb_ok :: "'x map_super_scheme \<Rightarrow> bool" where
  "sb_ok s \<longleftrightarrow> super_ok s \<and> (\<forall>e \<in> set (MapSuperEntries s). in_use e \<longrightarrow> alloc_ok e)"

lemma sb_ok_more: "um_fs.more t = um_fs.more s \<Longrightarrow> sb_ok t = sb_ok (s :: 'x map_sb_scheme)"
  using more_fields [of t s] by (simp add: sb_ok_def super_ok_def)

text \<open>The state invariant for a file context of the relation \<open>r\<close>.\<close>

definition sb_inv :: "nat \<Rightarrow> RelFileLocatorBackend \<Rightarrow> 'x map_sb_scheme \<Rightarrow> bool" where
  "sb_inv c r s \<longleftrightarrow> fs_ok s \<and> ctx_ok s c \<and> ctx_rloc s c = r \<and> sb_ok s"

lemma sb_invD:
  assumes "sb_inv c r s"
  shows "fs_ok s" "ctx_ok s c" "ctx_rloc s c = r" "sb_ok s" "super_ok s"
  using assms by (auto simp: sb_inv_def sb_ok_def)

lemma sb_inv_fs_ext:
  assumes "sb_inv c r s" and "fs_ext s t"
  shows "sb_inv c r t" "MapSuperEntries t = MapSuperEntries s" "InRecovery t = InRecovery s"
  using assms fs_extD(1-3,7,8) [OF assms(2)] sb_ok_more more_fields(1)
  by (auto simp: sb_inv_def)

lemma sb_inv_fs_mod:
  assumes "sb_inv c r s" and "fs_mod P s t"
  shows "sb_inv c r t" "MapSuperEntries t = MapSuperEntries s" "InRecovery t = InRecovery s"
  using assms fs_modD(1-3,7,8) [OF assms(2)] sb_ok_more more_fields(1)
  by (auto simp: sb_inv_def)

lemma sb_inv_fs_view:
  assumes "sb_inv c r s" and "fs_view t = fs_view s" and "sb_ok t"
  shows "sb_inv c r t"
  using assms fs_view_same [OF assms(2)] by (auto simp: sb_inv_def)

subsection \<open>Specifications of the shared steps\<close>

lemma sb_ok_upd_entry:
  assumes "sb_ok s" and "u (MapSuperEntries s ! i) = Inr e'" and "safe_update u"
  shows "sb_ok (upd_entry i (\<lambda>_. e') s)"
proof (cases "i < length (MapSuperEntries s)")
  case True
  let ?e = "MapSuperEntries s ! i"
  have e': "same_link ?e e'" "alloc_ok ?e \<Longrightarrow> alloc_ok e'"
    using assms(2,3) unfolding safe_update_def by (metis sum.inject(2))+
  define g where "g = (\<lambda>e. if e = ?e then e' else e)"
  have "super_ok (upd_entry i g s)"
    using assms(1) e'(1) by (intro super_ok_upd_entry) (auto simp: g_def sb_ok_def same_link_def)
  moreover have "upd_entry i g s = upd_entry i (\<lambda>_. e') s"
    by (simp add: upd_entry_def g_def)
  moreover have "in_use e \<longrightarrow> alloc_ok e" if "e \<in> set ((MapSuperEntries s)[i := e'])" for e
    using set_update_subset_insert [of "MapSuperEntries s" i e'] that assms(1) e' True
    by (auto simp: sb_ok_def same_link_def)
  ultimately show ?thesis
    unfolding sb_ok_def by (simp add: upd_entry_def [of i "\<lambda>_. e'"])
qed (use assms(1) in \<open>simp add: sb_ok_def upd_entry_def list_update_beyond\<close>)

lemma updE_spec:
  assumes inv: "sb_inv c r s" and "safe_update u" and "i < length (MapSuperEntries s)"
  shows "wpU (updE i u) (\<lambda>res t. res = Inr () \<and> sb_inv c r t \<and> fs_view t = fs_view s \<and>
     (\<exists>e'. u (MapSuperEntries s ! i) = Inr e' \<and> t = upd_entry i (\<lambda>_. e') s)) s"
proof -
  obtain e' where e': "u (MapSuperEntries s ! i) = Inr e'"
    using assms(2) by (auto simp: safe_update_def)
  then show ?thesis
    using sb_inv_fs_view [OF inv _ sb_ok_upd_entry [OF sb_invD(4) [OF inv] e' assms(2)]]
    by (auto simp: updE_def wpU_def MapSuperEntryBySlot_def)
qed

lemma owns_upd_entry:
  assumes "owns (MapSuperEntries s) i r" and "same_link (MapSuperEntries s ! i) e'"
  shows "owns (MapSuperEntries (upd_entry i (\<lambda>_. e') s)) i r"
    "MapSuperEntries (upd_entry i (\<lambda>_. e') s) ! i = e'"
  using assms by (auto simp: owns_def upd_entry_def same_link_def)

lemma ensure_spec:
  assumes inv: "sb_inv c r s"
  shows "wpU (MapSuperEnsureEntryLocked rn) (\<lambda>res t. sb_inv c r t \<and> fs_view t = fs_view s \<and>
     (case res of
        Inl e \<Rightarrow> t = s \<and> (\<forall>i. \<not> owns (MapSuperEntries s) i rn)
      | Inr i \<Rightarrow> owns (MapSuperEntries t) i rn \<and>
          (if owns (MapSuperEntries s) i rn then t = s else MapSuperEntries t ! i = new_entry rn))) s"
proof -
  note ok = sb_invD [OF inv]
  obtain x b where x: "super_slot_lookup s rn = (x, b)" by fastforce
  note spec = lookup_spec [OF ok(5), of rn, unfolded x]
  have newok: "alloc_ok (new_entry rn)"
    by (simp add: new_entry_def reset_entry_def alloc_ok_forks entry_values MapNormalizeForkBlockCount_def
        zero_superblock_def)
  show ?thesis
  proof (cases "\<exists>i p. x = None \<and> b = Some p \<and> free_head s = FREENEXT_SLOT i")
    case True
    then obtain i p where ip: "x = None" "b = Some p" "free_head s = FREENEXT_SLOT i" by auto
    then have new: "\<And>j. \<not> owns (MapSuperEntries s) j rn" "insertable s rn p" using spec by auto
    note t = super_ok_inserted [OF ok(5) new(2) new(1) ip(3)]
      super_lookup_inserted [OF ok(5) new(2) new(1) ip(3), unfolded reset_entry_new]
    have "MapSuperEntries (inserted s rn p i) = (MapSuperEntries s)[i := new_entry rn]"
      by (simp add: inserted_def reset_entry_new)
    then have "sb_ok (inserted s rn p i)"
      using t(1) ok(4) newok set_update_subset_insert [of "MapSuperEntries s" i "new_entry rn"]
      by (auto simp: sb_ok_def)
    then have "sb_inv c r (inserted s rn p i)"
      by (intro sb_inv_fs_view [OF inv]) simp_all
    then show ?thesis
      using ip t(2,4) new(1) by (simp add: wpU_def ensure_run x)
  next
    case False
    then show ?thesis
      using inv spec by (auto simp: wpU_def ensure_run x split: option.splits free_next.splits)
  qed
qed

lemma find_spec:
  assumes inv: "sb_inv c r s"
  shows "wpU (MapSuperFindEntryLocked rn) (\<lambda>res t. t = s \<and> (case res of
       Inl e \<Rightarrow> False
     | Inr None \<Rightarrow> \<forall>i. \<not> owns (MapSuperEntries s) i rn
     | Inr (Some i) \<Rightarrow> owns (MapSuperEntries s) i rn)) s"
  using lookup_spec [OF sb_invD(5) [OF inv], of rn]
  by (auto simp: wpU_def find_run split: prod.splits option.splits)

text \<open>The superblock the file holds.\<close>

definition disk_super :: "'x um_fs_scheme \<Rightarrow> RelFileLocatorBackend \<Rightarrow> MapSuperblock option" where
  "disk_super s r = map_option (\<lambda>x. MapSuperblockUnpackSector (take (MAP_SUPERBLOCK_SIZE div 4) x))
     (fork_block s r UMBRA_METADATA_FORKNUM MAP_BLOCK_SUPER)"

lemma load_spec:
  assumes inv: "sb_inv c r s"
  shows "wpU (MapSuperLoadFromDisk c rn) (\<lambda>res t. sb_inv c r t \<and> fs_ext s t \<and>
     fork_block t = fork_block s \<and>
     (case res of
        Inl e \<Rightarrow> disk_super s r = None
      | Inr (st, sb) \<Rightarrow>
          (st = MAP_SBLOCK_READ_MISSING \<longleftrightarrow> path_inode s (r, UMBRA_METADATA_FORKNUM, 0) = None) \<and>
          (st \<noteq> MAP_SBLOCK_READ_MISSING \<longrightarrow> disk_super s r = Some sb \<and>
             (st = MAP_SBLOCK_READ_OK \<longleftrightarrow> MapSuperblockIsValid sb)))) s"
  unfolding MapSuperLoadFromDisk_def
proof (rule wpU_bindI [OF fork_exists_dense_spec [OF sb_invD(1,2) [OF inv]]], goal_cases)
  case (3 ex t)
  note r = sb_invD(3) [OF inv]
  have t: "fs_ext s t" "fork_block t = fork_block s" "ex = (path_inode s (r, UMBRA_METADATA_FORKNUM, 0) \<noteq> None)"
    using 3 r by auto
  note inv' = sb_inv_fs_ext [OF inv t(1)]
  note i = sb_invD [OF inv'(1)]
  show ?case
  proof (cases ex)
    case False
    then show ?thesis using t inv' by (simp add: wp)
  next
    case True
    have d: "umfile_fork_allows_sparse_segments UMBRA_METADATA_FORKNUM \<or>
        path_inode t (ctx_rloc t c, UMBRA_METADATA_FORKNUM, 0) \<noteq> None"
      using True t(3) fs_extD(4) [OF t(1)] i(3) by auto
    have "wpU (bindU (umfile_ctx_read c UMBRA_METADATA_FORKNUM MAP_BLOCK_SUPER MAP_SUPERBLOCK_SIZE) (\<lambda>sector.
        let sb = MapSuperblockUnpackSector sector
        in if \<not> MapSuperblockHasValidIdentity sb \<or> \<not> MapSuperblockCheckCRC sb
           then returnU (MAP_SBLOCK_READ_CORRUPT, sb) else returnU (MAP_SBLOCK_READ_OK, sb)))
      (\<lambda>res u. sb_inv c r u \<and> fs_ext s u \<and> fork_block u = fork_block s \<and>
        (case res of Inl e \<Rightarrow> disk_super s r = None
         | Inr (st, sb) \<Rightarrow> st \<noteq> MAP_SBLOCK_READ_MISSING \<and> disk_super s r = Some sb \<and>
             (st = MAP_SBLOCK_READ_OK \<longleftrightarrow> MapSuperblockIsValid sb))) t"
    proof (rule wpU_bindI [OF ctx_read_spec [OF i(1,2) d]], goal_cases)
      case (1 e u)
      then show ?case
        using t i(3) fs_ext_trans [OF t(1)] sb_inv_fs_ext(1) [OF inv'(1)]
        by (auto simp: disk_super_def split: option.splits)
    next
      case (2 sector u)
      then have u: "fs_ext t u" "fork_block u = fork_block s" "disk_super s r = Some (MapSuperblockUnpackSector sector)"
        using t i(3) by (auto simp: disk_super_def split: option.splits)
      then show ?case
        using fs_ext_trans [OF t(1) u(1)] sb_inv_fs_ext(1) [OF inv'(1) u(1)]
        by (auto simp: Let_def wp MapSuperblockIsValid_def)
    qed
    then show ?thesis
      using True t(3) by (auto elim!: wpU_mono split: sum.splits)
  qed
qed simp_all

text \<open>What the table operations leave of the rest of the state.\<close>

definition sb_frame :: "'x map_sb_scheme \<Rightarrow> 'x map_sb_scheme \<Rightarrow> bool" where
  "sb_frame s t \<longleftrightarrow> fork_block t = fork_block s \<and>
     (\<forall>p i. path_inode s p = Some i \<longrightarrow> path_inode t p = Some i) \<and> InRecovery t = InRecovery s \<and>
     XLogWriteRecPtr t = XLogWriteRecPtr s \<and> XLogReplayRecPtr t = XLogReplayRecPtr s \<and>
     XLogFlushRecPtr t = XLogFlushRecPtr s"

lemma sb_frame_refl [simp]: "sb_frame s s"
  by (simp add: sb_frame_def)

lemma sb_frame_trans [trans]: "sb_frame s t \<Longrightarrow> sb_frame t u \<Longrightarrow> sb_frame s u"
  by (auto simp: sb_frame_def)

lemma sb_frame_ext: "fs_ext s t \<Longrightarrow> fork_block t = fork_block s \<Longrightarrow> sb_frame s t"
  using fs_extD(4,7,8) [of s t] more_fields [of t s] by (auto simp: sb_frame_def)

lemma sb_frame_upd_entry [simp]: "sb_frame s (upd_entry i f s)"
proof -
  have "fs_view (upd_entry i f s) = fs_view s" by simp
  from fs_view_same [OF this] show ?thesis
    by (simp add: sb_frame_def) (simp add: upd_entry_def)
qed

lemma sb_frame_inserted [simp]: "sb_frame s (inserted s r b i)"
proof -
  have "fs_view (inserted s r b i) = fs_view s" by simp
  from fs_view_same [OF this] show ?thesis
    by (simp add: sb_frame_def) (simp add: inserted_def)
qed

lemma ensure_frame: "wpU (MapSuperEnsureEntryLocked rn) (\<lambda>res t. sb_frame s t) s"
  by (simp add: wpU_def ensure_run split: prod.split option.split free_next.split)

text \<open>An entry update on the owner of a relation.\<close>

lemma updE_owner_spec:
  assumes inv: "sb_inv c r s" and u: "safe_update u" and own: "owns (MapSuperEntries s) i rn"
  shows "wpU (updE i u) (\<lambda>res t. res = Inr () \<and> sb_inv c r t \<and> sb_frame s t \<and>
     owns (MapSuperEntries t) i rn \<and> u (MapSuperEntries s ! i) = Inr (MapSuperEntries t ! i)) s"
proof (rule wpU_mono [OF updE_spec [OF inv u]], goal_cases)
  case 1
  show ?case using own by (simp add: owns_def)
next
  case (2 res t)
  then obtain e' where e': "u (MapSuperEntries s ! i) = Inr e'" "t = upd_entry i (\<lambda>_. e') s" by auto
  have "same_link (MapSuperEntries s ! i) e'"
    using u e'(1) unfolding safe_update_def by (metis sum.inject(2))
  then show ?case
    using 2 e' owns_upd_entry [OF own] by auto
qed

text \<open>Filling the shared entry from disk, the step common to all loading paths.\<close>

definition entry_or_new :: "'x map_sb_scheme \<Rightarrow> nat \<Rightarrow> RelFileLocator \<Rightarrow> MapSuperEntry" where
  "entry_or_new s i rn = (if owns (MapSuperEntries s) i rn then MapSuperEntries s ! i else new_entry rn)"

lemma ensure_entry_spec:
  assumes inv: "sb_inv c r s"
    and k: "\<And>i t. sb_inv c r t \<Longrightarrow> sb_frame s t \<Longrightarrow> owns (MapSuperEntries t) i rn \<Longrightarrow>
        MapSuperEntries t ! i = entry_or_new s i rn \<Longrightarrow> wpU (k i) Q t"
    and e: "\<And>e. \<forall>i. \<not> owns (MapSuperEntries s) i rn \<Longrightarrow> Q (Inl e) s"
  shows "wpU (bindU (MapSuperEnsureEntryLocked rn) k) Q s"
proof (rule wpU_bindI [OF wpU_conj [OF ensure_spec [OF inv] ensure_frame]], goal_cases)
  case (1 e t)
  then show ?case using e by auto
next
  case (2 i t)
  then show ?case by (intro k) (auto simp: entry_or_new_def split: if_splits)
qed

lemma fill_spec:
  assumes inv: "sb_inv c r s"
    and k: "\<And>i t. sb_inv c r t \<Longrightarrow> sb_frame s t \<Longrightarrow> owns (MapSuperEntries t) i rn \<Longrightarrow>
        MapSuperPopulate st sb (entry_or_new s i rn) = Inr (MapSuperEntries t ! i) \<Longrightarrow> wpU (k i) Q t"
    and e: "\<And>e. \<forall>i. \<not> owns (MapSuperEntries s) i rn \<Longrightarrow> Q (Inl e) s"
  shows "wpU (bindU (MapSuperEnsureEntryLocked rn) (\<lambda>slot.
      bindU (updE slot (MapSuperPopulate st sb)) (\<lambda>_. k slot))) Q s"
proof (rule ensure_entry_spec [OF inv], goal_cases)
  case (1 i t)
  show ?case
  proof (rule wpU_bindI [OF updE_owner_spec [OF 1(1) safe_updates_pure(1) 1(3)]], goal_cases)
    case (2 u v)
    then show ?case
      using 1 sb_frame_trans [OF 1(2), of v] by (intro k) auto
  qed simp
qed (rule e)

text \<open>Preparing an entry for an update. A trusted entry is returned as it is.\<close>

definition prepared_post ::
  "nat \<Rightarrow> RelFileLocatorBackend \<Rightarrow> RelFileLocator \<Rightarrow> 'x map_sb_scheme \<Rightarrow> um_error + nat option \<Rightarrow>
   'x map_sb_scheme \<Rightarrow> bool" where
  "prepared_post c r rn s res t \<longleftrightarrow> sb_inv c r t \<and> sb_frame s t \<and>
     (case res of
        Inl e \<Rightarrow> True
      | Inr None \<Rightarrow> InRecovery s \<and> (\<forall>i. \<not> owns (MapSuperEntries s) i rn)
      | Inr (Some i) \<Rightarrow> owns (MapSuperEntries t) i rn \<and>
          MapSuperblockHasValidIdentity (super (MapSuperEntries t ! i))) \<and>
     (\<forall>i. owns (MapSuperEntries s) i rn \<and> \<not> entry_untrusted (MapSuperEntries s ! i) \<longrightarrow>
        res = Inr (Some i) \<and> t = s)"

lemma rebuild_identity:
  assumes "MapSuperRebuild e = Inr e'"
  shows "MapSuperblockHasValidIdentity (super e')"
  using assms
  by (auto simp: MapSuperRebuild_def MapSuperResetReservedNextFrees_def MapSuperSetReservedNextFree_def
      MapSuperResetReclaimBoundaries_def MapSuperblockHasValidIdentity_def MapSuperblockInit_def)

definition check_trust ::
  "bool \<Rightarrow> XLogRecPtr \<Rightarrow> RelFileLocator \<Rightarrow> nat option \<Rightarrow> ('x map_sb_scheme, nat option) um" where
  "check_trust rec map_lsn rnode prepared =
     (case prepared of
         None \<Rightarrow> returnU None
       | Some slot \<Rightarrow>
           bindU (getE slot) (\<lambda>e.
             if entry_untrusted e
             then (if \<not> rec \<or> map_lsn = InvalidXLogRecPtr then MapSBlockReportCorrupt rnode
                   else bindU (updE slot MapSuperRebuild) (\<lambda>_. returnU (Some slot)))
             else returnU (Some slot)))"

lemma check_trust_spec:
  assumes inv: "sb_inv c r s" and own: "owns (MapSuperEntries s) i rn"
  shows "wpU (check_trust rec lsn rn (Some i)) (\<lambda>res t. sb_inv c r t \<and> sb_frame s t \<and>
     (case res of Inl e \<Rightarrow> True
      | Inr x \<Rightarrow> x = Some i \<and> owns (MapSuperEntries t) i rn \<and>
          MapSuperblockHasValidIdentity (super (MapSuperEntries t ! i))) \<and>
     (\<not> entry_untrusted (MapSuperEntries s ! i) \<longrightarrow> res = Inr (Some i) \<and> t = s)) s"
proof (cases "entry_untrusted (MapSuperEntries s ! i)")
  case True
  have "wpU (bindU (updE i MapSuperRebuild) (\<lambda>_. returnU (Some i))) (\<lambda>res t. sb_inv c r t \<and> sb_frame s t \<and>
     (case res of Inl e \<Rightarrow> True
      | Inr x \<Rightarrow> x = Some i \<and> owns (MapSuperEntries t) i rn \<and>
          MapSuperblockHasValidIdentity (super (MapSuperEntries t ! i)))) s"
    by (rule wpU_bindI [OF updE_owner_spec [OF inv safe_updates_pure(2) own]])
      (auto simp: wp intro: rebuild_identity)
  then show ?thesis
    using True inv by (auto simp: check_trust_def getE_def wp MapSuperEntryBySlot_def
        MapSBlockReportCorrupt_def elim!: wpU_mono)
next
  case False
  then show ?thesis
    using inv own by (auto simp: check_trust_def getE_def wp MapSuperEntryBySlot_def entry_untrusted_def)
qed

lemma sb_inv_missing:
  assumes "sb_inv c r s"
  shows "sb_inv c r (s\<lparr>MissingMetadata := m\<rparr>)" "sb_frame s (s\<lparr>MissingMetadata := m\<rparr>)"
proof -
  have v: "fs_view (s\<lparr>MissingMetadata := m\<rparr>) = fs_view s"
    by (simp add: fs_view_def um_fs.truncate_def um_fs.make_def)
  have "sb_ok (s\<lparr>MissingMetadata := m\<rparr>)"
    using sb_invD(4) [OF assms] by (simp add: sb_ok_def super_ok_def)
  then show "sb_inv c r (s\<lparr>MissingMetadata := m\<rparr>)" by (rule sb_inv_fs_view [OF assms v])
  show "sb_frame s (s\<lparr>MissingMetadata := m\<rparr>)"
    using fs_view_same [OF v] by (simp add: sb_frame_def)
qed

lemma load_missing_spec:
  assumes inv: "sb_inv c r s"
  shows "wpU (bindU (MapSuperLoadFromDisk c rn) (\<lambda>(status, disk_super).
                  if status = MAP_SBLOCK_READ_MISSING
                  then (if rec then bindU (XLogLogMissingRelationMetadata rn) (\<lambda>_. returnU None)
                        else throwU (ERROR, E_MAP_MISSING))
                  else
                    bindU (MapSuperEnsureEntryLocked rn) (\<lambda>slot.
                    bindU (updE slot (MapSuperPopulate status disk_super)) (\<lambda>_.
                    returnU (Some slot)))))
         (\<lambda>res t. sb_inv c r t \<and> sb_frame s t \<and> (case res of Inl e \<Rightarrow> True
            | Inr None \<Rightarrow> rec | Inr (Some i) \<Rightarrow> owns (MapSuperEntries t) i rn)) s"
proof (rule wpU_bindI [OF load_spec [OF inv]], goal_cases)
  case (1 e t)
  then show ?case using sb_frame_ext by auto
next
  case (2 x t)
  then have t: "sb_inv c r t" "sb_frame s t" using sb_frame_ext by auto
  obtain st sb where x: "x = (st, sb)" by fastforce
  show ?case
  proof (cases "st = MAP_SBLOCK_READ_MISSING")
    case True
    then show ?thesis
      using t sb_inv_missing [OF t(1)] sb_frame_trans [OF t(2)]
      by (auto simp: x XLogLogMissingRelationMetadata_def wp)
  next
    case False
    then show ?thesis
      unfolding x using t sb_frame_trans [OF t(2)]
      by simp (rule fill_spec [OF t(1)], auto simp: wp)
  qed
qed

lemma prepare_spec:
  assumes inv: "sb_inv c r s"
  shows "wpU (MapSuperPrepareEntryForUpdate c rn lsn) (prepared_post c r rn s) s"
proof -
  have "wpU (bindU (MapSuperFindEntryLocked rn) (\<lambda>found.
     bindU (case found of
              Some slot \<Rightarrow> returnU (Some slot)
            | None \<Rightarrow>
                bindU (MapSuperLoadFromDisk c rn) (\<lambda>(status, disk_super).
                  if status = MAP_SBLOCK_READ_MISSING
                  then (if InRecovery s then bindU (XLogLogMissingRelationMetadata rn) (\<lambda>_. returnU None)
                        else throwU (ERROR, E_MAP_MISSING))
                  else
                    bindU (MapSuperEnsureEntryLocked rn) (\<lambda>slot.
                    bindU (updE slot (MapSuperPopulate status disk_super)) (\<lambda>_.
                    returnU (Some slot))))) (check_trust (InRecovery s) lsn rn)))
    (prepared_post c r rn s) s"
  proof (rule wpU_bindI [OF find_spec [OF inv]], goal_cases)
    case (2 found t)
    then have [simp]: "t = s" by simp
    show ?case
    proof (cases found)
      case (Some i)
      then have own: "owns (MapSuperEntries s) i rn" using 2 by simp
      have uniq: "j = i" if "owns (MapSuperEntries s) j rn" for j
        using own that sb_invD(5) [OF inv] unfolding super_ok_def entries_ok_def by blast
      show ?thesis
        unfolding Some option.case \<open>t = s\<close> bindU_returnU
      proof (rule wpU_mono [OF check_trust_spec [OF inv own]], goal_cases)
        case (1 res u)
        then show ?case
          using uniq by (cases res) (auto simp: prepared_post_def)
      qed
    next
      case None
      then have none: "\<forall>i. \<not> owns (MapSuperEntries s) i rn" using 2 by simp
      have load: "wpU (bindU (MapSuperLoadFromDisk c rn) (\<lambda>(status, disk_super).
                  if status = MAP_SBLOCK_READ_MISSING
                  then (if InRecovery s then bindU (XLogLogMissingRelationMetadata rn) (\<lambda>_. returnU None)
                        else throwU (ERROR, E_MAP_MISSING))
                  else
                    bindU (MapSuperEnsureEntryLocked rn) (\<lambda>slot.
                    bindU (updE slot (MapSuperPopulate status disk_super)) (\<lambda>_.
                    returnU (Some slot)))))
         (\<lambda>res t. sb_inv c r t \<and> sb_frame s t \<and> (case res of Inl e \<Rightarrow> True
            | Inr None \<Rightarrow> InRecovery s | Inr (Some i) \<Rightarrow> owns (MapSuperEntries t) i rn)) s"
        using load_missing_spec [OF inv] by simp
      show ?thesis
        unfolding None option.case \<open>t = s\<close>
      proof (rule wpU_bindI [OF load], goal_cases)
        case (1 e u)
        then show ?case using none by (simp add: prepared_post_def)
      next
        case (2 x u)
        show ?case
        proof (cases x)
          case None
          then show ?thesis using 2 none by (simp add: check_trust_def wp prepared_post_def)
        next
          case (Some i)
          then have u: "sb_inv c r u" "sb_frame s u" "owns (MapSuperEntries u) i rn" using 2 by auto
          show ?thesis
            unfolding Some
            by (rule wpU_mono [OF check_trust_spec [OF u(1,3)]])
              (use none sb_frame_trans [OF u(2)] in \<open>auto simp: prepared_post_def split: sum.splits\<close>)
        qed
      qed
    qed
  qed simp
  then show ?thesis
    unfolding MapSuperPrepareEntryForUpdate_def check_trust_def [abs_def] by (simp add: wp)
qed

subsection \<open>Every operation keeps the invariant\<close>

named_theorems keeps_intros "operations that keep the superblock invariant"

definition keeps :: "nat \<Rightarrow> RelFileLocatorBackend \<Rightarrow> ('x map_sb_scheme, 'a) um \<Rightarrow> bool" where
  "keeps c r m \<longleftrightarrow> (\<forall>s. sb_inv c r s \<longrightarrow> wpU m (\<lambda>_ t. sb_inv c r t) s)"

lemma keepsI: "(\<And>s. sb_inv c r s \<Longrightarrow> wpU m (\<lambda>_ t. sb_inv c r t) s) \<Longrightarrow> keeps c r m"
  by (simp add: keeps_def)

lemma keeps_basic [keeps_intros]:
  "keeps c r (returnU x)" "keeps c r (throwU e)" "keeps c r (getU g)" "keeps c r (liftU y)"
  by (simp_all add: keeps_def wp)

lemma keeps_bindU [keeps_intros]:
  fixes m :: "('a map_sb_scheme, 'b) um"
  assumes "keeps c r m" and "\<And>x. keeps c r (f x)"
  shows "keeps c r (bindU m f)"
proof (rule keepsI)
  fix s :: "'a map_sb_scheme" assume "sb_inv c r s"
  then show "wpU (bindU m f) (\<lambda>_ t. sb_inv c r t) s"
    using assms by (intro wpU_bindI [where P = "\<lambda>_ t. sb_inv c r t"]) (auto simp: keeps_def)
qed

lemma keeps_control [keeps_intros]:
  "keeps c r m1 \<Longrightarrow> keeps c r m2 \<Longrightarrow> keeps c r (if b then m1 else m2)"
  "keeps c r m3 \<Longrightarrow> (\<And>x. keeps c r (k x)) \<Longrightarrow> keeps c r (case y of None \<Rightarrow> m3 | Some x \<Rightarrow> k x)"
  "(\<And>a b. keeps c r (h a b)) \<Longrightarrow> keeps c r (case p of (a, b) \<Rightarrow> h a b)"
  "keeps c r m4 \<Longrightarrow> keeps c r (whenU b m4)"
  by (auto simp: keeps_def wpU_whenU split: option.splits prod.splits)

lemma keeps_status [keeps_intros]:
  "keeps c r m1 \<Longrightarrow> keeps c r m2 \<Longrightarrow> keeps c r m3 \<Longrightarrow>
   keeps c r (case st of MAP_SBLOCK_READ_OK \<Rightarrow> m1 | MAP_SBLOCK_READ_MISSING \<Rightarrow> m2
     | MAP_SBLOCK_READ_CORRUPT \<Rightarrow> m3)"
  by (cases st) simp_all

lemma keeps_catchU [keeps_intros]:
  fixes m :: "('x map_sb_scheme, 'a) um"
  assumes "keeps c r m" and "keeps c r h"
  shows "keeps c r (catchU m h)"
proof (rule keepsI)
  fix s :: "'x map_sb_scheme" assume inv: "sb_inv c r s"
  obtain res t where m: "m s = (res, t)" by fastforce
  then have t: "sb_inv c r t" using assms(1) inv by (auto simp: keeps_def wpU_def)
  obtain res' u where h: "h t = (res', u)" by fastforce
  then have "sb_inv c r u" using assms(2) t by (auto simp: keeps_def wpU_def)
  then show "wpU (catchU m h) (\<lambda>_ t. sb_inv c r t) s"
    using t by (simp add: wpU_def catchU_def m h split: sum.split)
qed

lemma keeps_forU [keeps_intros]: "(\<And>x. keeps c r (m x)) \<Longrightarrow> keeps c r (forU xs m)"
  by (induction xs) (auto intro: keeps_intros)

lemma keeps_updE [keeps_intros]:
  assumes "safe_update u"
  shows "keeps c r (updE i u)"
proof (rule keepsI)
  fix s :: "'x map_sb_scheme" assume inv: "sb_inv c r s"
  obtain e' where e': "u (MapSuperEntries s ! i) = Inr e'"
    using assms by (auto simp: safe_update_def)
  then show "wpU (updE i u) (\<lambda>_ t. sb_inv c r t) s"
    using sb_inv_fs_view [OF inv _ sb_ok_upd_entry [OF sb_invD(4) [OF inv] e' assms]]
    by (simp add: updE_def wpU_def MapSuperEntryBySlot_def)
qed

lemma keeps_fork_exists: "keeps c r (umfile_ctx_fork_exists c UMBRA_METADATA_FORKNUM UMFILE_EXISTS_DENSE)"
proof (rule keepsI)
  fix s :: "'x map_sb_scheme" assume inv: "sb_inv c r s"
  show "wpU (umfile_ctx_fork_exists c UMBRA_METADATA_FORKNUM UMFILE_EXISTS_DENSE) (\<lambda>_ t. sb_inv c r t) s"
    using wpU_mono [OF fork_exists_dense_spec [OF sb_invD(1,2) [OF inv], of UMBRA_METADATA_FORKNUM]]
      sb_inv_fs_ext(1) [OF inv] by simp
qed

lemma keeps_prepare: "keeps c r (MapSuperPrepareEntryForUpdate c rn lsn)"
  by (rule keepsI, rule wpU_mono [OF prepare_spec]) (auto simp: prepared_post_def)

lemma keeps_load: "keeps c r (MapSuperLoadFromDisk c rn)"
  by (rule keepsI, rule wpU_mono [OF load_spec]) auto

lemma keeps_ensure: "keeps c r (MapSuperEnsureEntryLocked rn)"
  by (rule keepsI, rule wpU_mono [OF ensure_spec]) auto

lemma keeps_find: "keeps c r (MapSuperFindEntryLocked rn)"
  by (rule keepsI, rule wpU_mono [OF find_spec]) auto

lemmas keeps_shared [keeps_intros] = keeps_fork_exists keeps_prepare keeps_load keeps_ensure keeps_find

lemma keeps_reads [keeps_intros]:
  "keeps c r (getE i)" "keeps c r (resolve_lsn lsn)" "keeps c r (MapSBlockReportCorrupt rn)"
  by (simp_all add: getE_def resolve_lsn_def MapSBlockReportCorrupt_def keeps_intros)

lemma keeps_extend_block:
  assumes "mapped_fork f" and "fsync_ok r f skip"
  shows "keeps c r (extend_block c f skip b)"
  unfolding extend_block_def
proof (rule keepsI)
  fix s :: "'x map_sb_scheme" assume inv: "sb_inv c r s"
  have sparse: "umfile_fork_allows_sparse_segments f"
    using assms(1) by (cases f rule: mapped_fork_cases) auto
  show "wpU (bindU (umfile_ctx_block_exists c f b) (\<lambda>ex. whenU (\<not> ex) (umfile_zeroextend c f b 1 skip)))
      (\<lambda>_ t. sb_inv c r t) s"
  proof (rule wpU_bindI [OF block_exists_spec [OF sb_invD(1,2) [OF inv]]], goal_cases)
    case (1 e t)
    then show ?case by simp
  next
    case (2 ex t)
    then have inv': "sb_inv c r t" using sb_inv_fs_ext(1) [OF inv] by blast
    note i = sb_invD [OF inv']
    have fsync: "fsync_ok (ctx_rloc t c) f skip" using assms(2) i(3) by simp
    have "wpU (umfile_zeroextend c f b 1 skip) (\<lambda>_ u. sb_inv c r u) t"
      by (rule wpU_mono [OF zeroextend_spec [OF i(1,2) disjI1 [OF sparse] fsync]])
        (use sb_inv_fs_mod(1) [OF inv'] in blast)
    then show ?case using inv' by (simp add: wpU_whenU)
  qed
qed

lemma keeps_read_slow [keeps_intros]: "keeps c r (MapSBlockReadSlow c rn)"
  unfolding MapSBlockReadSlow_def Let_def by (intro keeps_intros safe_updates_pure)

lemma keeps_read [keeps_intros]: "keeps c r (MapSBlockRead c rn)"
  unfolding MapSBlockRead_def by (intro keeps_intros)

lemma keeps_ensure_loaded [keeps_intros]: "keeps c r (MapSBlockEnsureLoaded c rn)"
  unfolding MapSBlockEnsureLoaded_def by (intro keeps_intros safe_updates_pure)

lemma keeps_logical [keeps_intros]: "keeps c r (MapSBlockUpdateLogicalNblocks c rn f n lsn b)"
  unfolding MapSBlockUpdateLogicalNblocks_def
  by (cases "mapped_fork f")
    (auto simp: MapForkHasMappedState_iff intro!: keeps_intros neutral_safe neutral_logical)

lemma keeps_pending [keeps_intros]: "keeps c r (MapSBlockSetPendingFlag c rn p lsn)"
  unfolding MapSBlockSetPendingFlag_def by (intro keeps_intros neutral_safe neutral_pending)

lemma keeps_physical:
  "n \<noteq> InvalidBlockNumber \<Longrightarrow> keeps c r (MapSBlockBumpPhysicalState c rn f n bn bc lsn)"
  unfolding MapSBlockBumpPhysicalState_def
  by (cases "mapped_fork f")
    (auto simp: MapForkHasMappedState_iff intro!: keeps_intros safe_update_physical)

lemma keeps_getters [keeps_intros]:
  "keeps c r (sblock_getter get c rn f)" "keeps c r (MapSBlockForkExists c rn f)"
  "keeps c r (MapSBlockIsSkipWalPending c rn)" "keeps c r (MapSBlockTryGetReclaimBoundary c rn f)"
  unfolding sblock_getter_def MapSBlockForkExists_def MapSBlockIsSkipWalPending_def
    MapSBlockTryGetReclaimBoundary_def
  by (intro keeps_intros)+

lemma keeps_reclaim [keeps_intros]: "keeps c r (MapSBlockAdvanceReclaimBoundary c rn f b)"
  unfolding MapSBlockAdvanceReclaimBoundary_def
  by (cases "mapped_fork f")
    (auto simp: MapForkHasMappedState_iff intro!: keeps_intros safe_update_reclaim)

lemma keeps_extend_loop:
  assumes "mapped_fork f" and "fsync_ok r f skip"
  shows "keeps c r (extend_loop n c rn f skip cur des)"
  using assms
  by (induction n arbitrary: cur des)
    (auto simp: Let_def intro!: keeps_intros keeps_extend_block neutral_safe neutral_extending)

lemma keeps_ensure_physical:
  assumes "fsync_ok r f skip"
  shows "keeps c r (MapSBlockEnsurePhysicalNblocks rounds c rn f n skip)"
  unfolding MapSBlockEnsurePhysicalNblocks_def Let_def
  using assms by (cases "mapped_fork f")
    (auto simp: MapForkHasMappedState_iff intro!: keeps_intros keeps_extend_loop neutral_safe
      neutral_extending)

subsection \<open>Creating a superblock\<close>

definition initial_super :: "XLogRecPtr \<Rightarrow> MapSuperblock" where
  "initial_super lsn = MapSuperblockSetLastUpdatedLSN (MapSuperblockInit 0) lsn"

lemma init_entry_values:
  assumes "init_entry lsn e = Inr e'"
  shows "super e' = initial_super lsn" "page_lsn e' = lsn"
    "flags e' = MAPSUPER_FLAG_VALID OR MAPSUPER_FLAG_DIRTY"
  using assms
  by (auto simp: init_entry_def initial_super_def MapSuperResetReservedNextFrees_def
      MapSuperSetReservedNextFree_def MapSuperResetReclaimBoundaries_def)

lemma initial_super_sector:
  "length (MapSuperblockPackSector (MapSuperblockRefreshCRC (initial_super lsn))) = MAP_SUPERBLOCK_SIZE div 4"
  "MapSuperblockIsValid (MapSuperblockRefreshCRC (initial_super lsn))"
  by (simp_all add: initial_super_def MapSuperblockSetLastUpdatedLSN_def MapSuperblockInit_def
      MapSuperblockRefreshCRC_def MapSuperblockPackSector_def superblock_payload_def MAP_SUPERBLOCK_SIZE_def
      MapSuperblockIsValid_def MapSuperblockHasValidIdentity_def MapSuperblockCheckCRC_def superblock_crc_def)

lemma flush_spec:
  assumes "sb_inv c r s"
  shows "wpU (whenU b (XLogFlush lsn)) (\<lambda>res t. res = Inr () \<and> sb_inv c r t \<and>
     MapSuperEntries t = MapSuperEntries s \<and> path_inode t = path_inode s \<and> InRecovery t = InRecovery s \<and>
     XLogWriteRecPtr t = XLogWriteRecPtr s \<and>
     XLogFlushRecPtr t = (if b then max (XLogFlushRecPtr s) lsn else XLogFlushRecPtr s)) s"
proof -
  let ?t = "s\<lparr>XLogFlushRecPtr := max (XLogFlushRecPtr s) lsn\<rparr>"
  have v: "fs_view ?t = fs_view s"
    by (simp add: fs_view_def um_fs.truncate_def um_fs.make_def)
  have "sb_ok ?t"
    using sb_invD(4) [OF assms] by (simp add: sb_ok_def super_ok_def)
  then have "sb_inv c r ?t" by (rule sb_inv_fs_view [OF assms v])
  then show ?thesis
    using assms fs_view_same [OF v] by (simp add: wpU_whenU XLogFlush_def wp)
qed

lemma register_dirty_ext:
  assumes "fs_ok s" "ctx_ok s c"
    and d: "umfile_fork_allows_sparse_segments f \<or> path_inode s (ctx_rloc s c, f, 0) \<noteq> None"
  shows "wpU (umfile_ctx_register_dirty c f b skip temp) (\<lambda>res t. fs_ext s t \<and> fork_block t = fork_block s) s"
proof -
  have "wpU (bindU (umfile_getseg_some c f b False {UM_EXTENSION_FAIL}) (umfile_register_dirty_seg (ctx_rloc s c) f))
      (\<lambda>res t. fs_ext s t \<and> fork_block t = fork_block s) s"
    by (rule wpU_bindI [OF getseg_some_spec [OF assms]])
      (auto simp: create_flag_def umfile_register_dirty_seg_def wp)
  then show ?thesis
    using assms(1) by (simp add: umfile_ctx_register_dirty_def wp fs_ext_refl)
qed

text \<open>The outcome of creating a superblock. \<open>lsn\<close> is the LSN it is stamped with.\<close>

definition init_post ::
  "nat \<Rightarrow> RelFileLocatorBackend \<Rightarrow> RelFileLocator \<Rightarrow> XLogRecPtr \<Rightarrow> 'x map_sb_scheme \<Rightarrow>
   'x map_sb_scheme \<Rightarrow> bool" where
  "init_post c r rn lsn s t \<longleftrightarrow> sb_inv c r t \<and>
     (\<exists>i. owns (MapSuperEntries t) i rn \<and> super (MapSuperEntries t ! i) = initial_super lsn \<and>
        flags (MapSuperEntries t ! i) = MAPSUPER_FLAG_VALID OR MAPSUPER_FLAG_DIRTY) \<and>
     path_inode t (r, UMBRA_METADATA_FORKNUM, 0) \<noteq> None \<and>
     disk_super t r = Some (MapSuperblockRefreshCRC (initial_super lsn)) \<and>
     (InRecovery s \<or> lsn \<le> XLogFlushRecPtr t)"

lemma write_super_spec:
  assumes inv: "sb_inv c r s" and path: "path_inode s (r, UMBRA_METADATA_FORKNUM, 0) \<noteq> None"
    and len: "length ws = MAP_SUPERBLOCK_SIZE div 4"
  shows "wpU (bindU (umfile_ctx_write c UMBRA_METADATA_FORKNUM MAP_BLOCK_SUPER ws) (\<lambda>_.
       umfile_ctx_register_dirty c UMBRA_METADATA_FORKNUM MAP_BLOCK_SUPER False False))
     (\<lambda>res t. sb_inv c r t \<and> um_fs.more t = um_fs.more s \<and>
        path_inode t (r, UMBRA_METADATA_FORKNUM, 0) \<noteq> None \<and>
        disk_super t r = Some (MapSuperblockUnpackSector ws) \<and>
        (\<forall>r' g b x. fork_block s r' g b = Some x \<and> (r', g, b) \<noteq> (r, UMBRA_METADATA_FORKNUM, MAP_BLOCK_SUPER) \<longrightarrow>
           fork_block t r' g b = Some x)) s"
proof -
  note i = sb_invD [OF inv]
  have d: "umfile_fork_allows_sparse_segments UMBRA_METADATA_FORKNUM \<or>
      path_inode s (ctx_rloc s c, UMBRA_METADATA_FORKNUM, 0) \<noteq> None"
    using path i(3) by simp
  show ?thesis
  proof (rule wpU_bindI [OF ctx_write_spec [OF i(1,2) d]], goal_cases)
    case (2 x t)
    let ?P = "\<lambda>r' g b'. r' = r \<and> g = UMBRA_METADATA_FORKNUM \<and> b' = MAP_BLOCK_SUPER"
    have m: "fs_mod ?P s t" using 2 i(3) by simp
    have inv': "sb_inv c r t" using sb_inv_fs_mod(1) [OF inv m] .
    note i' = sb_invD [OF inv']
    have disk: "disk_super t r = Some (MapSuperblockUnpackSector ws)"
      using 2 i(3) len by (simp add: disk_super_def)
    have path': "path_inode t (r, UMBRA_METADATA_FORKNUM, 0) \<noteq> None"
      using path fs_modD(4) [OF m] by auto
    have d': "umfile_fork_allows_sparse_segments UMBRA_METADATA_FORKNUM \<or>
        path_inode t (ctx_rloc t c, UMBRA_METADATA_FORKNUM, 0) \<noteq> None"
      using path' i'(3) by simp
    show ?case
    proof (rule wpU_mono [OF register_dirty_ext [OF i'(1,2) d']], goal_cases)
      case (1 res u)
      then have u: "fs_ext t u" "fork_block u = fork_block t" by auto
      have "path_inode u (r, UMBRA_METADATA_FORKNUM, 0) \<noteq> None"
        using path' fs_extD(4) [OF u(1)] by auto
      then show ?case
        using sb_inv_fs_ext(1) [OF inv' u(1)] fs_extD(8) [OF u(1)] fs_modD(5,8) [OF m] disk u(2)
        by (auto simp: disk_super_def)
    qed
  qed simp
qed

lemma init_write_spec:
  assumes u: "sb_inv c r u" "sb_frame s u" "owns (MapSuperEntries u) i rn"
    "super (MapSuperEntries u ! i) = initial_super lsn"
    "flags (MapSuperEntries u ! i) = MAPSUPER_FLAG_VALID OR MAPSUPER_FLAG_DIRTY"
    and path: "path_inode s (r, UMBRA_METADATA_FORKNUM, 0) \<noteq> None"
  shows "wpU (bindU (whenU (\<not> InRecovery s \<and> lsn \<noteq> InvalidXLogRecPtr) (XLogFlush lsn)) (\<lambda>_.
         bindU (umfile_ctx_write c UMBRA_METADATA_FORKNUM MAP_BLOCK_SUPER
             (MapSuperblockPackSector (MapSuperblockRefreshCRC (initial_super lsn)))) (\<lambda>_.
         umfile_ctx_register_dirty c UMBRA_METADATA_FORKNUM MAP_BLOCK_SUPER False False)))
     (\<lambda>res t. init_post c r rn lsn s t) u"
proof (rule wpU_bindI [OF flush_spec [OF u(1)]], goal_cases)
  case (2 x v)
  have inv: "sb_inv c r v" and es: "MapSuperEntries v = MapSuperEntries u"
    using 2 by auto
  have path': "path_inode v (r, UMBRA_METADATA_FORKNUM, 0) \<noteq> None"
    using 2 path u(2) by (auto simp: sb_frame_def)
  have fl: "InRecovery s \<or> lsn \<le> XLogFlushRecPtr v"
    using 2 by (cases "InRecovery s"; cases "lsn = InvalidXLogRecPtr") (simp_all add: InvalidXLogRecPtr_def)
  show ?case
  proof (rule wpU_mono [OF write_super_spec [OF inv path' initial_super_sector(1)]], goal_cases)
    case (1 res t)
    then show ?case
      using more_fields [where s = v and t = t] fl u(3-5) es
      unfolding init_post_def unpack_pack by auto
  qed
qed simp

lemma init_spec:
  assumes inv: "sb_inv c r s"
    and lsn: "lsn = (if map_lsn \<noteq> InvalidXLogRecPtr then map_lsn else XLogWriteRecPtr s)"
  shows "wpU (MapSBlockInit c rn map_lsn) (\<lambda>res t. sb_inv c r t \<and>
     (\<forall>x. res = Inr x \<longrightarrow> init_post c r rn lsn s t)) s"
  unfolding MapSBlockInit_def
proof (rule wpU_bindI [OF fork_exists_dense_spec [OF sb_invD(1,2) [OF inv]]], goal_cases)
  case (3 ex t)
  note r = sb_invD(3) [OF inv]
  let ?Q = "\<lambda>res t. sb_inv c r t \<and> (\<forall>x. res = Inr x \<longrightarrow> init_post c r rn lsn s t)"
  have t: "fs_ext s t" "fork_block t = fork_block s" "ex = (path_inode s (r, UMBRA_METADATA_FORKNUM, 0) \<noteq> None)"
    using 3 r by auto
  have inv1: "sb_inv c r t" and fr: "sb_frame s t"
    using sb_inv_fs_ext(1) [OF inv t(1)] sb_frame_ext [OF t(1,2)] by auto
  show ?case
  proof (cases ex)
    case True
    then have path: "path_inode s (r, UMBRA_METADATA_FORKNUM, 0) \<noteq> None" using t(3) by simp
    have "wpU (bindU (MapSuperEnsureEntryLocked rn) (\<lambda>slot.
         bindU (getU (\<lambda>s. if map_lsn \<noteq> InvalidXLogRecPtr then map_lsn else XLogWriteRecPtr s)) (\<lambda>lsn.
         bindU (updE slot (init_entry lsn)) (\<lambda>_.
         bindU (getE slot) (\<lambda>e.
         bindU (getU InRecovery) (\<lambda>rec.
         bindU (whenU (\<not> rec \<and> page_lsn e \<noteq> InvalidXLogRecPtr) (XLogFlush (page_lsn e))) (\<lambda>_.
         bindU (umfile_ctx_write c UMBRA_METADATA_FORKNUM MAP_BLOCK_SUPER
                  (MapSuperblockPackSector (MapSuperblockRefreshCRC (super e)))) (\<lambda>_.
         umfile_ctx_register_dirty c UMBRA_METADATA_FORKNUM MAP_BLOCK_SUPER False False)))))))) ?Q t"
    proof (rule ensure_entry_spec [OF inv1], goal_cases)
      case (1 i u)
      have lsn': "(if map_lsn \<noteq> InvalidXLogRecPtr then map_lsn else XLogWriteRecPtr u) = lsn"
        using sb_frame_trans [OF fr 1(2)] lsn by (simp add: sb_frame_def)
      show ?case
        unfolding wpU_bindU wpU_getU sum.case lsn'
      proof (rule wpU_mono [OF updE_owner_spec [OF 1(1) safe_updates_pure(3) 1(3)]], goal_cases)
        case (1 res v)
        then have v: "res = Inr ()" "sb_inv c r v" "sb_frame s v" "owns (MapSuperEntries v) i rn"
          and e: "init_entry lsn (MapSuperEntries u ! i) = Inr (MapSuperEntries v ! i)"
          using sb_frame_trans [OF sb_frame_trans [OF fr \<open>sb_frame t u\<close>]] by auto
        have rec: "InRecovery v = InRecovery s" using v(3) by (simp add: sb_frame_def)
        note vals = init_entry_values [OF e]
        have "wpU (bindU (whenU (\<not> InRecovery s \<and> lsn \<noteq> InvalidXLogRecPtr) (XLogFlush lsn)) (\<lambda>_.
           bindU (umfile_ctx_write c UMBRA_METADATA_FORKNUM MAP_BLOCK_SUPER
             (MapSuperblockPackSector (MapSuperblockRefreshCRC (initial_super lsn)))) (\<lambda>_.
           umfile_ctx_register_dirty c UMBRA_METADATA_FORKNUM MAP_BLOCK_SUPER False False))) ?Q v"
          by (rule wpU_mono [OF init_write_spec [OF v(2-4) vals(1,3) path]]) (simp add: init_post_def)
        then show ?case
          unfolding v(1) sum.case getE_def wpU_getU MapSuperEntryBySlot_def vals(1,2) rec wpU_bindU .
      qed
    qed (use inv1 in simp)
    then show ?thesis using True by simp
  qed (use inv1 in \<open>simp add: wp\<close>)
qed simp_all

lemma keeps_init [keeps_intros]: "keeps c r (MapSBlockInit c rn lsn)"
  by (rule keepsI, rule wpU_mono [OF init_spec [OF _ refl]]) auto

lemma sb_frame_deleted [simp]: "sb_frame s (deleted s b i)" "fs_view (deleted s b i) = fs_view s"
proof -
  show v: "fs_view (deleted s b i) = fs_view s"
    by (simp add: fs_view_def deleted_def um_fs.truncate_def um_fs.make_def)
  from fs_view_same [OF v] show "sb_frame s (deleted s b i)"
    by (simp add: sb_frame_def) (simp add: deleted_def)
qed

lemma delete_spec:
  assumes inv: "sb_inv c r s"
  shows "wpU (MapSuperDeleteEntry rn) (\<lambda>res t. res = Inr () \<and> sb_inv c r t \<and> sb_frame s t \<and>
     (\<forall>i. \<not> owns (MapSuperEntries t) i rn)) s"
proof -
  note ok = sb_invD [OF inv]
  obtain x b where x: "super_slot_lookup s rn = (x, b)" by fastforce
  note spec = lookup_spec [OF ok(5), of rn, unfolded x]
  have none: "\<forall>i. \<not> owns (MapSuperEntries t) i rn" if "super_lookup t rn = None" for t :: "'x map_sb_scheme"
    using that no_owner_super_lookup [of t rn] by simp
  show ?thesis
  proof (cases x)
    case (Some i)
    then obtain p where p: "b = Some p" "p < length (MapSuperIndex s)" "MapSuperIndex s ! p = INDEX_SLOT i"
      and own: "owns (MapSuperEntries s) i rn" using spec by auto
    have "sb_ok (deleted s p i)"
      using super_ok_deleted [OF ok(5) own p(2,3)] ok(4)
        set_update_subset_insert [of "MapSuperEntries s" i "clear_entry (free_head s) (MapSuperEntries s ! i)"]
      by (auto simp: sb_ok_def deleted_def clear_entry_def)
    then have "sb_inv c r (deleted s p i)" by (intro sb_inv_fs_view [OF inv]) simp
    moreover have "super_lookup (deleted s p i) rn = None"
      using super_lookup_deleted [OF ok(5) own p(2,3)] by simp
    ultimately show ?thesis
      using Some p none by (simp add: wpU_def delete_run x)
  next
    case None
    then show ?thesis using inv spec by (simp add: wpU_def delete_run x)
  qed
qed

lemma keeps_delete [keeps_intros]: "keeps c r (MapSuperDeleteEntry rn)"
  by (rule keepsI, rule wpU_mono [OF delete_spec]) auto

subsection \<open>Sequences of operations\<close>

datatype sb_op =
    SbInit XLogRecPtr
  | SbSetLogical ForkNumber BlockNumber XLogRecPtr
  | SbBumpLogical ForkNumber BlockNumber XLogRecPtr
  | SbBumpPhysical ForkNumber BlockNumber XLogRecPtr
  | SbBumpNextFree ForkNumber BlockNumber XLogRecPtr
  | SbSetPending bool XLogRecPtr
  | SbAdvanceReclaim ForkNumber BlockNumber
  | SbEnsurePhysical ForkNumber BlockNumber bool
  | SbEnsureLoaded
  | SbGetLogical ForkNumber
  | SbGetReclaim ForkNumber
  | SbDelete

fun run_sb_op :: "nat \<Rightarrow> RelFileLocator \<Rightarrow> sb_op \<Rightarrow> 'x map_sb_scheme \<Rightarrow> 'x map_sb_scheme" where
  "run_sb_op c rn (SbInit lsn) s = snd (MapSBlockInit c rn lsn s)"
| "run_sb_op c rn (SbSetLogical f n lsn) s = snd (MapSBlockSetLogicalNblocks c rn f n lsn s)"
| "run_sb_op c rn (SbBumpLogical f n lsn) s = snd (MapSBlockBumpLogicalNblocks c rn f n lsn s)"
| "run_sb_op c rn (SbBumpPhysical f n lsn) s = snd (MapSBlockBumpPhysicalNblocks c rn f n lsn s)"
| "run_sb_op c rn (SbBumpNextFree f n lsn) s = snd (MapSBlockBumpNextFreePhysBlock c rn f n lsn s)"
| "run_sb_op c rn (SbSetPending p lsn) s = snd (MapSBlockSetSkipWalPending c rn p lsn s)"
| "run_sb_op c rn (SbAdvanceReclaim f b) s = snd (MapSBlockAdvanceReclaimBoundary c rn f b s)"
| "run_sb_op c rn (SbEnsurePhysical f n skip) s = snd (MapSBlockEnsurePhysicalNblocks 1 c rn f n skip s)"
| "run_sb_op c rn SbEnsureLoaded s = snd (MapSBlockEnsureLoaded c rn s)"
| "run_sb_op c rn (SbGetLogical f) s = snd (MapSBlockTryGetLogicalNblocks c rn f s)"
| "run_sb_op c rn (SbGetReclaim f) s = snd (MapSBlockTryGetReclaimBoundary c rn f s)"
| "run_sb_op c rn SbDelete s = snd (MapSuperDeleteEntry rn s)"

text \<open>The arguments the callers pass: a block count is not the invalid block number, and a relation
  whose writes are to be synced has a valid locator.\<close>

fun sb_op_args :: "RelFileLocatorBackend \<Rightarrow> sb_op \<Rightarrow> bool" where
  "sb_op_args r (SbBumpPhysical f n lsn) \<longleftrightarrow> n \<noteq> InvalidBlockNumber"
| "sb_op_args r (SbBumpNextFree f n lsn) \<longleftrightarrow> n \<noteq> InvalidBlockNumber"
| "sb_op_args r (SbEnsurePhysical f n skip) \<longleftrightarrow> fsync_ok r f skip"
| "sb_op_args r _ \<longleftrightarrow> True"

lemma keeps_snd: "keeps c r m \<Longrightarrow> sb_inv c r s \<Longrightarrow> sb_inv c r (snd (m s))"
  by (auto simp: keeps_def wpU_def split_beta)

lemma run_sb_op_inv:
  assumes "sb_inv c r s" and "sb_op_args r op"
  shows "sb_inv c r (run_sb_op c rn op s)"
  using assms
  by (cases op) (auto simp: MapSBlockSetLogicalNblocks_def MapSBlockBumpLogicalNblocks_def
      MapSBlockBumpPhysicalNblocks_def MapSBlockBumpNextFreePhysBlock_def MapSBlockSetSkipWalPending_def
      MapSBlockTryGetLogicalNblocks_def intro!: keeps_snd keeps_intros keeps_physical keeps_ensure_physical)

lemma run_sb_ops_inv:
  "sb_inv c r s \<Longrightarrow> list_all (sb_op_args r) ops \<Longrightarrow> sb_inv c r (fold (run_sb_op c rn) ops s)"
  by (induction ops arbitrary: s) (simp_all add: run_sb_op_inv)

end
