(* ===== verification/MapSuperProps.thy ===== *)
theory MapSuperProps
  imports MapSuperSpec
begin

unbundle bit_operations_syntax

text \<open>
  Properties of the superblock operations: what the getters return after the updates, the extent of
  the reclaim boundary, persistence of a created superblock, the order of WAL flush and superblock
  write, and the materialisation of physical blocks.
\<close>

subsection \<open>Reading and updating a trusted entry\<close>

text \<open>The relation \<open>rn\<close> has a shared entry in slot \<open>i\<close> that the update paths accept as it is.\<close>

definition trusted :: "'x map_sb_scheme \<Rightarrow> RelFileLocator \<Rightarrow> nat \<Rightarrow> bool" where
  "trusted s rn i \<longleftrightarrow> owns (MapSuperEntries s) i rn \<and>
     has_flag (flags (MapSuperEntries s ! i)) MAPSUPER_FLAG_VALID \<and> \<not> entry_untrusted (MapSuperEntries s ! i)"

lemma trusted_uniq:
  assumes "sb_inv c r s" and "owns (MapSuperEntries s) i rn" and "owns (MapSuperEntries s) j rn"
  shows "i = j"
  using assms sb_invD(5) [OF assms(1)] unfolding super_ok_def entries_ok_def by blast

lemma find_hit:
  assumes "sb_inv c r s" and "owns (MapSuperEntries s) i rn"
  shows "MapSuperFindEntryLocked rn s = (Inr (Some i), s)"
proof -
  obtain x where x: "MapSuperFindEntryLocked rn s = (Inr x, s)" by (simp add: find_run)
  then have "case x of None \<Rightarrow> \<forall>i. \<not> owns (MapSuperEntries s) i rn | Some i \<Rightarrow> owns (MapSuperEntries s) i rn"
    using find_spec [OF assms(1), of rn] by (auto simp: wpU_def split: option.splits)
  then show ?thesis
    using assms trusted_uniq [OF assms(1)] x by (auto split: option.splits)
qed

lemma prepare_hit:
  assumes "sb_inv c r s" and "trusted s rn i"
  shows "MapSuperPrepareEntryForUpdate c rn lsn s = (Inr (Some i), s)"
  using prepare_spec [OF assms(1), of rn lsn] assms(2)
  by (auto simp: trusted_def prepared_post_def wpU_def split: prod.splits)

lemma read_hit:
  assumes "sb_inv c r s" and "owns (MapSuperEntries s) i rn"
    and "has_flag (flags (MapSuperEntries s ! i)) MAPSUPER_FLAG_VALID"
  shows "MapSBlockRead c rn s = (Inr (if has_flag (flags (MapSuperEntries s ! i)) MAPSUPER_FLAG_CORRUPT
     then MAP_SBLOCK_READ_CORRUPT else MAP_SBLOCK_READ_OK, super (MapSuperEntries s ! i)), s)"
  using assms(3) find_hit [OF assms(1,2)]
  by (simp add: MapSBlockRead_def bindU_def getE_def getU_def MapSuperEntryBySlot_def returnU_def)

lemma getter_hit:
  assumes inv: "sb_inv c r s" and tr: "trusted s rn i" and f: "mapped_fork f"
    and get: "get (super (MapSuperEntries s ! i)) f = Inr v"
  shows "sblock_getter get c rn f s = (Inr (Some (MapNormalizeForkBlockCount f v)), s)"
proof -
  have "owns (MapSuperEntries s) i rn" "has_flag (flags (MapSuperEntries s ! i)) MAPSUPER_FLAG_VALID"
    "\<not> has_flag (flags (MapSuperEntries s ! i)) MAPSUPER_FLAG_CORRUPT"
    "MapSuperblockHasValidIdentity (super (MapSuperEntries s ! i))"
    using tr by (auto simp: trusted_def entry_untrusted_def)
  note read = read_hit [OF inv this(1,2)] this(3,4)
  show ?thesis
    using f read get
    by (simp add: sblock_getter_def MapForkHasMappedState_iff bindU_def getU_def liftU_def returnU_def)
qed

text \<open>An entry that stays trusted: valid, not corrupt, of valid identity, and dirty or unchanged.\<close>

lemma flag_bits:
  "has_flag (w OR MAPSUPER_FLAG_DIRTY) MAPSUPER_FLAG_DIRTY"
  "has_flag (w OR MAPSUPER_FLAG_DIRTY) MAPSUPER_FLAG_VALID = has_flag w MAPSUPER_FLAG_VALID"
  "has_flag (w OR MAPSUPER_FLAG_DIRTY) MAPSUPER_FLAG_CORRUPT = has_flag w MAPSUPER_FLAG_CORRUPT"
proof -
  have d: "(w OR MAPSUPER_FLAG_DIRTY) AND x = (w AND x) OR (MAPSUPER_FLAG_DIRTY AND x)" for x
    by (rule bit_eqI) (auto simp: bit_simps)
  show "has_flag (w OR MAPSUPER_FLAG_DIRTY) MAPSUPER_FLAG_VALID = has_flag w MAPSUPER_FLAG_VALID"
    "has_flag (w OR MAPSUPER_FLAG_DIRTY) MAPSUPER_FLAG_CORRUPT = has_flag w MAPSUPER_FLAG_CORRUPT"
    "has_flag (w OR MAPSUPER_FLAG_DIRTY) MAPSUPER_FLAG_DIRTY"
    unfolding has_flag_def d
    by (simp_all add: MAPSUPER_FLAG_DIRTY_def MAPSUPER_FLAG_VALID_def MAPSUPER_FLAG_CORRUPT_def or_eq_0_iff)
qed

definition good_entry :: "MapSuperEntry \<Rightarrow> bool" where
  "good_entry e \<longleftrightarrow> has_flag (flags e) MAPSUPER_FLAG_VALID \<and> \<not> entry_untrusted e"

lemma trusted_good: "trusted s rn i \<longleftrightarrow> owns (MapSuperEntries s) i rn \<and> good_entry (MapSuperEntries s ! i)"
  by (auto simp: trusted_def good_entry_def)

lemma good_stamp:
  assumes "good_entry e" and "MapSuperblockHasValidIdentity sb"
  shows "good_entry (stamp_entry lsn (e\<lparr>super := sb\<rparr>))"
  using assms flag_bits
  by (auto simp: good_entry_def entry_untrusted_def stamp_entry_def MapSuperblockSetLastUpdatedLSN_def
      MapSuperblockHasValidIdentity_def)

lemma good_identity: "good_entry e \<Longrightarrow> MapSuperblockHasValidIdentity (super e)"
  by (simp add: good_entry_def entry_untrusted_def)

lemma identity_set:
  assumes "MapSuperblockHasValidIdentity sb"
  shows "MapSuperblockSetLogicalNblocks sb f n = Inr sb' \<Longrightarrow> MapSuperblockHasValidIdentity sb'"
    "MapSuperblockSetNextFreePhysBlock sb f n = Inr sb' \<Longrightarrow> MapSuperblockHasValidIdentity sb'"
    "MapSuperblockSetPhysCapacity sb f n = Inr sb' \<Longrightarrow> MapSuperblockHasValidIdentity sb'"
  using assms by (cases f; auto simp: MapSuperblockHasValidIdentity_def)+

lemma norm_valid: "n \<noteq> InvalidBlockNumber \<Longrightarrow> MapNormalizeForkBlockCount f n = n"
  by (simp add: MapNormalizeForkBlockCount_def)

lemma getters_lsn [simp]:
  "MapSuperblockGetLogicalNblocks (MapSuperblockSetLastUpdatedLSN sb lsn) f = MapSuperblockGetLogicalNblocks sb f"
  "MapSuperblockGetNextFreePhysBlock (MapSuperblockSetLastUpdatedLSN sb lsn) f = MapSuperblockGetNextFreePhysBlock sb f"
  "MapSuperblockGetPhysCapacity (MapSuperblockSetLastUpdatedLSN sb lsn) f = MapSuperblockGetPhysCapacity sb f"
  by (cases f; simp add: MapSuperblockSetLastUpdatedLSN_def)+

lemma update_logical_value:
  assumes f: "mapped_fork f" and n: "n \<noteq> InvalidBlockNumber" and e: "good_entry e"
    and u: "update_logical f n bump lsn e = Inr e'"
  shows "good_entry e'" "logical_of e' f = (if bump then max (logical_of e f) n else n)"
proof -
  obtain raw where raw: "MapSuperblockGetLogicalNblocks (super e) f = Inr raw"
    using logical.getE [OF f] .
  obtain sb where sb: "MapSuperblockSetLogicalNblocks (super e) f n = Inr sb"
    using logical.setE [OF f] .
  have get: "MapSuperblockGetLogicalNblocks (MapSuperblockSetLastUpdatedLSN sb lsn) f = Inr n"
    using logical.get_set [OF sb, of f] by simp
  define d where "d = (\<not> bump \<or> MapNormalizeForkBlockCount f raw < n)"
  have e': "e' = (if d then stamp_entry lsn (e\<lparr>super := sb\<rparr>) else e)"
    using u sb by (cases d) (simp_all add: update_logical_def raw Let_def d_def)
  show "good_entry e'"
    unfolding e' using e good_stamp [OF e identity_set(1) [OF good_identity [OF e] sb]] by simp
  have "MapSuperblockGetLogicalNblocks (super e') f = (if d then Inr n else Inr raw)"
    unfolding e' using get raw by (simp add: stamp_entry_def)
  then show "logical_of e' f = (if bump then max (logical_of e f) n else n)"
    using raw norm_valid [OF n, of f] by (auto simp: logical_of_def nval_def d_def max_def)
qed

lemma getters_independent:
  "MapSuperblockSetPhysCapacity sb f n = Inr sb' \<Longrightarrow>
     MapSuperblockGetNextFreePhysBlock sb' g = MapSuperblockGetNextFreePhysBlock sb g"
  "MapSuperblockSetNextFreePhysBlock sb f n = Inr sb' \<Longrightarrow>
     MapSuperblockGetPhysCapacity sb' g = MapSuperblockGetPhysCapacity sb g"
  by (cases f; cases g; auto)+

lemma bump_next_free_super:
  assumes f: "mapped_fork f" and "MapSuperblockSetNextFreePhysBlock (super e) f n = Inr sb"
    and "bump_next_free_entry rec f n e = Inr e'"
  shows "super e' = sb" "flags e' = flags e"
  using assms
  by (cases f rule: mapped_fork_cases;
      auto simp: bump_next_free_entry_def MapSuperMaybeBumpReservedNextFree_def
        MapSuperSetReservedNextFree_def Let_def split: if_splits)+

text \<open>A bump of the frontier or of the capacity raises it to the maximum and leaves the other alone.\<close>

lemma update_physical_value:
  assumes f: "mapped_fork f" and n: "n \<noteq> InvalidBlockNumber" and e: "good_entry e"
    and u: "update_physical rec f n bn bc lsn e = Inr e'"
  shows "good_entry e'"
    "next_free_of e' f = (if bn then max (next_free_of e f) n else next_free_of e f)"
    "capacity_of e' f = (if bc then max (capacity_of e f) n else capacity_of e f)"
proof -
  obtain rn rc where raw: "MapSuperblockGetNextFreePhysBlock (super e) f = Inr rn"
    "MapSuperblockGetPhysCapacity (super e) f = Inr rc"
    using f next_free.getE capacity.getE by metis
  define dn where "dn = (bn \<and> MapNormalizeForkBlockCount f rn < n)"
  define dc where "dc = (bc \<and> MapNormalizeForkBlockCount f rc < n)"
  obtain sb where sb: "MapSuperblockSetNextFreePhysBlock (super e) f n = Inr sb"
    using next_free.setE [OF f] .
  obtain e1 where e1: "(if dn then bump_next_free_entry rec f n e else Inr e) = Inr e1"
    using bump_next_free_safe [OF f n, of e rec] raw by (cases dn) (auto simp: dn_def entry_values)
  have s1: "super e1 = (if dn then sb else super e)" "flags e1 = flags e"
    using e1 bump_next_free_super [OF f sb] by (auto split: if_splits)
  obtain sb2 where sb2: "MapSuperblockSetPhysCapacity (super e1) f n = Inr sb2"
    using capacity.setE [OF f] .
  define e2 where "e2 = (if dc then e1\<lparr>super := sb2\<rparr> else e1)"
  have e': "e' = (if dn \<or> dc then stamp_entry lsn e2 else e2)"
  proof -
    have "(if dc then bindE (MapSuperblockSetPhysCapacity (super e1) f n) (\<lambda>sb. Inr (e1\<lparr>super := sb\<rparr>))
        else Inr e1) = Inr e2"
      using sb2 by (simp add: e2_def)
    then have "update_physical rec f n bn bc lsn e = Inr (if dn \<or> dc then stamp_entry lsn e2 else e2)"
      unfolding update_physical_def raw bindE_simps Let_def dn_def [symmetric] dc_def [symmetric] e1 by simp
    with u show ?thesis by simp
  qed
  have id: "MapSuperblockHasValidIdentity (super e2)"
  proof -
    have "MapSuperblockHasValidIdentity (super e1)"
      using identity_set(2) [OF good_identity [OF e] sb] good_identity [OF e] s1(1) by simp
    then show ?thesis using identity_set(3) [OF _ sb2] by (simp add: e2_def)
  qed
  have fl: "flags e2 = flags e" using s1 by (simp add: e2_def)
  show "good_entry e'"
  proof (cases "dn \<or> dc")
    case True
    then show ?thesis
      using e id fl flag_bits [of "flags e"] unfolding e'
      by (auto simp: good_entry_def entry_untrusted_def stamp_entry_def MapSuperblockSetLastUpdatedLSN_def
          MapSuperblockHasValidIdentity_def)
  qed (use e e' e1 in \<open>auto simp: e2_def\<close>)
  have next_e': "MapSuperblockGetNextFreePhysBlock (super e') f = (if dn then Inr n else Inr rn)"
    using next_free.get_set [OF sb, of f] getters_independent(1) [OF sb2, of f] s1 raw
    by (auto simp: e' e2_def stamp_entry_def)
  have cap_e': "MapSuperblockGetPhysCapacity (super e') f = (if dc then Inr n else Inr rc)"
    using capacity.get_set [OF sb2, of f] getters_independent(2) [OF sb, of f] s1 raw
    by (auto simp: e' e2_def stamp_entry_def)
  show "next_free_of e' f = (if bn then max (next_free_of e f) n else next_free_of e f)"
    using next_e' raw norm_valid [OF n] by (auto simp: next_free_of_def nval_def dn_def max_def)
  show "capacity_of e' f = (if bc then max (capacity_of e f) n else capacity_of e f)"
    using cap_e' raw norm_valid [OF n] by (auto simp: capacity_of_def nval_def dc_def max_def)
qed

subsection \<open>Updates of a trusted entry\<close>

definition resolved_lsn :: "XLogRecPtr \<Rightarrow> 'x map_sb_scheme \<Rightarrow> XLogRecPtr" where
  "resolved_lsn map_lsn s = (if map_lsn = InvalidXLogRecPtr
     then (if InRecovery s then XLogReplayRecPtr s else XLogWriteRecPtr s) else map_lsn)"

lemma updates_run:
  assumes "sb_inv c r s" and "trusted s rn i" and "mapped_fork f"
  shows "MapSBlockUpdateLogicalNblocks c rn f n map_lsn bump s =
      updE i (update_logical f n bump (resolved_lsn map_lsn s)) s"
    "MapSBlockBumpPhysicalState c rn f n bn bc map_lsn s =
      updE i (update_physical (InRecovery s) f n bn bc (resolved_lsn map_lsn s)) s"
  using assms(3)
  by (simp_all add: MapSBlockUpdateLogicalNblocks_def MapSBlockBumpPhysicalState_def bindU_def getU_def
      MapForkHasMappedState_iff prepare_hit [OF assms(1,2)] resolve_lsn_def resolved_lsn_def)

lemma logical_update_spec:
  assumes inv: "sb_inv c r s" and tr: "trusted s rn i" and f: "mapped_fork f" and n: "n \<noteq> InvalidBlockNumber"
  shows "wpU (MapSBlockUpdateLogicalNblocks c rn f n map_lsn bump) (\<lambda>res t. res = Inr () \<and> sb_inv c r t \<and>
     sb_frame s t \<and> trusted t rn i \<and> logical_of (MapSuperEntries t ! i) f =
       (if bump then max (logical_of (MapSuperEntries s ! i) f) n else n)) s"
proof -
  have own: "owns (MapSuperEntries s) i rn" and good: "good_entry (MapSuperEntries s ! i)"
    using tr by (auto simp: trusted_good)
  have "wpU (updE i (update_logical f n bump lsn)) (\<lambda>res t. res = Inr () \<and> sb_inv c r t \<and>
     sb_frame s t \<and> trusted t rn i \<and> logical_of (MapSuperEntries t ! i) f =
       (if bump then max (logical_of (MapSuperEntries s ! i) f) n else n)) s" for lsn
    by (rule wpU_mono [OF updE_owner_spec [OF inv neutral_safe [OF neutral_logical [OF f]] own]])
      (use update_logical_value [OF f n good] in \<open>unfold trusted_good, blast\<close>)
  then show ?thesis
    unfolding wpU_def updates_run [OF inv tr f] .
qed

lemma physical_update_spec:
  assumes inv: "sb_inv c r s" and tr: "trusted s rn i" and f: "mapped_fork f" and n: "n \<noteq> InvalidBlockNumber"
  shows "wpU (MapSBlockBumpPhysicalState c rn f n bn bc map_lsn) (\<lambda>res t. res = Inr () \<and> sb_inv c r t \<and>
     sb_frame s t \<and> trusted t rn i \<and>
     next_free_of (MapSuperEntries t ! i) f = (if bn then max (next_free_of (MapSuperEntries s ! i) f) n
       else next_free_of (MapSuperEntries s ! i) f) \<and>
     capacity_of (MapSuperEntries t ! i) f = (if bc then max (capacity_of (MapSuperEntries s ! i) f) n
       else capacity_of (MapSuperEntries s ! i) f)) s"
proof -
  have own: "owns (MapSuperEntries s) i rn" and good: "good_entry (MapSuperEntries s ! i)"
    using tr by (auto simp: trusted_good)
  have "wpU (updE i (update_physical rec f n bn bc lsn)) (\<lambda>res t. res = Inr () \<and> sb_inv c r t \<and>
     sb_frame s t \<and> trusted t rn i \<and>
     next_free_of (MapSuperEntries t ! i) f = (if bn then max (next_free_of (MapSuperEntries s ! i) f) n
       else next_free_of (MapSuperEntries s ! i) f) \<and>
     capacity_of (MapSuperEntries t ! i) f = (if bc then max (capacity_of (MapSuperEntries s ! i) f) n
       else capacity_of (MapSuperEntries s ! i) f)) s" for rec lsn
    by (rule wpU_mono [OF updE_owner_spec [OF inv safe_update_physical [OF f n] own]])
      (use update_physical_value [OF f n good] in \<open>unfold trusted_good, blast\<close>)
  then show ?thesis
    unfolding wpU_def updates_run [OF inv tr f] .
qed

lemma getter_spec:
  assumes inv: "sb_inv c r s" and tr: "trusted s rn i" and f: "mapped_fork f"
  shows "wpU (MapSBlockTryGetLogicalNblocks c rn f)
      (\<lambda>res t. t = s \<and> res = Inr (Some (logical_of (MapSuperEntries s ! i) f))) s"
    "wpU (MapSBlockTryGetNextFreePhysBlock c rn f)
      (\<lambda>res t. t = s \<and> res = Inr (Some (next_free_of (MapSuperEntries s ! i) f))) s"
    "wpU (MapSBlockTryGetPhysicalNblocks c rn f)
      (\<lambda>res t. t = s \<and> res = Inr (Some (capacity_of (MapSuperEntries s ! i) f))) s"
proof -
  let ?sb = "super (MapSuperEntries s ! i)"
  obtain l n p where v: "MapSuperblockGetLogicalNblocks ?sb f = Inr l"
    "MapSuperblockGetNextFreePhysBlock ?sb f = Inr n" "MapSuperblockGetPhysCapacity ?sb f = Inr p"
    using f logical.getE next_free.getE capacity.getE by metis
  note g = getter_hit [OF inv tr f]
  show "wpU (MapSBlockTryGetLogicalNblocks c rn f)
      (\<lambda>res t. t = s \<and> res = Inr (Some (logical_of (MapSuperEntries s ! i) f))) s"
    using g [of MapSuperblockGetLogicalNblocks, OF v(1)] v by (simp add: MapSBlockTryGetLogicalNblocks_def wpU_def entry_values)
  show "wpU (MapSBlockTryGetNextFreePhysBlock c rn f)
      (\<lambda>res t. t = s \<and> res = Inr (Some (next_free_of (MapSuperEntries s ! i) f))) s"
    using g [of MapSuperblockGetNextFreePhysBlock, OF v(2)] v by (simp add: MapSBlockTryGetNextFreePhysBlock_def wpU_def entry_values)
  show "wpU (MapSBlockTryGetPhysicalNblocks c rn f)
      (\<lambda>res t. t = s \<and> res = Inr (Some (capacity_of (MapSuperEntries s ! i) f))) s"
    using g [of MapSuperblockGetPhysCapacity, OF v(3)] v by (simp add: MapSBlockTryGetPhysicalNblocks_def wpU_def entry_values)
qed

text \<open>The reclaim boundary moves forward only, and only up to the allocation frontier.\<close>

lemma reclaim_frame:
  "MapSuperSetReclaimBoundary e f b = Inr e' \<Longrightarrow> super e' = super e"
  "MapSuperSetReclaimBoundary e f b = Inr e' \<Longrightarrow> flags e' = flags e"
  by (cases f; auto)+

lemma advance_reclaim_value:
  assumes f: "mapped_fork f" and e: "good_entry e" "in_use e" and b: "b \<noteq> InvalidBlockNumber"
    and u: "advance_reclaim f b e = Inr e'"
  shows "good_entry e'" "boundary_of e' f = max (boundary_of e f) (min b (next_free_of e f))" "super e' = super e"
proof -
  obtain rc rn where raw: "MapSuperGetReclaimBoundary e f = Inr rc"
    "MapSuperblockGetNextFreePhysBlock (super e) f = Inr rn"
    using f reclaim.getE next_free.getE by metis
  define c where "c = MapNormalizeForkBlockCount f rc"
  define t where "t = min b (MapNormalizeForkBlockCount f rn)"
  obtain e1 where e1: "MapSuperSetReclaimBoundary e f t = Inr e1"
    using reclaim.setE [OF f] .
  have bd: "(if b > MapNormalizeForkBlockCount f rn then MapNormalizeForkBlockCount f rn else b) = t"
    by (auto simp: t_def min_def)
  have e': "e' = (if c < t then e1 else e)"
    using u e e1 unfolding advance_reclaim_def raw bindE_simps Let_def bd c_def [symmetric]
    by (simp add: good_entry_def split: if_splits)
  have t: "t \<noteq> InvalidBlockNumber"
  proof
    assume "t = InvalidBlockNumber"
    then have "InvalidBlockNumber \<le> b" unfolding t_def by (metis min.cobounded1)
    then have "4294967295 \<le> unat b" by (simp add: word_le_nat_alt)
    moreover have "unat b < 4294967296" by (rule unat_u32_bound)
    ultimately have "unat b = unat InvalidBlockNumber" unfolding unat_InvalidBlockNumber by linarith
    then show False using b u32_eq_iff_unat by blast
  qed
  show "super e' = super e"
    unfolding e' using reclaim_frame [OF e1] by simp
  show "good_entry e'"
    unfolding e' using reclaim_frame [OF e1] e(1) by (simp add: good_entry_def entry_untrusted_def)
  have "MapSuperGetReclaimBoundary e' f = (if c < t then Inr t else Inr rc)"
    unfolding e' using reclaim.get_set [OF e1, of f] raw by simp
  then show "boundary_of e' f = max (boundary_of e f) (min b (next_free_of e f))"
    using raw norm_valid [OF t, of f] by (auto simp: entry_values nval_def c_def t_def [symmetric] max_def)
qed

lemma ensure_loaded_hit:
  assumes inv: "sb_inv c r s" and own: "owns (MapSuperEntries s) i rn"
    and path: "path_inode s (r, UMBRA_METADATA_FORKNUM, 0) \<noteq> None"
  shows "wpU (MapSBlockEnsureLoaded c rn) (\<lambda>res t. res = Inr True \<and> sb_inv c r t \<and>
      MapSuperEntries t = MapSuperEntries s \<and> fork_block t = fork_block s) s"
  unfolding MapSBlockEnsureLoaded_def
proof (rule wpU_bindI [OF fork_exists_dense_spec [OF sb_invD(1,2) [OF inv]]], goal_cases)
  case (3 ex t)
  then have t: "fs_ext s t" "ex" "fork_block t = fork_block s" using path sb_invD(3) [OF inv] by auto
  note inv' = sb_inv_fs_ext [OF inv t(1)]
  have "owns (MapSuperEntries t) i rn" using own inv'(2) by simp
  from find_hit [OF inv'(1) this] show ?case
    using t inv' by (simp add: wpU_def bindU_def returnU_def)
qed simp_all

lemma advance_spec:
  assumes inv: "sb_inv c r s" and tr: "trusted s rn i" and f: "mapped_fork f" and b: "b \<noteq> InvalidBlockNumber"
    and path: "path_inode s (r, UMBRA_METADATA_FORKNUM, 0) \<noteq> None"
  shows "wpU (MapSBlockAdvanceReclaimBoundary c rn f b) (\<lambda>res t. res = Inr () \<and> sb_inv c r t \<and> trusted t rn i \<and>
     boundary_of (MapSuperEntries t ! i) f =
       max (boundary_of (MapSuperEntries s ! i) f) (min b (next_free_of (MapSuperEntries s ! i) f)) \<and>
     super (MapSuperEntries t ! i) = super (MapSuperEntries s ! i)) s" (is "wpU _ ?Q s")
proof -
  have own: "owns (MapSuperEntries s) i rn" and good: "good_entry (MapSuperEntries s ! i)"
    using tr by (auto simp: trusted_good)
  have upd: "wpU (updE i (advance_reclaim f b)) ?Q t"
    if t: "sb_inv c r t" "MapSuperEntries t = MapSuperEntries s" for t
  proof (rule wpU_mono [OF updE_owner_spec [OF t(1) safe_update_reclaim [OF f], where rn = rn]], goal_cases)
    case 1
    then show ?case using own t(2) by simp
  next
    case (2 res u)
    then have u: "res = Inr ()" "sb_inv c r u" "owns (MapSuperEntries u) i rn"
      "advance_reclaim f b (MapSuperEntries s ! i) = Inr (MapSuperEntries u ! i)"
      using t(2) by auto
    have "in_use (MapSuperEntries s ! i)" using own by (simp add: owns_def)
    from advance_reclaim_value [OF f good this b u(4)] show ?case
      using u by (simp add: trusted_good)
  qed
  have "wpU (bindU (MapSBlockEnsureLoaded c rn) (\<lambda>loaded. if \<not> loaded then returnU ()
      else bindU (MapSuperFindEntryLocked rn) (\<lambda>found. case found of
        None \<Rightarrow> returnU () | Some slot \<Rightarrow> updE slot (advance_reclaim f b)))) ?Q s"
  proof (rule wpU_bindI [OF ensure_loaded_hit [OF inv own path]], goal_cases)
    case (2 x t)
    then have t: "x" "sb_inv c r t" "MapSuperEntries t = MapSuperEntries s" by auto
    from find_hit [OF t(2), of i rn] own upd [OF t(2,3)] show ?case
      using t by (simp add: wpU_def bindU_def)
  qed simp
  then show ?thesis
    using f b by (simp add: MapSBlockAdvanceReclaimBoundary_def MapForkHasMappedState_iff)
qed

text \<open>Reading a superblock that has no entry: what the file holds.\<close>

lemma new_entry_flags: "\<not> has_flag (flags (new_entry rn)) x"
  by (simp add: new_entry_def reset_entry_def has_flag_def)

lemma populate_new:
  "MapSuperPopulate MAP_SBLOCK_READ_OK sb (new_entry rn) = Inr e \<Longrightarrow> super e = sb"
  by (auto simp: MapSuperPopulate_def new_entry_flags MapSuperResetReservedNextFrees_def
      MapSuperSetReservedNextFree_def MapSuperResetReclaimBoundaries_def)

lemma read_cold_spec:
  assumes inv: "sb_inv c r s" and none: "\<forall>i. \<not> owns (MapSuperEntries s) i rn"
    and disk: "disk_super s r = Some sb" "MapSuperblockIsValid sb"
    and path: "path_inode s (r, UMBRA_METADATA_FORKNUM, 0) \<noteq> None"
  shows "wpU (MapSBlockRead c rn) (\<lambda>res t. \<forall>x. res = Inr x \<longrightarrow> x = (MAP_SBLOCK_READ_OK, sb)) s"
    (is "wpU _ ?Q s")
proof -
  have find: "MapSuperFindEntryLocked rn s = (Inr None, s)"
    using find_spec [OF inv, of rn] none
    by (auto simp: wpU_def split: prod.splits sum.splits option.splits)
  have "wpU (MapSBlockReadSlow c rn) ?Q s"
    unfolding MapSBlockReadSlow_def
  proof (rule wpU_bindI [OF load_spec [OF inv]], goal_cases)
    case (2 x t)
    then have t: "sb_inv c r t" "fs_ext s t" "x = (MAP_SBLOCK_READ_OK, sb)"
      using disk path by (auto split: prod.splits)
    have none': "\<not> owns (MapSuperEntries t) i rn" for i
      using none sb_inv_fs_ext(2) [OF inv t(2)] by simp
    show ?case
      unfolding t(3) prod.case
    proof (simp, rule ensure_entry_spec [OF t(1)], goal_cases)
      case (1 i u)
      then have e: "MapSuperEntries u ! i = new_entry rn" using none' by (simp add: entry_or_new_def)
      show ?case
        unfolding wpU_bindU getE_def wpU_getU sum.case MapSuperEntryBySlot_def e
      proof (rule wpU_mono [OF updE_owner_spec [OF 1(1) safe_updates_pure(1) 1(3)]], goal_cases)
        case (1 res v)
        then have v: "res = Inr ()" "MapSuperPopulate MAP_SBLOCK_READ_OK sb (new_entry rn) = Inr (MapSuperEntries v ! i)"
          using e by auto
        then show ?case
          using populate_new by (auto simp: wpU_getU Let_def wp new_entry_flags)
      qed
    qed simp
  qed simp
  then show ?thesis
    by (simp add: MapSBlockRead_def wpU_def bindU_def find)
qed

subsection \<open>A small state for the witnesses\<close>

definition demo_sb :: map_sb where
  "demo_sb = map_super.extend demo_super (map_sb.fields 0 100 0 [])"

lemma demo_sb_view: "fs_view demo_sb = fs_view demo_fs"
  by (simp add: fs_view_def demo_sb_def demo_super_def demo_super0_def MapSuperTableShmemInit_def Let_def
      modifyU_apply um_fs.defs map_super.defs demo_fs_def)

lemma demo_sb_table:
  "MapSuperEntries demo_sb = MapSuperEntries demo_super" "MapSuperIndex demo_sb = MapSuperIndex demo_super"
  "free_head demo_sb = free_head demo_super" "super_cap demo_sb = super_cap demo_super"
  by (simp_all add: demo_sb_def map_super.defs)

lemma demo_sb_unused: "e \<in> set (MapSuperEntries demo_sb) \<Longrightarrow> \<not> in_use e"
  using demo_super_ok(2) [THEN fun_cong, of "key e"]
  by (auto simp: demo_sb_table super_lookup_def find_None_iff)

lemma demo_sb_inv: "sb_inv 0 demo_rloc demo_sb"
proof -
  note v = fs_view_same [OF demo_sb_view]
  have "super_ok demo_sb"
    using demo_super_ok(1) by (simp add: super_ok_def demo_sb_table)
  then show ?thesis
    using demo_sb_unused by (auto simp: sb_inv_def v demo_fs_ok demo_ctx_ok demo_ctx sb_ok_def)
qed

lemma demo_sb_fields: "InRecovery demo_sb = False" "XLogWriteRecPtr demo_sb = 100"
  "path_inode demo_sb (demo_rloc, UMBRA_METADATA_FORKNUM, 0) \<noteq> None"
proof -
  show "path_inode demo_sb (demo_rloc, UMBRA_METADATA_FORKNUM, 0) \<noteq> None"
    unfolding fs_view_same(5) [OF demo_sb_view] by (simp add: demo_paths)
  show "InRecovery demo_sb = False"
    unfolding fs_view_same(6) [OF demo_sb_view] by (simp add: demo_fs_def)
qed (simp add: demo_sb_def map_super.defs map_sb.defs)

text \<open>The same state with the superblock of the relation cached.\<close>

definition demo_cached :: map_sb where
  "demo_cached = snd (bindU (MapSuperEnsureEntryLocked (locator demo_rloc)) (\<lambda>i. updE i (init_entry 100)) demo_sb)"

lemma demo_ensure:
  obtains i t where "MapSuperEnsureEntryLocked (locator demo_rloc) demo_sb = (Inr i, t)" "sb_inv 0 demo_rloc t"
    "owns (MapSuperEntries t) i (locator demo_rloc)" "sb_frame demo_sb t"
    "runtime_flags (MapSuperEntries t ! i) = 0"
proof -
  note ok = sb_invD(5) [OF demo_sb_inv]
  let ?e = "MapSuperEnsureEntryLocked (locator demo_rloc) demo_sb"
  have "MapSuperIndex demo_sb ! probe (super_cap demo_sb) (locator demo_rloc) 0 = INDEX_EMPTY"
    unfolding demo_sb_table by (rule demo_super_blank(1) [OF probe_less [OF demo_super_ok(1)]])
  then have "fst ?e \<noteq> Inl e" for e
    using ensure_error_iff [OF ok, of "locator demo_rloc" e] demo_super_blank(2,3) super_cap_pos [OF ok]
    by (metis MapSuperIndexSlot.distinct(3) demo_sb_table(1))
  then obtain i t where e: "?e = (Inr i, t)" by (metis prod.collapse sum.exhaust)
  have "\<not> owns (MapSuperEntries demo_sb) i (locator demo_rloc)"
    using demo_sb_unused by (auto simp: owns_def)
  then show thesis
    using that [OF e] ensure_spec [OF demo_sb_inv, of "locator demo_rloc"]
      ensure_frame [of "locator demo_rloc" demo_sb]
    by (simp add: wpU_def e new_entry_def reset_entry_def)
qed

lemma init_entry_runtime: "init_entry lsn e = Inr e' \<Longrightarrow> runtime_flags e' = runtime_flags e"
  by (auto simp: init_entry_def MapSuperResetReservedNextFrees_def MapSuperSetReservedNextFree_def
      MapSuperResetReclaimBoundaries_def)

lemma demo_cached:
  "sb_inv 0 demo_rloc demo_cached"
  "\<exists>i. trusted demo_cached (locator demo_rloc) i \<and> runtime_flags (MapSuperEntries demo_cached ! i) = 0"
  "path_inode demo_cached (demo_rloc, UMBRA_METADATA_FORKNUM, 0) \<noteq> None" "\<not> InRecovery demo_cached"
proof -
  obtain i t where t: "MapSuperEnsureEntryLocked (locator demo_rloc) demo_sb = (Inr i, t)" "sb_inv 0 demo_rloc t"
    "owns (MapSuperEntries t) i (locator demo_rloc)" "sb_frame demo_sb t" "runtime_flags (MapSuperEntries t ! i) = 0"
    by (rule demo_ensure)
  have c: "demo_cached = snd (updE i (init_entry 100) t)"
    by (simp add: demo_cached_def bindU_def t(1))
  have u: "sb_inv 0 demo_rloc demo_cached" "sb_frame t demo_cached"
    "owns (MapSuperEntries demo_cached) i (locator demo_rloc)"
    "init_entry 100 (MapSuperEntries t ! i) = Inr (MapSuperEntries demo_cached ! i)"
    using updE_owner_spec [OF t(2) safe_updates_pure(3) t(3), of 100] by (auto simp: c wpU_def split_beta)
  note e = init_entry_values [OF u(4)]
  have "good_entry (MapSuperEntries demo_cached ! i)"
    unfolding good_entry_def entry_untrusted_def e
    by (simp add: initial_super_def has_flag_def MAPSUPER_FLAG_VALID_def MAPSUPER_FLAG_DIRTY_def
        MAPSUPER_FLAG_CORRUPT_def MapSuperblockSetLastUpdatedLSN_def MapSuperblockInit_def
        MapSuperblockHasValidIdentity_def)
  moreover have "runtime_flags (MapSuperEntries demo_cached ! i) = 0"
    using init_entry_runtime [OF u(4)] t(5) by simp
  ultimately show "\<exists>i. trusted demo_cached (locator demo_rloc) i \<and>
      runtime_flags (MapSuperEntries demo_cached ! i) = 0"
    using u(3) by (auto simp: trusted_good)
  show "sb_inv 0 demo_rloc demo_cached" by (rule u(1))
  have "sb_frame demo_sb demo_cached" using sb_frame_trans [OF t(4) u(2)] .
  then show "path_inode demo_cached (demo_rloc, UMBRA_METADATA_FORKNUM, 0) \<noteq> None" "\<not> InRecovery demo_cached"
    using demo_sb_fields by (auto simp: sb_frame_def)
qed

subsection \<open>Materialising physical blocks\<close>

text \<open>Steps whose outcome is known, at the head of a sequence.\<close>

lemma wpU_head:
  "wpU (bindU (getE i) k1) Q s = wpU (k1 (MapSuperEntries s ! i)) Q s"
  "wpU (bindU (resolve_lsn l) k2) Q s = wpU (k2 (resolved_lsn l s)) Q s"
  "wpU (bindU (liftU (Inr x)) k3) Q s = wpU (k3 x) Q s"
  by (simp_all add: wp getE_def MapSuperEntryBySlot_def resolve_lsn_def resolved_lsn_def wpU_liftU)

lemma wpU_head_prepare:
  assumes "sb_inv c r s" and "trusted s rn i"
  shows "wpU (bindU (MapSuperPrepareEntryForUpdate c rn lsn) k) Q s = wpU (k (Some i)) Q s"
  by (simp add: wpU_def bindU_def prepare_hit [OF assms])

lemma fs_mod_mono: "fs_mod P s t \<Longrightarrow> (\<And>r f b. P r f b \<Longrightarrow> Q r f b) \<Longrightarrow> fs_mod Q s t"
  unfolding fs_mod_def by blast

lemma extend_block_spec:
  assumes inv: "sb_inv c r s" and f: "mapped_fork f" and fsync: "fsync_ok r f skip"
  shows "wpU (extend_block c f skip b) (\<lambda>res t. res = Inr () \<and>
     fs_mod (\<lambda>r' g b'. r' = r \<and> g = f \<and> b' = b) s t \<and> fork_block t r f b \<noteq> None) s" (is "wpU _ ?Q s")
  unfolding extend_block_def
proof (rule wpU_bindI [OF block_exists_spec [OF sb_invD(1,2) [OF inv]]], goal_cases)
  case (2 ex t)
  have sparse: "umfile_fork_allows_sparse_segments f"
    using f by (cases f rule: mapped_fork_cases) auto
  have ext: "fs_ext s t" and blk: "ex \<Longrightarrow> fork_block t r f b \<noteq> None"
    using 2 sb_invD(3) [OF inv] by auto
  note i = sb_invD [OF sb_inv_fs_ext(1) [OF inv ext]]
  have "fsync_ok (ctx_rloc t c) f skip" using fsync i(3) by simp
  note zero = zeroextend_spec [OF i(1,2) disjI1 [OF sparse] this, of b]
  have "wpU (umfile_zeroextend c f b 1 skip) ?Q t"
    by (rule wpU_mono [OF zero]) (use fs_mod_trans [OF fs_mod_ext [OF ext]] i(3) in auto)
  then show ?case
    using blk fs_mod_ext [OF ext] by (cases ex) (simp_all add: wp wpU_whenU)
qed simp

lemma extend_blocks_spec:
  assumes "sb_inv c r s" and f: "mapped_fork f" and fsync: "fsync_ok r f skip"
  shows "wpU (forU bs (extend_block c f skip)) (\<lambda>res t. res = Inr () \<and>
     fs_mod (\<lambda>r' g b'. r' = r \<and> g = f \<and> b' \<in> set bs) s t \<and> (\<forall>b \<in> set bs. fork_block t r f b \<noteq> None)) s"
  using assms(1)
proof (induction bs arbitrary: s)
  case Nil
  then show ?case by (simp add: wp fs_mod_ext fs_ext_refl sb_invD(1))
next
  case (Cons b bs)
  show ?case
    unfolding forU.simps
  proof (rule wpU_bindI [OF extend_block_spec [OF Cons.prems f fsync, of b]], goal_cases)
    case (2 x t)
    then have t: "fs_mod (\<lambda>r' g b'. r' = r \<and> g = f \<and> b' = b) s t" "fork_block t r f b \<noteq> None" by auto
    show ?case
    proof (rule wpU_mono [OF Cons.IH [OF sb_inv_fs_mod(1) [OF Cons.prems t(1)]]], goal_cases)
      case (1 res u)
      then have u: "res = Inr ()" "fs_mod (\<lambda>r' g b'. r' = r \<and> g = f \<and> b' \<in> set bs) t u"
        "\<forall>b \<in> set bs. fork_block u r f b \<noteq> None" by auto
      have "fork_block u r f b \<noteq> None"
        using u(3) t(2) fs_modD(5) [OF u(2), of r f b] by (cases "b \<in> set bs") auto
      moreover have "fs_mod (\<lambda>r' g b'. r' = r \<and> g = f \<and> b' \<in> set (b # bs)) s u"
        using fs_mod_trans [OF fs_mod_mono [OF t(1)] fs_mod_mono [OF u(2)]] by auto
      ultimately show ?case using u(1,3) by auto
    qed
  qed simp
qed

lemma extending_flag_bits:
  assumes "mapped_fork f"
  shows "has_flag (w OR MapSuperExtendingFlag f) (MapSuperExtendingFlag f)"
    "\<not> has_flag (w AND NOT (MapSuperExtendingFlag f)) (MapSuperExtendingFlag f)"
proof -
  have b: "(w AND NOT x) AND x = 0" "(w OR x) AND x = x" for x :: u32
    by (rule bit_eqI, auto simp: bit_simps)+
  show "\<not> has_flag (w AND NOT (MapSuperExtendingFlag f)) (MapSuperExtendingFlag f)"
    unfolding has_flag_def b by simp
  show "has_flag (w OR MapSuperExtendingFlag f) (MapSuperExtendingFlag f)"
    unfolding has_flag_def b using assms by (cases f rule: mapped_fork_cases) auto
qed

lemma set_target_value:
  assumes "mapped_fork f" and "MapSuperSetExtendingTarget e f n = Inr e'"
  shows "MapSuperGetExtendingTarget e' f = n" "super e' = super e" "flags e' = flags e"
    "runtime_flags e' = runtime_flags e"
  using assms by (cases f rule: mapped_fork_cases; auto)+

lemma extend_bracket_values:
  assumes f: "mapped_fork f"
  shows "begin_extend f n e = Inr e' \<Longrightarrow> MapSuperGetExtendingTarget e' f = n \<and> super e' = super e \<and>
      flags e' = flags e \<and> has_flag (runtime_flags e') (MapSuperExtendingFlag f)"
    "end_extend f e = Inr e' \<Longrightarrow> MapSuperGetExtendingTarget e' f = InvalidBlockNumber \<and> super e' = super e \<and>
      flags e' = flags e \<and> \<not> has_flag (runtime_flags e') (MapSuperExtendingFlag f)"
  using set_target_value [OF f] extending_flag_bits [OF f] by (auto simp: begin_extend_def end_extend_def)

lemma stamp_extending [simp]:
  "MapSuperGetExtendingTarget (stamp_entry lsn (e\<lparr>super := sb\<rparr>)) f = MapSuperGetExtendingTarget e f"
  "runtime_flags (stamp_entry lsn (e\<lparr>super := sb\<rparr>)) = runtime_flags e"
  by (cases f; simp add: stamp_entry_def)+

lemma publish_value:
  assumes f: "mapped_fork f" and n: "n \<noteq> InvalidBlockNumber" and e: "good_entry e"
    and u: "publish_capacity f n lsn e = Inr e'"
  shows "good_entry e'" "capacity_of e' f = max (capacity_of e f) n"
    "MapSuperGetExtendingTarget e' f = MapSuperGetExtendingTarget e f"
proof -
  obtain raw where raw: "MapSuperblockGetPhysCapacity (super e) f = Inr raw"
    using capacity.getE [OF f] .
  obtain sb where sb: "MapSuperblockSetPhysCapacity (super e) f n = Inr sb"
    using capacity.setE [OF f] .
  define d where "d = (MapNormalizeForkBlockCount f raw < n)"
  have e': "e' = (if d then stamp_entry lsn (e\<lparr>super := sb\<rparr>) else e)"
    using u sb by (cases d) (simp_all add: publish_capacity_def raw d_def)
  show "good_entry e'"
    unfolding e' using e good_stamp [OF e identity_set(3) [OF good_identity [OF e] sb]] by simp
  show "MapSuperGetExtendingTarget e' f = MapSuperGetExtendingTarget e f"
    unfolding e' by simp
  have "MapSuperblockGetPhysCapacity (super e') f = (if d then Inr n else Inr raw)"
    unfolding e' using capacity.get_set [OF sb, of f] raw by (simp add: stamp_entry_def)
  then show "capacity_of e' f = max (capacity_of e f) n"
    using raw norm_valid [OF n, of f] by (auto simp: capacity_of_def nval_def d_def max_def)
qed

lemma in_block_range: "cur \<le> b \<Longrightarrow> b < n \<Longrightarrow> b \<in> set (map of_nat [unat cur..<unat n])" for b :: BlockNumber
  by (auto simp: word_le_nat_alt word_less_nat_alt intro!: image_eqI [of b of_nat "unat b"])

lemma range_block:
  assumes "b \<in> set (map of_nat [unat cur..<unat n])"
  shows "cur \<le> b \<and> b < (n :: BlockNumber)"
proof -
  obtain j where j: "b = of_nat j" "unat cur \<le> j" "j < unat n" using assms by auto
  then have "unat b = j" using less_trans [OF j(3) unat_u32_bound] by (simp add: unat_of_nat)
  then show ?thesis using j by (simp add: word_le_nat_alt word_less_nat_alt)
qed

lemma publish_round_spec:
  assumes inv: "sb_inv c r s" and tr: "trusted s rn i" and f: "mapped_fork f" and n: "n \<noteq> InvalidBlockNumber"
    and target: "MapSuperGetExtendingTarget (MapSuperEntries s ! i) f = n"
  shows "wpU (bindU (updE i (publish_capacity f n lsn)) (\<lambda>_.
           bindU (getE i) (\<lambda>e.
             let current0 = MapNormalizeForkBlockCount f raw;
                 current' = (if current0 < n then n else current0);
                 desired' = max n (MapSuperGetExtendingTarget e f)
             in if current' \<ge> desired'
                then bindU (updE i (end_extend f)) (\<lambda>_. returnU True)
                else bindU (updE i (\<lambda>e. MapSuperSetExtendingTarget e f desired')) (\<lambda>_. k current' desired'))))
     (\<lambda>res t. res = Inr True \<and> sb_inv c r t \<and> trusted t rn i \<and> sb_frame s t \<and>
        capacity_of (MapSuperEntries t ! i) f = max (capacity_of (MapSuperEntries s ! i) f) n \<and>
        \<not> has_flag (runtime_flags (MapSuperEntries t ! i)) (MapSuperExtendingFlag f)) s" (is "wpU _ ?Q s")
proof -
  have own: "owns (MapSuperEntries s) i rn" and good: "good_entry (MapSuperEntries s ! i)"
    using tr by (auto simp: trusted_good)
  show ?thesis
  proof (rule wpU_bindI [OF updE_owner_spec [OF inv neutral_safe [OF neutral_extending(4) [OF f]] own]], goal_cases)
    case (2 x t)
    then have t: "sb_inv c r t" "sb_frame s t" "owns (MapSuperEntries t) i rn"
      and e: "publish_capacity f n lsn (MapSuperEntries s ! i) = Inr (MapSuperEntries t ! i)" by auto
    note pub = publish_value [OF f n good e]
    have "wpU (updE i (end_extend f)) (\<lambda>res u. res = Inr () \<and> ?Q (Inr True) u) t"
    proof (rule wpU_mono [OF updE_owner_spec [OF t(1) neutral_safe [OF neutral_extending(2) [OF f]] t(3)]], goal_cases)
      case (1 res u)
      then have "end_extend f (MapSuperEntries t ! i) = Inr (MapSuperEntries u ! i)" by simp
      note u = extend_bracket_values(2) [OF f this]
      from 1 u pub sb_frame_trans [OF t(2)] show ?case
        by (auto simp: trusted_good good_entry_def entry_untrusted_def capacity_of_def)
    qed
    then have "wpU (bindU (updE i (end_extend f)) (\<lambda>_. returnU True)) ?Q t"
      by (rule wpU_bindI) (auto simp: wp)
    then show ?case
      by (simp add: getE_def wp MapSuperEntryBySlot_def Let_def pub(3) target not_less)
  qed simp
qed

lemma extend_loop_spec:
  assumes inv: "sb_inv c r s" and tr: "trusted s rn i" and f: "mapped_fork f" and n: "n \<noteq> InvalidBlockNumber"
    and fsync: "fsync_ok r f skip" and target: "MapSuperGetExtendingTarget (MapSuperEntries s ! i) f = n"
  shows "wpU (extend_loop (Suc k) c rn f skip cur n)
     (\<lambda>res t. res = Inr True \<and> sb_inv c r t \<and> trusted t rn i \<and>
        (\<forall>b. cur \<le> b \<and> b < n \<longrightarrow> fork_block t r f b \<noteq> None) \<and>
        (\<forall>r' g b x. (r', g) \<noteq> (r, f) \<or> b < cur \<or> n \<le> b \<longrightarrow>
           fork_block s r' g b = Some x \<longrightarrow> fork_block t r' g b = Some x) \<and>
        capacity_of (MapSuperEntries t ! i) f = max (capacity_of (MapSuperEntries s ! i) f) n \<and>
        \<not> has_flag (runtime_flags (MapSuperEntries t ! i)) (MapSuperExtendingFlag f)) s" (is "wpU _ ?Q s")
  unfolding extend_loop.simps
proof (rule wpU_bindI [OF extend_blocks_spec [OF inv f fsync]], goal_cases)
  case (2 x t)
  let ?P = "\<lambda>r' g b'. r' = r \<and> g = f \<and> b' \<in> set (map of_nat [unat cur..<unat n])"
  have m: "fs_mod ?P s t" and bs: "cur \<le> b \<and> b < n \<Longrightarrow> fork_block t r f b \<noteq> None" for b
    using 2 in_block_range [of cur b n] by blast+
  have keep: "fork_block t r' g b = Some x"
    if "(r', g) \<noteq> (r, f) \<or> b < cur \<or> n \<le> b" "fork_block s r' g b = Some x" for r' g b x
  proof (rule fs_modD(5) [OF m _ that(2)])
    show "\<not> ?P r' g b" using that(1) range_block [of b cur n] by (auto simp: not_less [symmetric])
  qed
  note inv' = sb_inv_fs_mod [OF inv m]
  have tr': "trusted t rn i" using tr inv'(2) by (simp add: trusted_def)
  obtain raw where raw: "MapSuperblockGetPhysCapacity (super (MapSuperEntries t ! i)) f = Inr raw"
    using capacity.getE [OF f] .
  have target': "MapSuperGetExtendingTarget (MapSuperEntries t ! i) f = n"
    using target inv'(2) by simp
  have Q: "?Q res u" if "res = Inr True \<and> sb_inv c r u \<and> trusted u rn i \<and> sb_frame t u \<and>
        capacity_of (MapSuperEntries u ! i) f = max (capacity_of (MapSuperEntries t ! i) f) n \<and>
        \<not> has_flag (runtime_flags (MapSuperEntries u ! i)) (MapSuperExtendingFlag f)" for res u
    using that bs keep inv'(2) by (simp add: sb_frame_def)
  show ?case
    unfolding wpU_head_prepare [OF inv'(1) tr'] option.case wpU_head raw
    by (rule wpU_mono [OF publish_round_spec [OF inv'(1) tr' f n target'] Q])
qed simp

text \<open>A backend that finds no extension under way extends the fork itself. It needs one round.\<close>

lemma ensure_physical_spec:
  assumes inv: "sb_inv c r s" and tr: "trusted s rn i" and f: "mapped_fork f" and n: "n \<noteq> InvalidBlockNumber"
    and path: "path_inode s (r, UMBRA_METADATA_FORKNUM, 0) \<noteq> None" and fsync: "fsync_ok r f skip"
    and idle: "\<not> has_flag (runtime_flags (MapSuperEntries s ! i)) (MapSuperExtendingFlag f)"
    and cap: "cap = capacity_of (MapSuperEntries s ! i) f"
  shows "wpU (MapSBlockEnsurePhysicalNblocks (Suc k) c rn f n skip) (\<lambda>res t. res = Inr True \<and> sb_inv c r t \<and>
        trusted t rn i \<and> (\<forall>b. cap \<le> b \<and> b < n \<longrightarrow> fork_block t r f b \<noteq> None) \<and>
        (\<forall>r' g b x. (r', g) \<noteq> (r, f) \<or> b < cap \<or> n \<le> b \<longrightarrow>
           fork_block s r' g b = Some x \<longrightarrow> fork_block t r' g b = Some x) \<and>
        capacity_of (MapSuperEntries t ! i) f = max cap n \<and>
        \<not> has_flag (runtime_flags (MapSuperEntries t ! i)) (MapSuperExtendingFlag f)) s" (is "wpU _ ?Q s")
proof (cases "n = 0")
  case True
  then show ?thesis
    using inv tr f idle cap by (simp add: MapSBlockEnsurePhysicalNblocks_def MapForkHasMappedState_iff wp)
next
  case False
  have own: "owns (MapSuperEntries s) i rn" using tr by (simp add: trusted_good)
  obtain raw where raw: "MapSuperblockGetPhysCapacity (super (MapSuperEntries s ! i)) f = Inr raw"
    using capacity.getE [OF f] .
  have capr: "MapNormalizeForkBlockCount f raw = cap"
    using raw cap by (simp add: capacity_of_def nval_def)
  show ?thesis
    unfolding MapSBlockEnsurePhysicalNblocks_def
  proof (simp only: MapForkHasMappedState_iff f False not_True_eq_False if_False,
      rule wpU_bindI [OF ensure_loaded_hit [OF inv own path]], goal_cases)
    case (2 x t)
    then have t: "x" "sb_inv c r t" "MapSuperEntries t = MapSuperEntries s" "fork_block t = fork_block s" by auto
    have tr': "trusted t rn i" using tr t(3) by (simp add: trusted_def)
    have main: "wpU (bindU (updE i (begin_extend f n)) (\<lambda>_. catchU (extend_loop (Suc k) c rn f skip cap n) h)) ?Q t" for h
    proof (rule wpU_bindI [OF updE_owner_spec [OF t(2) neutral_safe [OF neutral_extending(1) [OF f]], where rn = rn]], goal_cases)
      case 1 show ?case using own t(3) by simp
    next
      case (3 x u)
      then have u: "sb_inv c r u" "owns (MapSuperEntries u) i rn" "sb_frame t u"
        "begin_extend f n (MapSuperEntries s ! i) = Inr (MapSuperEntries u ! i)" using t(3) by auto
      note b = extend_bracket_values(1) [OF f u(4)]
      have "trusted u rn i"
        using u(2) b tr by (simp add: trusted_good good_entry_def entry_untrusted_def)
      from extend_loop_spec [OF u(1) this f n fsync conjunct1 [OF b], of k cap]
      have "wpU (extend_loop (Suc k) c rn f skip cap n) ?Q u"
        by (rule wpU_mono) (use u(3) t(4) b cap in \<open>auto simp: sb_frame_def capacity_of_def\<close>)
      then show ?case
        by (auto simp: wpU_def catchU_def split_beta split: sum.splits)
    qed simp
    have raw': "MapSuperblockGetPhysCapacity (super (MapSuperEntries t ! i)) f = Inr raw" using raw t(3) by simp
    have skip_all: "?Q (Inr True) t" if "n \<le> cap"
      using that t tr' cap idle by (auto simp: max_def dest: order.antisym)
    have idle': "\<not> has_flag (runtime_flags (MapSuperEntries t ! i)) (MapSuperExtendingFlag f)"
      using idle t(3) by simp
    show ?case
    proof (cases "n \<le> cap")
      case True
      have "wpU (returnU True) ?Q t"
        unfolding wpU_returnU by (rule skip_all [OF True])
      then show ?thesis
        using t(1) True by (simp only: simp_thms if_False if_True wpU_head_prepare [OF t(2) tr']
            option.case wpU_head raw' Let_def capr)
    next
      case False
      then show ?thesis
        using t(1) main idle' by (simp only: simp_thms if_False wpU_head_prepare [OF t(2) tr']
            option.case wpU_head raw' Let_def capr)
    qed
  qed simp
qed

subsection \<open>Properties\<close>

text \<open>C10: Whatever sequence of superblock operations runs for a relation, with errors and table-full
  conditions on the way, the shared table stays well formed and every used entry keeps its three
  positions in order on every mapped fork: the reclaim boundary does not pass the allocation
  frontier, and the frontier does not pass the reservation frontier.\<close>

theorem sb_ops_keep_allocator_order:
  assumes "sb_inv c r s" and "list_all (sb_op_args r) ops"
  shows "super_ok (fold (run_sb_op c rn) ops s) \<and>
     (\<forall>e f. e \<in> set (MapSuperEntries (fold (run_sb_op c rn) ops s)) \<and> in_use e \<and> mapped_fork f \<longrightarrow>
        boundary_of e f \<le> next_free_of e f \<and> next_free_of e f \<le> reserved_of e f)"
  using run_sb_ops_inv [OF assms, of rn, THEN sb_invD(4)] by (auto simp: sb_ok_def alloc_ok_def)

theorem sb_ops_keep_allocator_order_witness:
  "super_ok (fold (run_sb_op 0 (locator demo_rloc))
     [SbInit 7, SbBumpNextFree MAIN_FORKNUM 3 8, SbAdvanceReclaim MAIN_FORKNUM 9, SbDelete] demo_sb)"
  using sb_ops_keep_allocator_order [OF demo_sb_inv,
      of "[SbInit 7, SbBumpNextFree MAIN_FORKNUM 3 8, SbAdvanceReclaim MAIN_FORKNUM 9, SbDelete]"]
  by (simp add: InvalidBlockNumber_def)

text \<open>C36: A bump of the logical size is what the next read of the size returns: the maximum of the old
  and the new value. A set is what the next read returns. Neither raises an error on a cached,
  trusted superblock.\<close>

theorem logical_nblocks_update_then_get:
  assumes "sb_inv c r s" and "trusted s rn i" and "mapped_fork f" and "n \<noteq> InvalidBlockNumber"
  shows "wpU (bindU (MapSBlockBumpLogicalNblocks c rn f n lsn) (\<lambda>_. MapSBlockTryGetLogicalNblocks c rn f))
      (\<lambda>res t. res = Inr (Some (max (logical_of (MapSuperEntries s ! i) f) n)) \<and> sb_inv c r t) s \<and>
    wpU (bindU (MapSBlockSetLogicalNblocks c rn f n lsn) (\<lambda>_. MapSBlockTryGetLogicalNblocks c rn f))
      (\<lambda>res t. res = Inr (Some n) \<and> sb_inv c r t) s"
  unfolding MapSBlockBumpLogicalNblocks_def MapSBlockSetLogicalNblocks_def
proof (intro conjI)
  note upd = logical_update_spec [OF assms, of lsn]
  show "wpU (bindU (MapSBlockUpdateLogicalNblocks c rn f n lsn True) (\<lambda>_. MapSBlockTryGetLogicalNblocks c rn f))
      (\<lambda>res t. res = Inr (Some (max (logical_of (MapSuperEntries s ! i) f) n)) \<and> sb_inv c r t) s"
    by (rule wpU_bindI [OF upd]) (auto intro!: wpU_mono [OF getter_spec(1) [OF _ _ assms(3)]])
  show "wpU (bindU (MapSBlockUpdateLogicalNblocks c rn f n lsn False) (\<lambda>_. MapSBlockTryGetLogicalNblocks c rn f))
      (\<lambda>res t. res = Inr (Some n) \<and> sb_inv c r t) s"
    by (rule wpU_bindI [OF upd]) (auto intro!: wpU_mono [OF getter_spec(1) [OF _ _ assms(3)]])
qed

theorem logical_nblocks_update_then_get_witness:
  "wpU (bindU (MapSBlockSetLogicalNblocks 0 (locator demo_rloc) MAIN_FORKNUM 5 9)
      (\<lambda>_. MapSBlockTryGetLogicalNblocks 0 (locator demo_rloc) MAIN_FORKNUM)) (\<lambda>res t. res = Inr (Some 5)) demo_cached"
proof -
  obtain i where "trusted demo_cached (locator demo_rloc) i" using demo_cached(2) by blast
  from logical_nblocks_update_then_get [OF demo_cached(1) this, of MAIN_FORKNUM 5 9]
  show ?thesis by (auto simp: mapped_fork_def InvalidBlockNumber_def elim!: wpU_mono)
qed

text \<open>C37: The allocation frontier only moves forward: a bump of it, and likewise of the physical
  capacity, leaves the maximum of the old and the new value, and a bump of the frontier leaves the
  capacity alone.\<close>

theorem physical_bump_then_get:
  assumes "sb_inv c r s" and "trusted s rn i" and "mapped_fork f" and "n \<noteq> InvalidBlockNumber"
  shows "wpU (bindU (MapSBlockBumpNextFreePhysBlock c rn f n lsn) (\<lambda>_. MapSBlockTryGetNextFreePhysBlock c rn f))
      (\<lambda>res t. res = Inr (Some (max (next_free_of (MapSuperEntries s ! i) f) n)) \<and>
         capacity_of (MapSuperEntries t ! i) f = capacity_of (MapSuperEntries s ! i) f) s \<and>
    wpU (bindU (MapSBlockBumpPhysicalNblocks c rn f n lsn) (\<lambda>_. MapSBlockTryGetPhysicalNblocks c rn f))
      (\<lambda>res t. res = Inr (Some (max (capacity_of (MapSuperEntries s ! i) f) n))) s"
  unfolding MapSBlockBumpNextFreePhysBlock_def MapSBlockBumpPhysicalNblocks_def
  by (intro conjI; rule wpU_bindI [OF physical_update_spec [OF assms, of _ _ lsn]])
    (auto intro!: wpU_mono [OF getter_spec(2) [OF _ _ assms(3)]] wpU_mono [OF getter_spec(3) [OF _ _ assms(3)]])

theorem physical_bump_then_get_witness:
  "wpU (bindU (MapSBlockBumpNextFreePhysBlock 0 (locator demo_rloc) VISIBILITYMAP_FORKNUM 3 9)
      (\<lambda>_. MapSBlockTryGetNextFreePhysBlock 0 (locator demo_rloc) VISIBILITYMAP_FORKNUM))
    (\<lambda>res t. \<exists>m \<ge> 3. res = Inr (Some m)) demo_cached"
proof -
  obtain i where "trusted demo_cached (locator demo_rloc) i" using demo_cached(2) by blast
  from physical_bump_then_get [OF demo_cached(1) this, of VISIBILITYMAP_FORKNUM 3 9]
  show ?thesis by (auto simp: mapped_fork_def InvalidBlockNumber_def elim!: wpU_mono)
qed

text \<open>C38: Advancing the reclaim boundary moves it to the requested block, but never backwards and never
  past the allocation frontier, so a block that may still be handed out is never declared reclaimable;
  the superblock itself is not touched.\<close>

theorem reclaim_boundary_advance:
  assumes "sb_inv c r s" and "trusted s rn i" and "mapped_fork f" and "b \<noteq> InvalidBlockNumber"
    and "path_inode s (r, UMBRA_METADATA_FORKNUM, 0) \<noteq> None"
  shows "wpU (MapSBlockAdvanceReclaimBoundary c rn f b) (\<lambda>res t. res = Inr () \<and>
     boundary_of (MapSuperEntries t ! i) f =
       max (boundary_of (MapSuperEntries s ! i) f) (min b (next_free_of (MapSuperEntries s ! i) f)) \<and>
     super (MapSuperEntries t ! i) = super (MapSuperEntries s ! i)) s"
  by (rule wpU_mono [OF advance_spec [OF assms]]) auto

theorem reclaim_boundary_advance_witness:
  "\<exists>i. wpU (MapSBlockAdvanceReclaimBoundary 0 (locator demo_rloc) MAIN_FORKNUM 4) (\<lambda>res t. res = Inr () \<and>
     boundary_of (MapSuperEntries t ! i) MAIN_FORKNUM = max (boundary_of (MapSuperEntries demo_cached ! i) MAIN_FORKNUM)
       (min 4 (next_free_of (MapSuperEntries demo_cached ! i) MAIN_FORKNUM))) demo_cached"
proof -
  obtain i where "trusted demo_cached (locator demo_rloc) i" using demo_cached(2) by blast
  from reclaim_boundary_advance [OF demo_cached(1) this _ _ demo_cached(3), of MAIN_FORKNUM 4]
  show ?thesis by (auto simp: mapped_fork_def InvalidBlockNumber_def elim!: wpU_mono)
qed

text \<open>C22: A superblock that was created survives the loss of its cache entry: after creation and
  deletion of the entry, a read that finds a slot returns the initial superblock, with its LSN and a
  fresh checksum, as valid.\<close>

theorem created_superblock_read_back:
  assumes "sb_inv c r s" and "lsn \<noteq> InvalidXLogRecPtr"
  shows "wpU (bindU (MapSBlockInit c rn lsn) (\<lambda>_. bindU (MapSuperDeleteEntry rn) (\<lambda>_. MapSBlockRead c rn)))
     (\<lambda>res t. \<forall>x. res = Inr x \<longrightarrow>
        x = (MAP_SBLOCK_READ_OK, MapSuperblockRefreshCRC (initial_super lsn))) s"
proof (rule wpU_bindI [OF init_spec [OF assms(1) refl]], goal_cases)
  case (2 x t)
  then have t: "init_post c r rn lsn s t" using assms(2) by simp
  then have inv: "sb_inv c r t" by (simp add: init_post_def)
  show ?case
  proof (rule wpU_bindI [OF delete_spec [OF inv]], goal_cases)
    case (2 y u)
    then have "disk_super u r = disk_super t r"
      "path_inode t (r, UMBRA_METADATA_FORKNUM, 0) \<noteq> None \<Longrightarrow> path_inode u (r, UMBRA_METADATA_FORKNUM, 0) \<noteq> None"
      by (auto simp: sb_frame_def disk_super_def)
    then show ?case
      using 2 t initial_super_sector(2) by (intro read_cold_spec) (auto simp: init_post_def)
  qed simp
qed simp

theorem created_superblock_read_back_witness:
  "wpU (bindU (MapSBlockInit 0 (locator demo_rloc) 7) (\<lambda>_. bindU (MapSuperDeleteEntry (locator demo_rloc))
     (\<lambda>_. MapSBlockRead 0 (locator demo_rloc)))) (\<lambda>res t. \<forall>x. res = Inr x \<longrightarrow> fst x = MAP_SBLOCK_READ_OK) demo_sb"
  using created_superblock_read_back [OF demo_sb_inv, of 7 "locator demo_rloc"]
  by (auto simp: InvalidXLogRecPtr_def elim!: wpU_mono)

text \<open>C23: WAL before data: when the creation of a superblock outside recovery returns, the file holds
  a superblock whose LSN is covered by the flushed WAL.\<close>

theorem created_superblock_wal_first:
  assumes "sb_inv c r s" and "\<not> InRecovery s"
  shows "wpU (MapSBlockInit c rn map_lsn) (\<lambda>res t. \<forall>x. res = Inr x \<longrightarrow>
     (\<exists>sb. disk_super t r = Some sb \<and> MapSuperblockIsValid sb \<and>
        MapSuperblockGetLastUpdatedLSN sb \<le> XLogFlushRecPtr t)) s"
proof (rule wpU_mono [OF init_spec [OF assms(1) refl, of rn map_lsn]], goal_cases)
  case (1 res t)
  have "MapSuperblockGetLastUpdatedLSN (MapSuperblockRefreshCRC (initial_super l)) = l" for l
    by (simp add: initial_super_def MapSuperblockGetLastUpdatedLSN_def MapSuperblockRefreshCRC_def
        MapSuperblockSetLastUpdatedLSN_def)
  then show ?case
    using 1 assms(2) initial_super_sector(2) by (auto simp: init_post_def)
qed

theorem created_superblock_wal_first_witness:
  "wpU (MapSBlockInit 0 (locator demo_rloc) 7) (\<lambda>res t. \<forall>x. res = Inr x \<longrightarrow>
     (\<exists>sb. disk_super t demo_rloc = Some sb \<and> MapSuperblockGetLastUpdatedLSN sb \<le> XLogFlushRecPtr t)) demo_sb"
  using created_superblock_wal_first [OF demo_sb_inv, of "locator demo_rloc" 7] demo_sb_fields(1)
  by (auto elim!: wpU_mono)



end
