(* ===== verification/MapBuf.thy ===== *)
theory MapBuf
  imports MapSuperProps
begin

text \<open>
  The shared cache of MAP pages: the buffer descriptors and their state word
  (\<^verbatim>\<open>src/backend/storage/map/mapbuf.c\<close>), the page lookup table and the clock sweep
  (\<^verbatim>\<open>mapclock.c\<close>), the shared-memory initialisation and the counters (\<^verbatim>\<open>mapinit.c\<close>), and the
  wake-up slots of the background processes (\<^verbatim>\<open>mapbgproc.c\<close>).

  The state word keeps its 32-bit layout. The page number of an empty slot, -1 in the code, is
  \<^const>\<open>None\<close>. A compare-and-swap loop is one atomic update. The content lock and the I/O lock of a
  buffer are not part of the state: an operation runs as a whole, and a backend that would sleep
  until another one acts stops with the error \<open>E_WAIT\<close>. The dynamic hash table behind the lookup
  table is a finite map. What is private to a backend (its pins, its I/O in progress, its in-flight
  remaps, its truncation preloads) is the record \<open>map_backend\<close>, of which the state holds the one of
  the running backend.
\<close>

subsection \<open>State\<close>

record MapBufferDesc =
  buf_rnode :: RelFileLocator
  buf_forknum :: ForkNumber
  page_number :: "BlockNumber option"
  buf_page_lsn :: XLogRecPtr
  buf_state :: u32
  pending_count :: u32
  pending_bits :: "u64 list"
  freeNext :: free_next

type_synonym MapCacheTag = "RelFileLocator \<times> ForkNumber \<times> BlockNumber"

record MapInflightLocalEntry =
  inf_rnode :: RelFileLocator
  inf_forknum :: ForkNumber
  inf_lblkno :: BlockNumber
  inf_pblkno :: BlockNumber
  inf_slot_id :: nat
  inf_entry_idx :: nat

record MapTruncatePreloadState =
  preload_active :: bool
  preload_rnode :: RelFileLocator
  preload_forknum :: ForkNumber
  preload_slots :: "nat list"

record map_backend =
  MapPrivateRefCount :: "nat \<Rightarrow> nat"
  InProgressMapBuf :: "nat option"
  MapInflightLocalEntries :: "MapInflightLocalEntry list"
  MapTruncatePreload :: "ForkNumber \<Rightarrow> MapTruncatePreloadState"

record map_buf = map_sb +
  MapBuffers :: "MapBufferDesc list"
  MapPageData :: "block list"
  MapCacheHash :: "MapCacheTag \<rightharpoonup> nat"
  next_victim_buffer :: u32
  first_free_buffer :: free_next
  mapwriter_procno :: "nat option"
  mapcompactor_procno :: "nat option"
  procLatches :: "nat list"
  num_allocs :: u32
  complete_passes :: u32
  map_compactor_relocations :: u64
  map_reclaim_enqueued :: u64
  map_reclaim_processed :: u64
  map_reclaim_failed :: u64
  MyBackend :: map_backend

abbreviation bufs :: "'x map_buf_scheme \<Rightarrow> MapBufferDesc list" where
  "bufs s \<equiv> MapBuffers s"

abbreviation num_slots :: "'x map_buf_scheme \<Rightarrow> nat" where
  "num_slots s \<equiv> length (MapBuffers s)"

abbreviation private_pins :: "'x map_buf_scheme \<Rightarrow> nat \<Rightarrow> nat" where
  "private_pins s \<equiv> MapPrivateRefCount (MyBackend s)"

definition upd_buf ::
  "nat \<Rightarrow> (MapBufferDesc \<Rightarrow> MapBufferDesc) \<Rightarrow> 'x map_buf_scheme \<Rightarrow> 'x map_buf_scheme" where
  "upd_buf i g s = s\<lparr>MapBuffers := (MapBuffers s)[i := g (MapBuffers s ! i)]\<rparr>"

lemma nth_upd_buf:
  "MapBuffers (upd_buf i g s) ! j =
     (if j = i \<and> i < num_slots s then g (MapBuffers s ! i) else MapBuffers s ! j)"
  by (cases "i < num_slots s") (auto simp: upd_buf_def nth_list_update list_update_beyond)

lemma upd_buf_simps [simp]:
  "num_slots (upd_buf i g s) = num_slots s" "MapPageData (upd_buf i g s) = MapPageData s"
  "MapCacheHash (upd_buf i g s) = MapCacheHash s" "MyBackend (upd_buf i g s) = MyBackend s"
  "next_victim_buffer (upd_buf i g s) = next_victim_buffer s"
  "first_free_buffer (upd_buf i g s) = first_free_buffer s" "num_allocs (upd_buf i g s) = num_allocs s"
  by (simp_all add: upd_buf_def)

definition upd_backend :: "(map_backend \<Rightarrow> map_backend) \<Rightarrow> 'x map_buf_scheme \<Rightarrow> 'x map_buf_scheme" where
  "upd_backend g s = s\<lparr>MyBackend := g (MyBackend s)\<rparr>"

subsection \<open>The state word\<close>

definition MAPBUF_VALID_MASK :: u32 where "MAPBUF_VALID_MASK = 0x1FF"
definition MAPBUF_USAGE_COUNT_SHIFT :: nat where "MAPBUF_USAGE_COUNT_SHIFT = 9"
definition MAPBUF_USAGE_COUNT_MASK :: u32 where "MAPBUF_USAGE_COUNT_MASK = 0x3E00"
definition MAPBUF_USAGECOUNT_ONE :: u32 where "MAPBUF_USAGECOUNT_ONE = 0x200"
definition MAPBUF_DIRTY :: u32 where "MAPBUF_DIRTY = 0x4000"
definition MAPBUF_IO_IN_PROGRESS :: u32 where "MAPBUF_IO_IN_PROGRESS = 0x8000"
definition MAPBUF_IO_ERROR :: u32 where "MAPBUF_IO_ERROR = 0x10000"
definition MAPBUF_JUST_DIRTIED :: u32 where "MAPBUF_JUST_DIRTIED = 0x20000"
definition MAPBUF_NOT_MATERIALIZED :: u32 where "MAPBUF_NOT_MATERIALIZED = 0x40000"
definition MAPBUF_CHECKPOINT_NEEDED :: u32 where "MAPBUF_CHECKPOINT_NEEDED = 0x80000"

lemmas mapbuf_bits = MAPBUF_VALID_MASK_def MAPBUF_USAGE_COUNT_MASK_def MAPBUF_USAGECOUNT_ONE_def
  MAPBUF_DIRTY_def MAPBUF_IO_IN_PROGRESS_def MAPBUF_IO_ERROR_def MAPBUF_JUST_DIRTIED_def
  MAPBUF_NOT_MATERIALIZED_def MAPBUF_CHECKPOINT_NEEDED_def

definition MAPBUF_GET_REFCOUNT :: "u32 \<Rightarrow> u32" where
  "MAPBUF_GET_REFCOUNT st = st AND MAPBUF_VALID_MASK"

definition MAPBUF_GET_USAGECOUNT :: "u32 \<Rightarrow> u32" where
  "MAPBUF_GET_USAGECOUNT st = drop_bit MAPBUF_USAGE_COUNT_SHIFT (st AND MAPBUF_USAGE_COUNT_MASK)"

definition MapBufferUpdateStateBits :: "nat \<Rightarrow> u32 \<Rightarrow> u32 \<Rightarrow> ('x map_buf_scheme, unit) um" where
  "MapBufferUpdateStateBits i set_bits clear_bits =
     modifyU (upd_buf i (\<lambda>b. b\<lparr>buf_state := (buf_state b OR set_bits) AND NOT clear_bits\<rparr>))"

text \<open>\<^verbatim>\<open>(BlockNumber) buf->page_number\<close>.\<close>

definition page_blkno :: "MapBufferDesc \<Rightarrow> BlockNumber" where
  "page_blkno b = (case page_number b of None \<Rightarrow> InvalidBlockNumber | Some n \<Rightarrow> n)"

text \<open>The guard with which every reader of a slot checks that it still holds the page it looked up.\<close>

definition buf_has_tag :: "MapBufferDesc \<Rightarrow> RelFileLocator \<Rightarrow> ForkNumber \<Rightarrow> BlockNumber \<Rightarrow> bool" where
  "buf_has_tag b rnode f map_blkno \<longleftrightarrow>
     page_number b = Some map_blkno \<and> buf_forknum b = f \<and> RelFileLocatorEquals (buf_rnode b) rnode"

definition getB :: "nat \<Rightarrow> ('x map_buf_scheme, MapBufferDesc) um" where
  "getB i = getU (\<lambda>s. MapBuffers s ! i)"

subsection \<open>Pins\<close>

definition pin_private :: "nat \<Rightarrow> map_backend \<Rightarrow> map_backend" where
  "pin_private i me = me\<lparr>MapPrivateRefCount := (MapPrivateRefCount me)(i := MapPrivateRefCount me i + 1)\<rparr>"

definition unpin_private :: "nat \<Rightarrow> map_backend \<Rightarrow> map_backend" where
  "unpin_private i me = me\<lparr>MapPrivateRefCount := (MapPrivateRefCount me)(i := MapPrivateRefCount me i - 1)\<rparr>"

definition MapPinBuffer :: "nat \<Rightarrow> bool \<Rightarrow> ('x map_buf_scheme, unit) um" where
  "MapPinBuffer i adjust_usage =
     bindU (getB i) (\<lambda>b.
       if MAPBUF_GET_REFCOUNT (buf_state b) \<ge> MAPBUF_VALID_MASK then throwU (ERROR, E_INTERNAL)
       else
         bindU (modifyU (upd_buf i (\<lambda>b. b\<lparr>buf_state := buf_state b + 1\<rparr>))) (\<lambda>_.
         bindU (modifyU (upd_backend (pin_private i))) (\<lambda>_.
         whenU (adjust_usage \<and> MAPBUF_GET_USAGECOUNT (buf_state b + 1) < 5)
           (modifyU (upd_buf i (\<lambda>b. b\<lparr>buf_state := buf_state b + MAPBUF_USAGECOUNT_ONE\<rparr>))))))"

definition MapUnpinBuffer :: "nat \<Rightarrow> ('x map_buf_scheme, unit) um" where
  "MapUnpinBuffer i =
     bindU (getU (\<lambda>s. private_pins s i)) (\<lambda>n.
       if n = 0 then throwU (ERROR, E_INTERNAL)
       else
         bindU (getB i) (\<lambda>b.
           if MAPBUF_GET_REFCOUNT (buf_state b) = 0 then throwU (ERROR, E_INTERNAL)
           else
             bindU (modifyU (upd_buf i (\<lambda>b. b\<lparr>buf_state := buf_state b - 1\<rparr>))) (\<lambda>_.
             modifyU (upd_backend (unpin_private i)))))"

subsection \<open>Dirtying a page\<close>

definition MapEnsureBufferMaterialized :: "nat \<Rightarrow> nat \<Rightarrow> ('x map_buf_scheme, unit) um" where
  "MapEnsureBufferMaterialized c i =
     bindU (getB i) (\<lambda>b.
       if buf_state b AND MAPBUF_NOT_MATERIALIZED = 0 then returnU ()
       else
         bindU (umfile_ctx_fork_exists c UMBRA_METADATA_FORKNUM UMFILE_EXISTS_DENSE) (\<lambda>ex.
           if \<not> ex then throwU (PANIC, E_MAP_MISSING)
           else
             bindU (umfile_ctx_get_nblocks c UMBRA_METADATA_FORKNUM UMFILE_NBLOCKS_DENSE) (\<lambda>map_nblocks.
             let map_blkno = page_blkno b in
             bindU (whenU (map_blkno \<ge> map_nblocks)
                      (umfile_zeroextend c UMBRA_METADATA_FORKNUM map_nblocks
                         (unat (map_blkno + 1 - map_nblocks)) False)) (\<lambda>_.
             MapBufferUpdateStateBits i 0 MAPBUF_NOT_MATERIALIZED))))"

definition MapMarkBufferDirty :: "nat \<Rightarrow> nat \<Rightarrow> XLogRecPtr \<Rightarrow> ('x map_buf_scheme, unit) um" where
  "MapMarkBufferDirty c i lsn =
     bindU (getB i) (\<lambda>b.
     bindU (whenU (page_number b \<noteq> Some MAP_BLOCK_SUPER) (MapEnsureBufferMaterialized c i)) (\<lambda>_.
     bindU (modifyU (upd_buf i (\<lambda>b. b\<lparr>buf_page_lsn := lsn\<rparr>))) (\<lambda>_.
     MapBufferUpdateStateBits i (MAPBUF_DIRTY OR MAPBUF_JUST_DIRTIED) 0)))"

subsection \<open>Output I/O\<close>

definition MapWaitIO :: "nat \<Rightarrow> ('x map_buf_scheme, unit) um" where
  "MapWaitIO i =
     bindU (getB i) (\<lambda>b. whenU (buf_state b AND MAPBUF_IO_IN_PROGRESS \<noteq> 0) (throwU (ERROR, E_WAIT)))"

definition MapStartBufferIO :: "nat \<Rightarrow> u32 \<Rightarrow> ('x map_buf_scheme, bool) um" where
  "MapStartBufferIO i required_bits =
     bindU (MapWaitIO i) (\<lambda>_.
     bindU (getB i) (\<lambda>b.
       if buf_state b AND MAPBUF_DIRTY = 0 \<or> buf_state b AND required_bits \<noteq> required_bits
       then returnU False
       else
         bindU (MapBufferUpdateStateBits i MAPBUF_IO_IN_PROGRESS (MAPBUF_IO_ERROR OR MAPBUF_JUST_DIRTIED)) (\<lambda>_.
         bindU (modifyU (upd_backend (\<lambda>me. me\<lparr>InProgressMapBuf := Some i\<rparr>))) (\<lambda>_.
         returnU True))))"

definition terminate_state :: "bool \<Rightarrow> u32 \<Rightarrow> u32 \<Rightarrow> u32" where
  "terminate_state clear_dirty set_flag_bits old_state =
     (let st1 = old_state AND NOT (MAPBUF_IO_IN_PROGRESS OR MAPBUF_IO_ERROR);
          st2 = (if clear_dirty then st1 AND NOT MAPBUF_CHECKPOINT_NEEDED else st1);
          st3 = (if clear_dirty \<and> old_state AND MAPBUF_JUST_DIRTIED = 0
                 then st2 AND NOT MAPBUF_DIRTY else st2)
      in st3 OR set_flag_bits)"

definition MapTerminateBufferIO :: "nat \<Rightarrow> bool \<Rightarrow> u32 \<Rightarrow> ('x map_buf_scheme, unit) um" where
  "MapTerminateBufferIO i clear_dirty set_flag_bits =
     bindU (modifyU (upd_buf i (\<lambda>b. b\<lparr>buf_state := terminate_state clear_dirty set_flag_bits (buf_state b)\<rparr>))) (\<lambda>_.
     modifyU (upd_backend (\<lambda>me. me\<lparr>InProgressMapBuf := None\<rparr>)))"

definition MapAbortBufferIO :: "('x map_buf_scheme, unit) um" where
  "MapAbortBufferIO =
     bindU (getU (\<lambda>s. InProgressMapBuf (MyBackend s))) (\<lambda>cur.
       case cur of
         None \<Rightarrow> returnU ()
       | Some i \<Rightarrow>
           bindU (getB i) (\<lambda>b.
             if buf_state b AND MAPBUF_IO_IN_PROGRESS \<noteq> 0
             then MapTerminateBufferIO i False MAPBUF_IO_ERROR
             else modifyU (upd_backend (\<lambda>me. me\<lparr>InProgressMapBuf := None\<rparr>))))"

subsection \<open>The fields of the state word\<close>

text \<open>The state word is three numbers side by side: the reference count (9 bits), the usage count
  (5 bits) and the flags. \<open>rc\<close>, \<open>us\<close> and \<open>fl\<close> read them as natural numbers.\<close>

definition rc :: "u32 \<Rightarrow> nat" where "rc st = unat st mod 512"
definition us :: "u32 \<Rightarrow> nat" where "us st = unat st div 512 mod 32"
definition fl :: "u32 \<Rightarrow> nat" where "fl st = unat st div 16384"

lemma usage_as_div: "unat (MAPBUF_GET_USAGECOUNT st) = unat st div 512 mod 32"
proof -
  have "MAPBUF_GET_USAGECOUNT st = take_bit 5 (drop_bit 9 st)"
    unfolding MAPBUF_GET_USAGECOUNT_def MAPBUF_USAGE_COUNT_SHIFT_def MAPBUF_USAGE_COUNT_MASK_def
    by (simp only: drop_bit_and) (simp add: take_bit_eq_mask mask_eq_exp_minus_1)
  then show ?thesis
    by (simp add: take_bit_eq_mod drop_bit_eq_div unat_mod unat_div)
qed

lemma refcount_as_mod: "unat (MAPBUF_GET_REFCOUNT st) = unat st mod 512"
proof -
  have "MAPBUF_GET_REFCOUNT st = take_bit 9 st"
    unfolding MAPBUF_GET_REFCOUNT_def MAPBUF_VALID_MASK_def
    by (simp add: take_bit_eq_mask mask_eq_exp_minus_1)
  then show ?thesis by (simp add: take_bit_eq_mod unat_mod)
qed

lemma unat_refcount [simp]: "unat (MAPBUF_GET_REFCOUNT st) = rc st"
  by (simp add: refcount_as_mod rc_def)

lemma unat_usagecount [simp]: "unat (MAPBUF_GET_USAGECOUNT st) = us st"
  by (simp add: usage_as_div us_def)

lemma refcount_0_iff [simp]: "MAPBUF_GET_REFCOUNT st = 0 \<longleftrightarrow> rc st = 0"
  by (simp flip: unat_refcount add: unat_eq_zero)

lemma usagecount_0_iff [simp]: "MAPBUF_GET_USAGECOUNT st = 0 \<longleftrightarrow> us st = 0"
  by (simp flip: unat_usagecount add: unat_eq_zero)

lemma refcount_full_iff [simp]: "MAPBUF_VALID_MASK \<le> MAPBUF_GET_REFCOUNT st \<longleftrightarrow> 511 \<le> rc st"
  by (simp add: word_le_nat_alt) (simp add: MAPBUF_VALID_MASK_def)

lemma usagecount_less_5_iff [simp]: "MAPBUF_GET_USAGECOUNT st < 5 \<longleftrightarrow> us st < 5"
  by (simp add: word_less_nat_alt)

lemma rc_less [simp]: "rc st < 512" by (simp add: rc_def)

lemma us_less [simp]: "us st < 32" by (simp add: us_def)

lemma state_word_split: "unat st = fl st * 16384 + us st * 512 + rc st"
proof -
  have "unat st div 512 div 32 = fl st" by (simp add: fl_def flip: div_mult2_eq)
  then have "unat st div 512 = fl st * 32 + us st"
    using div_mult_mod_eq [of "unat st div 512" 32] by (simp add: us_def)
  then show ?thesis using div_mult_mod_eq [of "unat st" 512] by (simp add: rc_def)
qed

lemma state_word_fields:
  assumes "unat st = f * 16384 + u * 512 + r" and "r < 512" and "u < 32"
  shows "rc st = r" "us st = u" "fl st = f"
proof -
  have e: "unat st = r + 512 * (u + 32 * f)" using assms(1) by simp
  then have d: "unat st div 512 = u + 32 * f"
    using assms(2) by (metis div_less div_mult_self2 add.right_neutral add.commute zero_neq_numeral)
  show "rc st = r" using e assms(2) by (metis mod_less mod_mult_self2 rc_def)
  show "us st = u" using d assms(3) by (simp add: us_def)
  have "fl st = unat st div 512 div 32" by (simp add: fl_def flip: div_mult2_eq)
  then show "fl st = f" using d assms(3) by simp
qed

lemma state_word_eqI: "rc a = rc b \<Longrightarrow> us a = us b \<Longrightarrow> fl a = fl b \<Longrightarrow> a = b"
  by (simp add: u32_eq_iff_unat state_word_split)

lemma fl_less: "fl st < 262144"
  using unat_u32_bound [of st] by (simp add: fl_def less_mult_imp_div_less)

lemma state_plus_one:
  assumes "rc st < 511"
  shows "rc (st + 1) = Suc (rc st)" "us (st + 1) = us st" "fl (st + 1) = fl st"
proof -
  have "unat st + 1 < 4294967296"
    using assms us_less [of st] fl_less [of st] unfolding state_word_split [of st] by linarith
  then have u: "unat (st + 1) = fl st * 16384 + us st * 512 + Suc (rc st)"
    by (simp add: unat_word_ariths state_word_split [of st])
  show "rc (st + 1) = Suc (rc st)" "us (st + 1) = us st" "fl (st + 1) = fl st"
    using state_word_fields [OF u] assms by simp_all
qed

lemma state_minus_one:
  assumes "0 < rc st"
  shows "rc (st - 1) = rc st - 1" "us (st - 1) = us st" "fl (st - 1) = fl st"
proof -
  have "st \<noteq> 0" using assms by (auto simp: rc_def)
  then have u: "unat (st - 1) = fl st * 16384 + us st * 512 + (rc st - 1)"
    using assms by (simp add: unat_minus_one state_word_split [of st])
  show "rc (st - 1) = rc st - 1" "us (st - 1) = us st" "fl (st - 1) = fl st"
    using state_word_fields [OF u] rc_less [of st] by (simp_all del: rc_less)
qed

lemma state_use_up:
  assumes "us st < 31"
  shows "rc (st + MAPBUF_USAGECOUNT_ONE) = rc st" "us (st + MAPBUF_USAGECOUNT_ONE) = Suc (us st)"
    "fl (st + MAPBUF_USAGECOUNT_ONE) = fl st"
proof -
  have "unat st + 512 < 4294967296"
    using assms rc_less [of st] fl_less [of st] unfolding state_word_split [of st] by linarith
  then have u: "unat (st + MAPBUF_USAGECOUNT_ONE) = fl st * 16384 + Suc (us st) * 512 + rc st"
    by (simp add: MAPBUF_USAGECOUNT_ONE_def unat_word_ariths state_word_split [of st])
  show "rc (st + MAPBUF_USAGECOUNT_ONE) = rc st" "us (st + MAPBUF_USAGECOUNT_ONE) = Suc (us st)"
    "fl (st + MAPBUF_USAGECOUNT_ONE) = fl st"
    using state_word_fields [OF u] assms by simp_all
qed

lemma state_use_down:
  assumes "0 < us st"
  shows "rc (st - MAPBUF_USAGECOUNT_ONE) = rc st" "us (st - MAPBUF_USAGECOUNT_ONE) = us st - 1"
    "fl (st - MAPBUF_USAGECOUNT_ONE) = fl st"
proof -
  have "512 \<le> unat st" using assms unfolding state_word_split [of st] by linarith
  then have "unat (st - MAPBUF_USAGECOUNT_ONE) = unat st - 512"
    by (subst unat_sub) (simp_all add: MAPBUF_USAGECOUNT_ONE_def word_le_nat_alt)
  then have u: "unat (st - MAPBUF_USAGECOUNT_ONE) = fl st * 16384 + (us st - 1) * 512 + rc st"
    using assms by (simp add: state_word_split [of st] diff_mult_distrib)
  show "rc (st - MAPBUF_USAGECOUNT_ONE) = rc st" "us (st - MAPBUF_USAGECOUNT_ONE) = us st - 1"
    "fl (st - MAPBUF_USAGECOUNT_ONE) = fl st"
    using state_word_fields [OF u] us_less [of st] by (simp_all del: us_less)
qed

lemma low_bits_cong:
  assumes "take_bit 14 a = take_bit 14 b"
  shows "rc a = rc b" "us a = us b"
proof -
  have "unat (take_bit 14 a) = unat (take_bit 14 b)" using assms by simp
  then have "unat a mod 16384 = unat b mod 16384" by (simp add: take_bit_eq_mod unat_mod)
  moreover have "x mod 512 = x mod 16384 mod 512" "x div 512 mod 32 = x mod 16384 div 512" for x :: nat
    by (simp_all add: mod_mod_cancel mod_mult2_eq [of x 512 32, simplified])
  ultimately show "rc a = rc b" "us a = us b" unfolding rc_def us_def by metis+
qed

subsection \<open>The lookup table\<close>

definition MapCacheLookup ::
  "RelFileLocator \<Rightarrow> ForkNumber \<Rightarrow> BlockNumber \<Rightarrow> ('x map_buf_scheme, nat option) um" where
  "MapCacheLookup rnode f map_blkno = getU (\<lambda>s. MapCacheHash s (rnode, f, map_blkno))"

definition MapCacheInsert ::
  "RelFileLocator \<Rightarrow> ForkNumber \<Rightarrow> BlockNumber \<Rightarrow> nat \<Rightarrow> ('x map_buf_scheme, nat option) um" where
  "MapCacheInsert rnode f map_blkno slot_id =
     bindU (getU (\<lambda>s. MapCacheHash s (rnode, f, map_blkno))) (\<lambda>found.
       case found of
         Some existing_slot_id \<Rightarrow> returnU (Some existing_slot_id)
       | None \<Rightarrow>
           bindU (modifyU (\<lambda>s. s\<lparr>MapCacheHash := (MapCacheHash s)((rnode, f, map_blkno) \<mapsto> slot_id)\<rparr>)) (\<lambda>_.
           returnU None))"

definition MapCacheDelete ::
  "RelFileLocator \<Rightarrow> ForkNumber \<Rightarrow> BlockNumber \<Rightarrow> nat \<Rightarrow> ('x map_buf_scheme, unit) um" where
  "MapCacheDelete rnode f map_blkno slot_id =
     bindU (getU (\<lambda>s. MapCacheHash s (rnode, f, map_blkno))) (\<lambda>found.
       whenU (found = Some slot_id)
         (modifyU (\<lambda>s. s\<lparr>MapCacheHash := (MapCacheHash s)((rnode, f, map_blkno) := None)\<rparr>)))"

subsection \<open>Wake-up slots of the background processes\<close>

definition MapAllocPressurePeek :: "('x map_buf_scheme, u32) um" where
  "MapAllocPressurePeek = getU num_allocs"

definition MapStrategyNotifyWriter :: "nat option \<Rightarrow> ('x map_buf_scheme, unit) um" where
  "MapStrategyNotifyWriter procno = modifyU (\<lambda>s. s\<lparr>mapwriter_procno := procno\<rparr>)"

definition MapWakeWriter :: "('x map_buf_scheme, unit) um" where
  "MapWakeWriter =
     bindU (getU mapwriter_procno) (\<lambda>p.
       case p of
         None \<Rightarrow> returnU ()
       | Some procno \<Rightarrow>
           modifyU (\<lambda>s. s\<lparr>mapwriter_procno := None, procLatches := procLatches s @ [procno]\<rparr>))"

definition MapStrategyNotifyCompactor :: "nat option \<Rightarrow> ('x map_buf_scheme, unit) um" where
  "MapStrategyNotifyCompactor procno = modifyU (\<lambda>s. s\<lparr>mapcompactor_procno := procno\<rparr>)"

definition MapWakeCompactor :: "('x map_buf_scheme, unit) um" where
  "MapWakeCompactor =
     bindU (getU mapcompactor_procno) (\<lambda>p.
       case p of
         None \<Rightarrow> returnU ()
       | Some procno \<Rightarrow>
           modifyU (\<lambda>s. s\<lparr>mapcompactor_procno := None, procLatches := procLatches s @ [procno]\<rparr>))"

subsection \<open>The clock sweep\<close>

text \<open>One advance of the hand: the slot to examine and the state afterwards. The
  compare-and-swap that folds the hand back succeeds at once, since no other backend moves the hand
  in between.\<close>

definition ClockSweepTick :: "'x map_buf_scheme \<Rightarrow> nat \<times> 'x map_buf_scheme" where
  "ClockSweepTick s =
     (let n = word_of_nat (num_slots s) :: u32;
          victim = next_victim_buffer s;
          s1 = s\<lparr>next_victim_buffer := victim + 1\<rparr>
      in if victim < n then (unat victim, s1)
         else
           let v = victim mod n
           in if v = 0
              then (0, s1\<lparr>next_victim_buffer := (victim + 1) mod n, complete_passes := complete_passes s + 1\<rparr>)
              else (unat v, s1))"

definition slot_free :: "MapBufferDesc \<Rightarrow> bool" where
  "slot_free b \<longleftrightarrow> MAPBUF_GET_REFCOUNT (buf_state b) = 0 \<and> pending_count b = 0"

definition count_alloc :: "'x map_buf_scheme \<Rightarrow> 'x map_buf_scheme" where
  "count_alloc s = s\<lparr>num_allocs := num_allocs s + 1\<rparr>"

text \<open>The free-list loop: \<^const>\<open>None\<close> when the list is exhausted. A head outside the table would be
  an access out of bounds; it is kept apart as a panic.\<close>

definition listed_slots :: "'x map_buf_scheme \<Rightarrow> nat" where
  "listed_slots s = length (filter (\<lambda>b. freeNext b \<noteq> FREENEXT_NOT_IN_LIST) (MapBuffers s)) +
     (if first_free_buffer s = FREENEXT_NOT_IN_LIST then 0 else 1)"

definition pop_free :: "nat \<Rightarrow> 'x map_buf_scheme \<Rightarrow> 'x map_buf_scheme" where
  "pop_free i s = (upd_buf i (\<lambda>b. b\<lparr>freeNext := FREENEXT_NOT_IN_LIST\<rparr>) s)
     \<lparr>first_free_buffer := freeNext (MapBuffers s ! i)\<rparr>"

lemma listed_slots_pop:
  assumes "first_free_buffer s = FREENEXT_SLOT i" and "i < num_slots s"
  shows "listed_slots (pop_free i s) < listed_slots s"
proof (cases "freeNext (MapBuffers s ! i) = FREENEXT_NOT_IN_LIST")
  case True
  then have "(MapBuffers s)[i := (MapBuffers s ! i)\<lparr>freeNext := FREENEXT_NOT_IN_LIST\<rparr>] = MapBuffers s"
    using assms(2) by (metis (no_types, lifting) MapBufferDesc.surjective
        MapBufferDesc.update_convs(8) list_update_id)
  then show ?thesis using assms True by (simp add: listed_slots_def pop_free_def upd_buf_def)
next
  case False
  have split: "MapBuffers s = take i (MapBuffers s) @ MapBuffers s ! i # drop (Suc i) (MapBuffers s)"
    using assms(2) by (simp add: id_take_nth_drop)
  have upd: "(MapBuffers s)[i := b] = take i (MapBuffers s) @ b # drop (Suc i) (MapBuffers s)" for b
    using assms(2) by (simp add: upd_conv_take_nth_drop)
  show ?thesis
    using assms False arg_cong [OF split, of "\<lambda>bs. length (filter (\<lambda>b. freeNext b \<noteq> FREENEXT_NOT_IN_LIST) bs)"]
    by (simp add: listed_slots_def pop_free_def upd_buf_def upd)
qed

function MapClockFreeList :: "'x map_buf_scheme \<Rightarrow> (um_error + nat option) \<times> 'x map_buf_scheme" where
  "MapClockFreeList s =
     (case first_free_buffer s of
        FREENEXT_SLOT i \<Rightarrow>
          if i < num_slots s
          then let b = MapBuffers s ! i; s1 = pop_free i s
               in if MAPBUF_GET_REFCOUNT (buf_state b) = 0 \<and> MAPBUF_GET_USAGECOUNT (buf_state b) = 0 \<and>
                     pending_count b = 0
                  then (Inr (Some i), count_alloc s1)
                  else MapClockFreeList s1
          else (Inl (PANIC, E_INTERNAL), s)
      | _ \<Rightarrow> (Inr None, s))"
  by pat_completeness auto
termination
  by (relation "measure listed_slots") (auto simp: listed_slots_pop)

declare MapClockFreeList.simps [simp del]


text \<open>The sweep. Each turn either ends, or takes one from a usage count and restarts the counter, or
  takes one from the counter; \<open>sweep_measure\<close> adds the two up. An empty table would be a division by
  zero in the tick; it is kept apart as a panic.\<close>

definition usage_of :: "MapBufferDesc \<Rightarrow> nat" where
  "usage_of b = unat (MAPBUF_GET_USAGECOUNT (buf_state b))"

definition sweep_measure :: "nat \<Rightarrow> 'x map_buf_scheme \<Rightarrow> nat" where
  "sweep_measure trycounter s = sum_list (map usage_of (MapBuffers s)) * num_slots s + trycounter"

definition use_down :: "nat \<Rightarrow> 'x map_buf_scheme \<Rightarrow> 'x map_buf_scheme" where
  "use_down i = upd_buf i (\<lambda>b. b\<lparr>buf_state := buf_state b - MAPBUF_USAGECOUNT_ONE\<rparr>)"

lemma ClockSweepTick_frame [simp]:
  "MapBuffers (snd (ClockSweepTick s)) = MapBuffers s"
  "MapCacheHash (snd (ClockSweepTick s)) = MapCacheHash s"
  "MapPageData (snd (ClockSweepTick s)) = MapPageData s"
  "MyBackend (snd (ClockSweepTick s)) = MyBackend s"
  "first_free_buffer (snd (ClockSweepTick s)) = first_free_buffer s"
  "num_allocs (snd (ClockSweepTick s)) = num_allocs s"
  by (simp_all add: ClockSweepTick_def Let_def)

lemma sum_usage_use_down:
  assumes "i < num_slots s" and "MAPBUF_GET_USAGECOUNT (buf_state (MapBuffers s ! i)) \<noteq> 0"
  shows "Suc (sum_list (map usage_of (MapBuffers (use_down i s)))) = sum_list (map usage_of (MapBuffers s))"
proof -
  let ?b = "MapBuffers s ! i"
  have nz: "0 < usage_of ?b" using assms(2) by (simp add: usage_of_def)
  have le: "usage_of ?b \<le> sum_list (map usage_of (MapBuffers s))"
    using assms(1) by (simp add: member_le_sum_list)
  have dec: "usage_of (?b\<lparr>buf_state := buf_state ?b - MAPBUF_USAGECOUNT_ONE\<rparr>) = usage_of ?b - 1"
    using assms(2) by (simp add: usage_of_def state_use_down)
  show ?thesis
    using assms(1) nz le by (simp add: use_down_def upd_buf_def map_update sum_list_update dec)
qed

lemma ClockSweepTick_bound:
  assumes "0 < num_slots s" and "num_slots s < 2 ^ 32"
  shows "fst (ClockSweepTick s) < num_slots s"
proof -
  let ?n = "word_of_nat (num_slots s) :: u32"
  have n: "unat ?n = num_slots s" using assms(2) by (simp add: unat_of_nat)
  then have "unat (next_victim_buffer s mod ?n) < num_slots s"
    using assms(1) by (simp add: unat_mod)
  then show ?thesis
    using n assms(1) by (simp add: ClockSweepTick_def Let_def word_less_nat_alt)
qed

function MapClockSweep :: "nat \<Rightarrow> 'x map_buf_scheme \<Rightarrow> (um_error + nat) \<times> 'x map_buf_scheme" where
  "MapClockSweep trycounter s =
     (if num_slots s = 0 \<or> num_slots s \<ge> 2 ^ 32 then (Inl (PANIC, E_INTERNAL), s)
      else
        let victim_slot = fst (ClockSweepTick s);
            s1 = snd (ClockSweepTick s);
            b = MapBuffers s ! victim_slot
        in if slot_free b
           then if MAPBUF_GET_USAGECOUNT (buf_state b) \<noteq> 0
                then MapClockSweep (num_slots s) (use_down victim_slot s1)
                else (Inr victim_slot, count_alloc s1)
           else if trycounter \<le> 1 then (Inl (ERROR, E_INTERNAL), s1)
           else MapClockSweep (trycounter - 1) s1)"
  by pat_completeness auto
termination
proof (relation "measure (\<lambda>(k, s). (if k = 0 then 1 else 0) + sweep_measure k s)", goal_cases)
  case 1
  show ?case by simp
next
  case (2 k s v s1 b)
  have v: "v < num_slots s1" using 2 ClockSweepTick_bound [of s] by simp
  have "Suc (sum_list (map usage_of (MapBuffers (use_down v s1)))) = sum_list (map usage_of (MapBuffers s1))"
    by (rule sum_usage_use_down [OF v]) (use 2 in simp)
  then have "sum_list (map usage_of (MapBuffers s)) * num_slots s =
      sum_list (map usage_of (MapBuffers (use_down v s1))) * num_slots s + num_slots s"
    using 2 by (metis ClockSweepTick_frame(1) add.commute mult_Suc)
  moreover have "num_slots (use_down v s1) = num_slots s"
    using 2 by (simp add: use_down_def upd_buf_def)
  ultimately show ?case using 2 by (simp add: sweep_measure_def)
next
  case (3 k s v s1 b)
  then show ?case by (simp add: sweep_measure_def)
qed

declare MapClockSweep.simps [simp del]


definition MapClockGetBuffer :: "('x map_buf_scheme, nat) um" where
  "MapClockGetBuffer =
     bindU MapWakeWriter (\<lambda>_.
     bindU MapClockFreeList (\<lambda>r.
       case r of
         Some slot_id \<Rightarrow> returnU slot_id
       | None \<Rightarrow> bindU (getU (\<lambda>s. num_slots s)) (\<lambda>n. MapClockSweep n)))"

definition MapClockFreeBuffer :: "nat \<Rightarrow> ('x map_buf_scheme, unit) um" where
  "MapClockFreeBuffer slot_id =
     bindU (getB slot_id) (\<lambda>b.
       whenU (freeNext b = FREENEXT_NOT_IN_LIST)
         (modifyU (\<lambda>s. (upd_buf slot_id (\<lambda>b. b\<lparr>freeNext := first_free_buffer s\<rparr>) s)
                       \<lparr>first_free_buffer := FREENEXT_SLOT slot_id\<rparr>)))"

text \<open>The out-parameters are returned; the flags say which of them the caller passed.\<close>

definition MapSyncStart :: "bool \<Rightarrow> bool \<Rightarrow> ('x map_buf_scheme, nat \<times> u32 option \<times> u32 option) um" where
  "MapSyncStart want_passes want_allocs =
     bindU (getU id) (\<lambda>s.
       let n = word_of_nat (num_slots s) :: u32; next_victim = next_victim_buffer s in
       bindU (whenU want_allocs (modifyU (\<lambda>t. t\<lparr>num_allocs := 0\<rparr>))) (\<lambda>_.
       returnU (unat (next_victim mod n),
                if want_passes then Some (complete_passes s + next_victim div n) else None,
                if want_allocs then Some (num_allocs s) else None)))"

subsection \<open>Invalidation\<close>

definition zero_rlocator :: RelFileLocator where
  "zero_rlocator = \<lparr>spcOid = 0, dbOid = 0, relNumber = 0\<rparr>"

definition MAP_PENDING_BITS_PER_WORD :: nat where "MAP_PENDING_BITS_PER_WORD = 64"

definition MAP_PENDING_BITMAP_WORDS :: nat where
  "MAP_PENDING_BITMAP_WORDS =
     (unat MAP_ENTRIES_PER_PAGE + MAP_PENDING_BITS_PER_WORD - 1) div MAP_PENDING_BITS_PER_WORD"

definition clear_buf :: "MapBufferDesc \<Rightarrow> MapBufferDesc" where
  "clear_buf b = b\<lparr>pending_bits := replicate MAP_PENDING_BITMAP_WORDS 0, page_number := None,
     buf_forknum := InvalidForkNumber, buf_rnode := zero_rlocator, buf_page_lsn := 0\<rparr>"

definition MapInvalidateBuffer ::
  "nat \<Rightarrow> RelFileLocator \<Rightarrow> ForkNumber \<Rightarrow> BlockNumber \<Rightarrow> ('x map_buf_scheme, unit) um" where
  "MapInvalidateBuffer slot_id expected_rnode expected_forknum expected_map_blkno =
     bindU (getB slot_id) (\<lambda>b.
       if \<not> buf_has_tag b expected_rnode expected_forknum expected_map_blkno then returnU ()
       else if MAPBUF_GET_REFCOUNT (buf_state b) \<noteq> 0
       then bindU (getU (\<lambda>s. private_pins s slot_id)) (\<lambda>n.
              if n > 0 then throwU (ERROR, E_INTERNAL) else throwU (ERROR, E_WAIT))
       else if pending_count b \<noteq> 0 then throwU (ERROR, E_WAIT)
       else
         bindU (modifyU (upd_buf slot_id clear_buf)) (\<lambda>_.
         bindU (modifyU (upd_buf slot_id (\<lambda>b. b\<lparr>buf_state := 0\<rparr>))) (\<lambda>_.
         MapClockFreeBuffer slot_id)))"

subsection \<open>Shared-memory and backend initialisation\<close>

definition MapRefreshBufferSlots :: "nat \<Rightarrow> nat" where
  "MapRefreshBufferSlots NBuffers =
     (let computed_slots = drop_bit 7 NBuffers in if computed_slots < 4096 then 4096 else computed_slots)"

definition init_buf :: "nat \<Rightarrow> nat \<Rightarrow> MapBufferDesc" where
  "init_buf map_buffers i =
     \<lparr>buf_rnode = zero_rlocator, buf_forknum = InvalidForkNumber, page_number = None,
      buf_page_lsn = 0, buf_state = 0, pending_count = 0,
      pending_bits = replicate MAP_PENDING_BITMAP_WORDS 0,
      freeNext = (if i = map_buffers - 1 then FREENEXT_END else FREENEXT_SLOT (i + 1))\<rparr>"

definition MapShmemInit :: "nat \<Rightarrow> nat \<Rightarrow> ('x map_buf_scheme, unit) um" where
  "MapShmemInit map_buffers map_superblocks =
     bindU (modifyU (\<lambda>s. s\<lparr>
     MapBuffers := map (init_buf map_buffers) [0..<map_buffers],
     MapPageData := replicate map_buffers zero_block,
     MapCacheHash := Map.empty,
     first_free_buffer := FREENEXT_SLOT 0, mapwriter_procno := None, mapcompactor_procno := None,
     next_victim_buffer := 0, num_allocs := 0, map_compactor_relocations := 0,
     map_reclaim_enqueued := 0, map_reclaim_processed := 0, map_reclaim_failed := 0,
     complete_passes := 0\<rparr>)) (\<lambda>_.
     MapSuperTableShmemInit map_superblocks)"

definition preload_none :: MapTruncatePreloadState where
  "preload_none = \<lparr>preload_active = False, preload_rnode = zero_rlocator,
     preload_forknum = InvalidForkNumber, preload_slots = []\<rparr>"

definition MapBackendInit :: map_backend where
  "MapBackendInit = \<lparr>MapPrivateRefCount = (\<lambda>_. 0), InProgressMapBuf = None,
     MapInflightLocalEntries = [], MapTruncatePreload = (\<lambda>_. preload_none)\<rparr>"

definition MapStatsAddCompactorRelocations :: "u64 \<Rightarrow> ('x map_buf_scheme, unit) um" where
  "MapStatsAddCompactorRelocations count =
     whenU (count \<noteq> 0) (modifyU (\<lambda>s. s\<lparr>map_compactor_relocations := map_compactor_relocations s + count\<rparr>))"

definition MapStatsAddReclaimEnqueued :: "u64 \<Rightarrow> ('x map_buf_scheme, unit) um" where
  "MapStatsAddReclaimEnqueued count =
     whenU (count \<noteq> 0) (modifyU (\<lambda>s. s\<lparr>map_reclaim_enqueued := map_reclaim_enqueued s + count\<rparr>))"

definition MapStatsAddReclaimProcessed :: "u64 \<Rightarrow> ('x map_buf_scheme, unit) um" where
  "MapStatsAddReclaimProcessed count =
     whenU (count \<noteq> 0) (modifyU (\<lambda>s. s\<lparr>map_reclaim_processed := map_reclaim_processed s + count\<rparr>))"

definition MapStatsAddReclaimFailed :: "u64 \<Rightarrow> ('x map_buf_scheme, unit) um" where
  "MapStatsAddReclaimFailed count =
     whenU (count \<noteq> 0) (modifyU (\<lambda>s. s\<lparr>map_reclaim_failed := map_reclaim_failed s + count\<rparr>))"

definition MapStatsGetCompactorRelocations :: "('x map_buf_scheme, u64) um" where
  "MapStatsGetCompactorRelocations = getU map_compactor_relocations"

definition MapStatsGetReclaimEnqueued :: "('x map_buf_scheme, u64) um" where
  "MapStatsGetReclaimEnqueued = getU map_reclaim_enqueued"

definition MapStatsGetReclaimProcessed :: "('x map_buf_scheme, u64) um" where
  "MapStatsGetReclaimProcessed = getU map_reclaim_processed"

definition MapStatsGetReclaimFailed :: "('x map_buf_scheme, u64) um" where
  "MapStatsGetReclaimFailed = getU map_reclaim_failed"


section \<open>What the clock sweep finds\<close>

subsection \<open>What the sweep leaves alone\<close>

definition buf_like :: "MapBufferDesc \<Rightarrow> MapBufferDesc \<Rightarrow> bool" where
  "buf_like b b' \<longleftrightarrow>
     buf_rnode b' = buf_rnode b \<and> buf_forknum b' = buf_forknum b \<and> page_number b' = page_number b \<and>
     buf_page_lsn b' = buf_page_lsn b \<and> pending_count b' = pending_count b \<and>
     pending_bits b' = pending_bits b \<and>
     rc (buf_state b') = rc (buf_state b) \<and> fl (buf_state b') = fl (buf_state b) \<and>
     us (buf_state b') \<le> us (buf_state b)"

definition clock_frame :: "'x map_buf_scheme \<Rightarrow> 'x map_buf_scheme \<Rightarrow> bool" where
  "clock_frame s t \<longleftrightarrow>
     map_sb.truncate t = map_sb.truncate s \<and> list_all2 buf_like (MapBuffers s) (MapBuffers t) \<and>
     MapPageData t = MapPageData s \<and> MapCacheHash t = MapCacheHash s \<and> MyBackend t = MyBackend s"

lemma buf_like_refl [simp]: "buf_like b b"
  by (simp add: buf_like_def)

lemma buf_like_trans: "buf_like a b \<Longrightarrow> buf_like b c \<Longrightarrow> buf_like a c"
  by (auto simp: buf_like_def)

lemma buf_like_slot_free: "buf_like b b' \<Longrightarrow> slot_free b' = slot_free b"
  by (simp add: buf_like_def slot_free_def)

lemma clock_frame_refl [simp]: "clock_frame s s"
  by (simp add: clock_frame_def list_all2_refl)

lemma clock_frame_trans: "clock_frame s t \<Longrightarrow> clock_frame t u \<Longrightarrow> clock_frame s u"
  unfolding clock_frame_def by (auto intro: list_all2_trans [OF buf_like_trans])

lemma clock_frame_length: "clock_frame s t \<Longrightarrow> num_slots t = num_slots s"
  by (auto simp: clock_frame_def dest: list_all2_lengthD)

lemma clock_frame_nth: "clock_frame s t \<Longrightarrow> i < num_slots s \<Longrightarrow> buf_like (MapBuffers s ! i) (MapBuffers t ! i)"
  by (auto simp: clock_frame_def dest: list_all2_nthD)

lemma clock_frame_slot_free:
  "clock_frame s t \<Longrightarrow> i < num_slots s \<Longrightarrow> slot_free (MapBuffers t ! i) = slot_free (MapBuffers s ! i)"
  by (rule buf_like_slot_free [OF clock_frame_nth])

lemma ex_slot_free: "(\<exists>b\<in>set (MapBuffers s). slot_free b) \<longleftrightarrow> (\<exists>i<num_slots s. slot_free (MapBuffers s ! i))"
  by (metis in_set_conv_nth)

lemma clock_frame_ex_free:
  "clock_frame s t \<Longrightarrow> (\<exists>b\<in>set (MapBuffers t). slot_free b) = (\<exists>b\<in>set (MapBuffers s). slot_free b)"
  unfolding ex_slot_free using clock_frame_length clock_frame_slot_free by metis

lemma list_all2_upd_same:
  assumes "\<And>x. R x x" and "i < length xs \<Longrightarrow> R (xs ! i) y"
  shows "list_all2 R xs (xs[i := y])"
proof (rule list_all2_all_nthI)
  fix j assume "j < length xs"
  then show "R (xs ! j) (xs[i := y] ! j)" using assms by (cases "j = i") simp_all
qed simp

lemma clock_frame_upd_buf:
  "buf_like (MapBuffers s ! i) (g (MapBuffers s ! i)) \<Longrightarrow> clock_frame s (upd_buf i g s)"
  by (simp add: clock_frame_def upd_buf_def map_sb.truncate_def list_all2_upd_same)

lemma clock_frame_control [simp]:
  "clock_frame s (t\<lparr>first_free_buffer := h\<rparr>) = clock_frame s t"
  "clock_frame s (t\<lparr>next_victim_buffer := v\<rparr>) = clock_frame s t"
  "clock_frame s (t\<lparr>complete_passes := p\<rparr>) = clock_frame s t"
  "clock_frame s (t\<lparr>mapwriter_procno := w, procLatches := l\<rparr>) = clock_frame s t"
  "clock_frame s (count_alloc t) = clock_frame s t"
  by (simp_all add: clock_frame_def map_sb.truncate_def count_alloc_def)

lemma clock_frame_pop [simp]: "clock_frame s (pop_free i s)"
  unfolding pop_free_def by (simp add: clock_frame_upd_buf buf_like_def)

lemma clock_frame_tick [simp]: "clock_frame s (snd (ClockSweepTick s))"
  by (simp add: ClockSweepTick_def Let_def)

lemma clock_frame_use_down:
  "0 < us (buf_state (MapBuffers s ! i)) \<Longrightarrow> clock_frame s (use_down i s)"
  unfolding use_down_def by (rule clock_frame_upd_buf) (simp add: buf_like_def state_use_down)

subsection \<open>The hand and the free list\<close>

definition clock_ok :: "'x map_buf_scheme \<Rightarrow> bool" where
  "clock_ok s \<longleftrightarrow>
     0 < num_slots s \<and> num_slots s < 2 ^ 31 \<and> unat (next_victim_buffer s) \<le> num_slots s \<and>
     (\<forall>i. first_free_buffer s = FREENEXT_SLOT i \<longrightarrow> i < num_slots s) \<and>
     (\<forall>j<num_slots s. \<forall>i. freeNext (MapBuffers s ! j) = FREENEXT_SLOT i \<longrightarrow> i < num_slots s)"

lemma ClockSweepTick_cyclic:
  assumes "clock_ok s"
  shows "fst (ClockSweepTick s) = unat (next_victim_buffer s) mod num_slots s"
    and "unat (next_victim_buffer (snd (ClockSweepTick s))) mod num_slots s =
           Suc (unat (next_victim_buffer s)) mod num_slots s"
    and "clock_ok (snd (ClockSweepTick s))"
proof -
  let ?n = "num_slots s" and ?h = "next_victim_buffer s"
  have n: "unat (word_of_nat ?n :: u32) = ?n"
    using assms by (simp add: clock_ok_def unat_of_nat)
  have h1: "unat (?h + 1) = Suc (unat ?h)"
    using assms by (simp add: clock_ok_def unat_word_ariths)
  show "fst (ClockSweepTick s) = unat ?h mod ?n"
    using assms n by (auto simp: ClockSweepTick_def Let_def word_less_nat_alt unat_mod u32_eq_iff_unat clock_ok_def)
  show "unat (next_victim_buffer (snd (ClockSweepTick s))) mod ?n = Suc (unat ?h) mod ?n"
    using n h1 by (simp add: ClockSweepTick_def Let_def word_less_nat_alt unat_mod)
  have "\<not> ?h < word_of_nat ?n \<Longrightarrow> unat ?h = ?n"
    using assms n by (simp add: clock_ok_def word_less_nat_alt)
  then show "clock_ok (snd (ClockSweepTick s))"
    using assms n h1 by (auto simp: ClockSweepTick_def Let_def clock_ok_def word_less_nat_alt
        unat_mod u32_eq_iff_unat less_imp_le dest: le_neq_implies_less)
qed


lemma count_alloc_simps [simp]:
  "MapBuffers (count_alloc s) = MapBuffers s" "num_allocs (count_alloc s) = num_allocs s + 1"
  by (simp_all add: count_alloc_def)

lemma clock_ok_count_alloc [simp]: "clock_ok (count_alloc s) = clock_ok s"
  by (simp add: clock_ok_def count_alloc_def)

lemma clock_ok_upd_buf:
  "clock_ok s \<Longrightarrow> freeNext (g (MapBuffers s ! i)) = freeNext (MapBuffers s ! i) \<Longrightarrow> clock_ok (upd_buf i g s)"
  unfolding clock_ok_def by (auto simp: nth_upd_buf)

lemma clock_ok_use_down [simp]: "clock_ok s \<Longrightarrow> clock_ok (use_down i s)"
  unfolding use_down_def by (rule clock_ok_upd_buf) simp_all

lemma clock_ok_pop: "clock_ok s \<Longrightarrow> i < num_slots s \<Longrightarrow> clock_ok (pop_free i s)"
  unfolding clock_ok_def by (auto simp: pop_free_def nth_upd_buf split: if_splits)

lemma MapClockSweep_none:
  assumes "clock_ok s" and "\<not> (\<exists>b\<in>set (MapBuffers s). slot_free b)"
  shows "\<exists>t. MapClockSweep k s = (Inl (ERROR, E_INTERNAL), t) \<and> clock_frame s t \<and> clock_ok t"
  using assms
proof (induction k s rule: MapClockSweep.induct)
  case (1 k s)
  let ?v = "fst (ClockSweepTick s)" and ?s1 = "snd (ClockSweepTick s)"
  have n: "0 < num_slots s" "num_slots s < 2 ^ 32" using "1.prems"(1) by (auto simp: clock_ok_def)
  have v: "\<not> slot_free (MapBuffers s ! ?v)"
    using "1.prems"(2) ClockSweepTick_bound [OF n] by simp
  show ?case
  proof (cases "k \<le> 1")
    case True
    then show ?thesis
      using v n ClockSweepTick_cyclic(3) [OF "1.prems"(1)]
      by (subst MapClockSweep.simps) (simp add: Let_def)
  next
    case False
    then obtain t where "MapClockSweep (k - 1) ?s1 = (Inl (ERROR, E_INTERNAL), t)"
        "clock_frame ?s1 t" "clock_ok t"
      using "1.IH"(2) [OF _ refl refl refl v False] n "1.prems" ClockSweepTick_cyclic(3) [OF "1.prems"(1)]
      by auto
    then show ?thesis
      using v n False by (subst MapClockSweep.simps)
        (auto simp: Let_def intro: clock_frame_trans [OF clock_frame_tick])
  qed
qed

lemma MapClockSweep_found:
  assumes "clock_ok s" and "slot_free (MapBuffers s ! ((unat (next_victim_buffer s) + d) mod num_slots s))"
    and "d < k"
  shows "\<exists>v t. MapClockSweep k s = (Inr v, t) \<and> v < num_slots s \<and> slot_free (MapBuffers t ! v) \<and>
     us (buf_state (MapBuffers t ! v)) = 0 \<and> num_allocs t = num_allocs s + 1 \<and> clock_frame s t \<and> clock_ok t"
  using assms
proof (induction k s arbitrary: d rule: MapClockSweep.induct)
  case (1 k s)
  let ?v = "fst (ClockSweepTick s)" and ?s1 = "snd (ClockSweepTick s)"
  let ?h = "unat (next_victim_buffer s)" and ?n = "num_slots s"
  have n: "0 < ?n" "?n < 2 ^ 32" using "1.prems"(1) by (auto simp: clock_ok_def)
  note tick = ClockSweepTick_cyclic [OF "1.prems"(1)]
  have v: "?v < ?n" by (rule ClockSweepTick_bound [OF n])
  have walk: "(unat (next_victim_buffer ?s1) + j) mod ?n = (Suc ?h + j) mod ?n" for j
    using tick(2) by (metis mod_add_left_eq)
  consider (take) "slot_free (MapBuffers s ! ?v)" "us (buf_state (MapBuffers s ! ?v)) = 0"
    | (use_it) "slot_free (MapBuffers s ! ?v)" "us (buf_state (MapBuffers s ! ?v)) \<noteq> 0"
    | (skip) "\<not> slot_free (MapBuffers s ! ?v)" by blast
  then show ?case
  proof cases
    case take
    then show ?thesis using n v tick(3)
      by (subst MapClockSweep.simps) (simp add: Let_def)
  next
    case use_it
    let ?s2 = "use_down ?v ?s1"
    have fr: "clock_frame s ?s2"
      using use_it by (auto intro!: clock_frame_trans [OF clock_frame_tick] clock_frame_use_down)
    have "Suc ?h + (?n - 1) = ?h + ?n" using n by simp
    then have home: "(Suc ?h + (?n - 1)) mod ?n = ?v" by (simp only: tick(1) mod_add_self2)
    have hand: "next_victim_buffer ?s2 = next_victim_buffer ?s1" "num_allocs ?s2 = num_allocs s"
      by (simp_all add: use_down_def upd_buf_def)
    have "\<exists>v t. MapClockSweep ?n ?s2 = (Inr v, t) \<and> v < num_slots ?s2 \<and> slot_free (MapBuffers t ! v) \<and>
       us (buf_state (MapBuffers t ! v)) = 0 \<and> num_allocs t = num_allocs ?s2 + 1 \<and> clock_frame ?s2 t \<and> clock_ok t"
      using use_it n v tick(3) clock_frame_slot_free [OF fr v] walk [of "?n - 1"] home
      by (intro "1.IH"(1) [OF _ refl refl refl, of "?n - 1"]) (simp_all add: hand clock_frame_length [OF fr])
    then show ?thesis
      using use_it n by (subst MapClockSweep.simps)
        (auto simp: Let_def hand clock_frame_length [OF fr] intro: clock_frame_trans [OF fr])
  next
    case skip
    then have "d \<noteq> 0" using "1.prems"(2) tick(1) by (intro notI) simp
    then have d: "Suc ?h + (d - 1) = ?h + d" "\<not> k \<le> 1" "d - 1 < k - 1" using "1.prems"(3) by auto
    have "\<exists>v t. MapClockSweep (k - 1) ?s1 = (Inr v, t) \<and> v < num_slots ?s1 \<and> slot_free (MapBuffers t ! v) \<and>
       us (buf_state (MapBuffers t ! v)) = 0 \<and> num_allocs t = num_allocs ?s1 + 1 \<and> clock_frame ?s1 t \<and> clock_ok t"
      using skip n tick(3) "1.prems"(2) d walk [of "d - 1"]
      by (intro "1.IH"(2) [OF _ refl refl refl, of "d - 1"]) simp_all
    then show ?thesis
      using skip n d by (subst MapClockSweep.simps)
        (auto simp: Let_def intro: clock_frame_trans [OF clock_frame_tick])
  qed
qed


lemma nth_pop_free:
  "i < num_slots s \<Longrightarrow>
     MapBuffers (pop_free i s) ! i = (MapBuffers s ! i)\<lparr>freeNext := FREENEXT_NOT_IN_LIST\<rparr>"
  by (simp add: pop_free_def nth_upd_buf)

lemma MapClockFreeList_spec:
  assumes "clock_ok s"
  shows "\<exists>r t. MapClockFreeList s = (Inr r, t) \<and> clock_frame s t \<and> clock_ok t \<and>
     (case r of
        None \<Rightarrow> num_allocs t = num_allocs s
      | Some v \<Rightarrow> v < num_slots s \<and> slot_free (MapBuffers t ! v) \<and> us (buf_state (MapBuffers t ! v)) = 0 \<and>
                 num_allocs t = num_allocs s + 1)"
  using assms
proof (induction s rule: MapClockFreeList.induct)
  case (1 s)
  show ?case
  proof (cases "first_free_buffer s")
    case (FREENEXT_SLOT i)
    let ?b = "MapBuffers s ! i" and ?s1 = "pop_free i s"
    have i: "i < num_slots s" using FREENEXT_SLOT 1 by (simp add: clock_ok_def)
    have ok: "clock_ok ?s1" by (rule clock_ok_pop [OF "1.prems" i])
    have same: "num_slots ?s1 = num_slots s" "num_allocs ?s1 = num_allocs s"
      by (simp_all add: pop_free_def)
    show ?thesis
    proof (cases "rc (buf_state ?b) = 0 \<and> us (buf_state ?b) = 0 \<and> pending_count ?b = 0")
      case True
      then show ?thesis using FREENEXT_SLOT i ok same
        by (subst MapClockFreeList.simps) (simp add: Let_def slot_free_def nth_pop_free)
    next
      case False
      then obtain r t where *: "MapClockFreeList ?s1 = (Inr r, t)" "clock_frame ?s1 t" "clock_ok t"
         "(case r of
            None \<Rightarrow> num_allocs t = num_allocs ?s1
          | Some v \<Rightarrow> v < num_slots ?s1 \<and> slot_free (MapBuffers t ! v) \<and>
              us (buf_state (MapBuffers t ! v)) = 0 \<and> num_allocs t = num_allocs ?s1 + 1)"
        using "1.IH" [OF FREENEXT_SLOT i refl refl _ ok] by auto
      have "clock_frame s t" by (rule clock_frame_trans [OF clock_frame_pop *(2)])
      moreover have "MapClockFreeList s = (Inr r, t)"
        using False FREENEXT_SLOT i *(1) by (subst MapClockFreeList.simps) (auto simp: Let_def)
      ultimately show ?thesis using *(3,4) same by (auto split: option.splits)
    qed
  qed (use 1 in \<open>auto simp: MapClockFreeList.simps\<close>)
qed

lemma cyclic_distance:
  assumes "i < (n :: nat)"
  shows "\<exists>d<n. (h + d) mod n = i"
proof -
  have "(h + (n - h mod n + i)) mod n = (h mod n + (n - h mod n + i)) mod n" by (simp add: mod_add_left_eq)
  also have "h mod n + (n - h mod n + i) = n + i"
    using assms mod_less_divisor [of n h] by linarith
  finally have "(h + (n - h mod n + i)) mod n = i" using assms by simp
  then have "(h + (n - h mod n + i) mod n) mod n = i" by (simp add: mod_add_right_eq)
  then show ?thesis using assms by (intro exI [of _ "(n - h mod n + i) mod n"]) simp
qed

lemma MapWakeWriter_spec:
  "\<exists>t. MapWakeWriter s = (Inr (), t) \<and> clock_frame s t \<and> num_allocs t = num_allocs s \<and>
     (clock_ok s \<longrightarrow> clock_ok t)"
  by (auto simp: MapWakeWriter_def runU clock_ok_def split: option.splits)

text \<open>C16: allocation of a MAP buffer is live and exact. From a well-formed clock, whatever the usage
  counts, the hand position and the state of the free list, \<open>MapClockGetBuffer\<close> returns a slot
  exactly when some slot is neither pinned nor holds an in-flight remap; the slot it returns is such a
  slot with a usage count of zero, and one allocation is counted. If there is none it ends with the
  error. In both cases nothing but usage counts, the hand, the free list and the writer's wake-up
  changes.\<close>

theorem MapClockGetBuffer_live:
  assumes "clock_ok s"
  shows "\<exists>t. clock_frame s t \<and> clock_ok t \<and>
    (if \<exists>b\<in>set (MapBuffers s). slot_free b
     then \<exists>v<num_slots s. MapClockGetBuffer s = (Inr v, t) \<and> slot_free (MapBuffers t ! v) \<and>
            MAPBUF_GET_USAGECOUNT (buf_state (MapBuffers t ! v)) = 0 \<and> num_allocs t = num_allocs s + 1
     else MapClockGetBuffer s = (Inl (ERROR, E_INTERNAL), t))"
proof -
  obtain s1 where 1: "MapWakeWriter s = (Inr (), s1)" "clock_frame s s1" "num_allocs s1 = num_allocs s" "clock_ok s1"
    using MapWakeWriter_spec [of s] assms by auto
  obtain r s2 where 2: "MapClockFreeList s1 = (Inr r, s2)" "clock_frame s1 s2" "clock_ok s2"
    and r: "case r of
        None \<Rightarrow> num_allocs s2 = num_allocs s1
      | Some v \<Rightarrow> v < num_slots s1 \<and> slot_free (MapBuffers s2 ! v) \<and> us (buf_state (MapBuffers s2 ! v)) = 0 \<and>
                 num_allocs s2 = num_allocs s1 + 1"
    using MapClockFreeList_spec [OF 1(4)] by blast
  have fr: "clock_frame s s2" by (rule clock_frame_trans [OF 1(2) 2(2)])
  have len: "num_slots s1 = num_slots s" "num_slots s2 = num_slots s"
    using 1(2) fr by (simp_all add: clock_frame_length)
  show ?thesis
  proof (cases r)
    case (Some v)
    then have v: "v < num_slots s" "slot_free (MapBuffers s2 ! v)" using r len by auto
    then have "\<exists>b\<in>set (MapBuffers s). slot_free b"
      using clock_frame_slot_free [OF fr v(1)] by auto
    then show ?thesis using Some r v 1(1,3) 2(1,3) fr
      by (auto intro!: exI [of _ s2] simp: MapClockGetBuffer_def bindU_def returnU_def)
  next
    case None
    have run: "MapClockGetBuffer s = MapClockSweep (num_slots s) s2"
      using None 1(1) 2(1) len by (simp add: MapClockGetBuffer_def bindU_def getU_def)
    show ?thesis
    proof (cases "\<exists>b\<in>set (MapBuffers s). slot_free b")
      case True
      then obtain i where i: "i < num_slots s" "slot_free (MapBuffers s2 ! i)"
        using fr clock_frame_slot_free unfolding ex_slot_free by blast
      obtain d where d: "d < num_slots s" "(unat (next_victim_buffer s2) + d) mod num_slots s = i"
        using cyclic_distance [OF i(1)] by blast
      show ?thesis
        using MapClockSweep_found [OF 2(3), of d "num_slots s"] d i(2) True None r len run fr 1(3)
        by (auto intro: clock_frame_trans)
    next
      case False
      then have no: "\<not> (\<exists>b\<in>set (MapBuffers s2). slot_free b)" using clock_frame_ex_free [OF fr] by blast
      show ?thesis
        using MapClockSweep_none [OF 2(3) no, of "num_slots s"] False run fr
        by (auto intro: clock_frame_trans)
    qed
  qed
qed


definition demo_buf :: map_buf where
  "demo_buf = map_sb.extend demo_sb
     (map_buf.fields (map (init_buf 2) [0, 1]) (replicate 2 zero_block) Map.empty 0 (FREENEXT_SLOT 0)
        None None [] 0 0 0 0 0 0 MapBackendInit)"

definition demo_clock :: map_buf where
  "demo_clock = demo_buf\<lparr>first_free_buffer := FREENEXT_END,
     MapBuffers := [(init_buf 2 0)\<lparr>buf_state := 1\<rparr>, (init_buf 2 1)\<lparr>buf_state := 0x400\<rparr>]\<rparr>"

theorem MapClockGetBuffer_live_witness:
  "clock_ok demo_clock \<and> (\<exists>t. clock_frame demo_clock t \<and> (\<exists>v<2. MapClockGetBuffer demo_clock = (Inr v, t)))"
proof -
  have "clock_ok demo_clock"
    by (simp add: clock_ok_def demo_clock_def demo_buf_def map_sb.defs map_buf.defs init_buf_def All_less_Suc)
  moreover have "\<exists>b\<in>set (MapBuffers demo_clock). slot_free b"
    by (simp add: demo_clock_def slot_free_def init_buf_def rc_def)
  moreover have "num_slots demo_clock = 2" by (simp add: demo_clock_def)
  ultimately show ?thesis using MapClockGetBuffer_live [of demo_clock] by auto
qed

end
