(* ===== verification/MapFlush.thy ===== *)
theory MapFlush
  imports MapBuf "HOL-Library.Product_Lexorder"
begin

text \<open>
  Writeback of MAP pages and superblocks (\<^verbatim>\<open>src/backend/storage/map/mapflush.c\<close>, and
  \<^verbatim>\<open>UmMetadataWriteSuperblock\<close> of \<^verbatim>\<open>src/backend/storage/smgr/umbra.c\<close>): the flush of one buffer,
  the collection of dirty buffers in file order, checkpoints of everything, of a relation and of a
  database, and the mapwriter's bounded flush.

  A write cache is the temporary file context of the relation written last, if there is one. The
  sort of the collected targets is by \<open>flush_key\<close>; two collected buffers never have the same key when
  the lookup table is consistent, so the instability of the quicksort behind it does not show.
\<close>

subsection \<open>Writing one page\<close>

type_synonym MapFlushWriteCache = "(RelFileLocatorBackend \<times> nat) option"

record MapFlushBufferTarget =
  tgt_slot_id :: nat
  tgt_rnode :: RelFileLocator
  tgt_map_blkno :: BlockNumber

definition shared_rlocator :: "RelFileLocator \<Rightarrow> RelFileLocatorBackend" where
  "shared_rlocator rnode = \<lparr>locator = rnode, backend = -1\<rparr>"

definition MapFlushWriteCacheReset :: "MapFlushWriteCache \<Rightarrow> ('x map_buf_scheme, MapFlushWriteCache) um" where
  "MapFlushWriteCacheReset cache =
     (case cache of
        None \<Rightarrow> returnU None
      | Some (_, ctx) \<Rightarrow> bindU (umfile_ctx_destroy_temporary ctx) (\<lambda>_. returnU None))"

definition MapFlushContextFor ::
  "MapFlushWriteCache \<Rightarrow> RelFileLocator \<Rightarrow> ('x map_buf_scheme, RelFileLocatorBackend \<times> nat) um" where
  "MapFlushContextFor cache rnode =
     (case cache of
        Some (rl, ctx) \<Rightarrow>
          if RelFileLocatorEquals (locator rl) rnode then returnU (rl, ctx)
          else
            bindU (MapFlushWriteCacheReset cache) (\<lambda>_.
            bindU (umfile_ctx_create_temporary (shared_rlocator rnode)) (\<lambda>c.
            returnU (shared_rlocator rnode, c)))
      | None \<Rightarrow>
          bindU (umfile_ctx_create_temporary (shared_rlocator rnode)) (\<lambda>c.
          returnU (shared_rlocator rnode, c)))"

definition MapFlushWritePage ::
  "RelFileLocatorBackend \<Rightarrow> nat \<Rightarrow> BlockNumber \<Rightarrow> block \<Rightarrow> XLogRecPtr \<Rightarrow> ('x map_buf_scheme, unit) um" where
  "MapFlushWritePage rlocator ctx map_blkno page lsn =
     bindU (getU InRecovery) (\<lambda>rec.
     bindU (whenU (\<not> rec \<and> lsn \<noteq> InvalidXLogRecPtr) (XLogFlush lsn)) (\<lambda>_.
     bindU (umfile_ctx_write ctx UMBRA_METADATA_FORKNUM map_blkno page) (\<lambda>_.
     umfile_ctx_register_dirty ctx UMBRA_METADATA_FORKNUM map_blkno False
       (RelFileLocatorBackendIsTemp rlocator))))"

text \<open>The result is the write cache afterwards; the outer \<^const>\<open>None\<close> stands for the null pointer.\<close>

definition MapFlushBufferCached ::
  "nat \<Rightarrow> MapFlushWriteCache option \<Rightarrow> bool \<Rightarrow> ('x map_buf_scheme, MapFlushWriteCache option) um" where
  "MapFlushBufferCached slot_id write_cache checkpoint =
     bindU (MapStartBufferIO slot_id (if checkpoint then MAPBUF_CHECKPOINT_NEEDED else 0)) (\<lambda>start.
       if \<not> start then returnU write_cache
       else
         bindU (getB slot_id) (\<lambda>b.
         bindU (getU (\<lambda>s. MapPageData s ! slot_id)) (\<lambda>page.
           case page_number b of
             None \<Rightarrow> bindU (MapTerminateBufferIO slot_id True 0) (\<lambda>_. returnU write_cache)
           | Some map_blkno \<Rightarrow>
               if map_blkno = MAP_BLOCK_SUPER
               then bindU (MapTerminateBufferIO slot_id False MAPBUF_IO_ERROR) (\<lambda>_.
                    throwU (ERROR, E_INTERNAL))
               else
                 bindU (case write_cache of
                          Some wc \<Rightarrow> MapFlushContextFor wc (buf_rnode b)
                        | None \<Rightarrow>
                            bindU (umfile_ctx_create_temporary (shared_rlocator (buf_rnode b))) (\<lambda>c.
                            returnU (shared_rlocator (buf_rnode b), c))) (\<lambda>(rlocator, ctx).
                 bindU (MapFlushWritePage rlocator ctx map_blkno page (buf_page_lsn b)) (\<lambda>_.
                 bindU (MapTerminateBufferIO slot_id True 0) (\<lambda>_.
                   case write_cache of
                     Some wc \<Rightarrow> returnU (Some (Some (rlocator, ctx)))
                   | None \<Rightarrow> bindU (umfile_ctx_destroy_temporary ctx) (\<lambda>_. returnU None)))))))"

definition MapFlushBuffer :: "nat \<Rightarrow> ('x map_buf_scheme, unit) um" where
  "MapFlushBuffer slot_id = bindU (MapFlushBufferCached slot_id None False) (\<lambda>_. returnU ())"

subsection \<open>Collecting dirty buffers\<close>

definition map_flush_buffer_target_comparator :: "MapFlushBufferTarget \<Rightarrow> MapFlushBufferTarget \<Rightarrow> int" where
  "map_flush_buffer_target_comparator a b =
     (if spcOid (tgt_rnode a) < spcOid (tgt_rnode b) then -1
      else if spcOid (tgt_rnode a) > spcOid (tgt_rnode b) then 1
      else if dbOid (tgt_rnode a) < dbOid (tgt_rnode b) then -1
      else if dbOid (tgt_rnode a) > dbOid (tgt_rnode b) then 1
      else if relNumber (tgt_rnode a) < relNumber (tgt_rnode b) then -1
      else if relNumber (tgt_rnode a) > relNumber (tgt_rnode b) then 1
      else if tgt_map_blkno a < tgt_map_blkno b then -1
      else if tgt_map_blkno a > tgt_map_blkno b then 1
      else 0)"

definition flush_key :: "MapFlushBufferTarget \<Rightarrow> Oid \<times> Oid \<times> Oid \<times> BlockNumber" where
  "flush_key a = (spcOid (tgt_rnode a), dbOid (tgt_rnode a), relNumber (tgt_rnode a), tgt_map_blkno a)"

definition collects :: "RelFileLocator option \<Rightarrow> MapBufferDesc \<Rightarrow> bool" where
  "collects filter_rnode b \<longleftrightarrow>
     buf_state b AND MAPBUF_DIRTY \<noteq> 0 \<and>
     \<not> (page_number b = None \<or> page_number b = Some MAP_BLOCK_SUPER) \<and>
     (case filter_rnode of None \<Rightarrow> True | Some r \<Rightarrow> RelFileLocatorEquals (buf_rnode b) r)"

definition flush_target :: "'x map_buf_scheme \<Rightarrow> nat \<Rightarrow> MapFlushBufferTarget" where
  "flush_target s i = \<lparr>tgt_slot_id = i, tgt_rnode = buf_rnode (MapBuffers s ! i),
     tgt_map_blkno = page_blkno (MapBuffers s ! i)\<rparr>"

definition MapCollectDirtyBufferTargets ::
  "RelFileLocator option \<Rightarrow> bool \<Rightarrow> ('x map_buf_scheme, MapFlushBufferTarget list) um" where
  "MapCollectDirtyBufferTargets filter_rnode mark_checkpoint_needed =
     bindU (getU (\<lambda>s. filter (\<lambda>i. collects filter_rnode (MapBuffers s ! i)) [0..<num_slots s])) (\<lambda>slots.
     bindU (getU (\<lambda>s. map (flush_target s) slots)) (\<lambda>targets.
     bindU (whenU mark_checkpoint_needed
              (forU slots (\<lambda>i. MapBufferUpdateStateBits i MAPBUF_CHECKPOINT_NEEDED 0))) (\<lambda>_.
     returnU (sort_key flush_key targets))))"

subsection \<open>Flushing dirty buffers\<close>

text \<open>The loop \<^verbatim>\<open>MapFlushDirtyBuffers\<close> and \<^verbatim>\<open>MapFlushRelationBuffers\<close> share; the latter has no limit.\<close>

primrec MapFlushTargetLoop ::
  "MapFlushBufferTarget list \<Rightarrow> int \<Rightarrow> bool \<Rightarrow> MapFlushWriteCache \<Rightarrow> int \<Rightarrow>
   ('x map_buf_scheme, int \<times> MapFlushWriteCache) um" where
  "MapFlushTargetLoop [] max_pages checkpoint wc cleaned = returnU (cleaned, wc)"
| "MapFlushTargetLoop (tg # ts) max_pages checkpoint wc cleaned =
     (if max_pages \<ge> 0 \<and> cleaned \<ge> max_pages then returnU (cleaned, wc)
      else
        bindU (getB (tgt_slot_id tg)) (\<lambda>b.
          let state_before = buf_state b in
          if state_before AND MAPBUF_DIRTY = 0 \<or>
             checkpoint \<and> state_before AND MAPBUF_CHECKPOINT_NEEDED = 0
          then MapFlushTargetLoop ts max_pages checkpoint wc cleaned
          else
            bindU (MapFlushBufferCached (tgt_slot_id tg) (Some wc) checkpoint) (\<lambda>wc'.
            bindU (getB (tgt_slot_id tg)) (\<lambda>b'.
              let state_after = buf_state b';
                  clean = (if checkpoint
                           then state_before AND MAPBUF_CHECKPOINT_NEEDED \<noteq> 0 \<and>
                                state_after AND MAPBUF_CHECKPOINT_NEEDED = 0
                           else state_before AND MAPBUF_DIRTY \<noteq> 0 \<and> state_after AND MAPBUF_DIRTY = 0)
              in MapFlushTargetLoop ts max_pages checkpoint
                   (case wc' of Some w \<Rightarrow> w | None \<Rightarrow> None) (if clean then cleaned + 1 else cleaned)))))"

definition MapFlushDirtyBuffers :: "int \<Rightarrow> bool \<Rightarrow> ('x map_buf_scheme, int) um" where
  "MapFlushDirtyBuffers max_pages checkpoint =
     bindU (MapCollectDirtyBufferTargets None checkpoint) (\<lambda>targets.
     bindU (MapFlushTargetLoop targets max_pages checkpoint None 0) (\<lambda>(cleaned, wc).
     bindU (MapFlushWriteCacheReset wc) (\<lambda>_. returnU cleaned)))"

definition MapFlushRelationBuffers :: "RelFileLocator \<Rightarrow> bool \<Rightarrow> ('x map_buf_scheme, int) um" where
  "MapFlushRelationBuffers rnode checkpoint =
     bindU (MapCollectDirtyBufferTargets (Some rnode) checkpoint) (\<lambda>targets.
     bindU (MapFlushTargetLoop targets (-1) checkpoint None 0) (\<lambda>(cleaned, wc).
     bindU (MapFlushWriteCacheReset wc) (\<lambda>_. returnU cleaned)))"

definition MapBgWriterFlush :: "int \<Rightarrow> ('x map_buf_scheme, int) um" where
  "MapBgWriterFlush max_pages =
     (if max_pages \<le> 0 then returnU 0 else MapFlushDirtyBuffers max_pages False)"

subsection \<open>Superblocks\<close>

definition UmMetadataWriteSuperblock ::
  "RelFileLocatorBackend \<Rightarrow> u32 list \<Rightarrow> bool \<Rightarrow> ('x map_buf_scheme, unit) um" where
  "UmMetadataWriteSuperblock rlocator sector skipFsync =
     bindU (umfile_ctx_acquire rlocator) (\<lambda>ctx.
     bindU (umfile_ctx_write ctx UMBRA_METADATA_FORKNUM MAP_BLOCK_SUPER sector) (\<lambda>_.
     umfile_ctx_register_dirty ctx UMBRA_METADATA_FORKNUM MAP_BLOCK_SUPER skipFsync
       (RelFileLocatorBackendIsTemp rlocator)))"

text \<open>The superblock as it is about to be written: stamped with the entry's LSN, then checksummed.\<close>

definition sealed_super :: "MapSuperEntry \<Rightarrow> MapSuperblock" where
  "sealed_super e = MapSuperblockRefreshCRC (MapSuperblockSetLastUpdatedLSN (super e) (page_lsn e))"

definition MapFlushWriteSuperblockEntry :: "RelFileLocator \<Rightarrow> nat \<Rightarrow> ('x map_buf_scheme, unit) um" where
  "MapFlushWriteSuperblockEntry rnode slot =
     bindU (getE slot) (\<lambda>e.
     bindU (getU InRecovery) (\<lambda>rec.
     bindU (whenU (\<not> rec \<and> page_lsn e \<noteq> InvalidXLogRecPtr) (XLogFlush (page_lsn e))) (\<lambda>_.
     bindU (updE slot (\<lambda>e. Inr (e\<lparr>super := sealed_super e\<rparr>))) (\<lambda>_.
     UmMetadataWriteSuperblock (shared_rlocator rnode) (MapSuperblockPackSector (sealed_super e)) False))))"

text \<open>What both flush functions do with the entry of one relation; the result is the number of
  entries cleaned.\<close>

definition flush_super_entry :: "RelFileLocator \<Rightarrow> ('x map_buf_scheme, nat) um" where
  "flush_super_entry rnode =
     bindU (MapSuperFindEntryLocked rnode) (\<lambda>found.
       case found of
         None \<Rightarrow> returnU 0
       | Some slot \<Rightarrow>
           bindU (getE slot) (\<lambda>e.
             if flags e AND MAPSUPER_FLAG_DIRTY = 0 then returnU 0
             else
               bindU (whenU (\<not> MapSuperblockHasValidIdentity (super e)) (MapSBlockReportCorrupt rnode)) (\<lambda>_.
               bindU (MapFlushWriteSuperblockEntry rnode slot) (\<lambda>_.
               bindU (updE slot (\<lambda>e. Inr (e\<lparr>flags := flags e AND NOT MAPSUPER_FLAG_DIRTY\<rparr>))) (\<lambda>_.
               returnU 1)))))"

definition MapFlushRelationSuperblocks :: "RelFileLocator \<Rightarrow> ('x map_buf_scheme, nat) um" where
  "MapFlushRelationSuperblocks rnode = flush_super_entry rnode"

primrec flush_super_entries :: "RelFileLocator list \<Rightarrow> nat \<Rightarrow> ('x map_buf_scheme, nat) um" where
  "flush_super_entries [] cleaned = returnU cleaned"
| "flush_super_entries (r # rs) cleaned =
     bindU (flush_super_entry r) (\<lambda>n. flush_super_entries rs (cleaned + n))"

definition dirty_super_rnodes :: "'x map_buf_scheme \<Rightarrow> RelFileLocator list" where
  "dirty_super_rnodes s =
     map key (filter (\<lambda>e. in_use e \<and> flags e AND MAPSUPER_FLAG_DIRTY \<noteq> 0) (MapSuperEntries s))"

text \<open>One round collects at most \<open>target_cap\<close> relations; a round that had to stop collecting is
  followed by another with twice the capacity. A round can only be cut short while the capacity is
  below the number of slots, so that many rounds are enough.\<close>

primrec MapFlushSuperRounds :: "nat \<Rightarrow> nat \<Rightarrow> nat \<Rightarrow> ('x map_buf_scheme, nat) um" where
  "MapFlushSuperRounds 0 target_cap cleaned = throwU (FATAL, E_INTERNAL)"
| "MapFlushSuperRounds (Suc fuel) target_cap cleaned =
     bindU (getU dirty_super_rnodes) (\<lambda>dirty.
     bindU (flush_super_entries (take target_cap dirty) cleaned) (\<lambda>cleaned'.
       if length dirty > target_cap then MapFlushSuperRounds fuel (2 * target_cap) cleaned'
       else returnU cleaned'))"

definition MapFlushDirtySuperblocks :: "('x map_buf_scheme, nat) um" where
  "MapFlushDirtySuperblocks =
     bindU (getU (\<lambda>s. length (MapSuperEntries s))) (\<lambda>n. MapFlushSuperRounds (Suc n) 256 0)"

subsection \<open>Checkpoints\<close>

definition MapPreCheckpoint :: "('x map_buf_scheme, unit) um" where
  "MapPreCheckpoint = returnU ()"

definition MapPostCheckpoint :: "('x map_buf_scheme, unit) um" where
  "MapPostCheckpoint = returnU ()"

definition MapCheckpoint :: "('x map_buf_scheme, unit) um" where
  "MapCheckpoint =
     bindU (MapFlushDirtyBuffers (-1) True) (\<lambda>_.
     bindU MapFlushDirtySuperblocks (\<lambda>_. returnU ()))"

definition MapCheckpointRelation :: "RelFileLocator \<Rightarrow> ('x map_buf_scheme, unit) um" where
  "MapCheckpointRelation rnode =
     bindU (MapFlushRelationBuffers rnode True) (\<lambda>_.
     bindU (MapFlushRelationSuperblocks rnode) (\<lambda>_. returnU ()))"

text \<open>An empty list of tablespaces selects all of them.\<close>

definition MapTablespaceSelected :: "Oid \<Rightarrow> Oid list \<Rightarrow> bool" where
  "MapTablespaceSelected spc tablespace_ids \<longleftrightarrow> tablespace_ids = [] \<or> spc \<in> set tablespace_ids"

definition checkpoint_targets :: "Oid \<Rightarrow> Oid list \<Rightarrow> 'x map_buf_scheme \<Rightarrow> RelFileLocator list" where
  "checkpoint_targets dbid tablespace_ids s =
     map buf_rnode (filter (\<lambda>b. buf_state b AND MAPBUF_DIRTY \<noteq> 0 \<and> page_number b \<noteq> None \<and>
        dbOid (buf_rnode b) = dbid \<and> MapTablespaceSelected (spcOid (buf_rnode b)) tablespace_ids) (MapBuffers s)) @
     map key (filter (\<lambda>e. in_use e \<and> flags e AND MAPSUPER_FLAG_DIRTY \<noteq> 0 \<and>
        dbOid (key e) = dbid \<and> MapTablespaceSelected (spcOid (key e)) tablespace_ids) (MapSuperEntries s))"

primrec checkpoint_each :: "RelFileLocator list \<Rightarrow> RelFileLocator list \<Rightarrow> ('x map_buf_scheme, unit) um" where
  "checkpoint_each before [] = returnU ()"
| "checkpoint_each before (r # rs) =
     bindU (whenU (r \<notin> set before) (MapCheckpointRelation r)) (\<lambda>_.
     checkpoint_each (before @ [r]) rs)"

definition MapCheckpointDatabaseTablespaces :: "Oid \<Rightarrow> Oid list \<Rightarrow> ('x map_buf_scheme, unit) um" where
  "MapCheckpointDatabaseTablespaces dbid tablespace_ids =
     bindU (getU (checkpoint_targets dbid tablespace_ids)) (\<lambda>targets. checkpoint_each [] targets)"

end
