(* ===== verification/MapCore.thy ===== *)
theory MapCore
  imports MapFlush
begin

text \<open>
  The MAP proper (\<^verbatim>\<open>src/backend/storage/map/map.c\<close>) and the ownership of in-flight remaps
  (\<^verbatim>\<open>mapinflight.c\<close>): reading a MAP page into the cache, lookups of single entries and of runs,
  reservation of fresh physical blocks, publication of a mapping, truncation, invalidation, and the
  cleanup of a leaving backend.

  The retry loop of \<^verbatim>\<open>MapReadBuffer\<close> has as many rounds as there are slots; one round is enough when
  no other backend interferes, and a loop that would spin stops with \<open>E_WAIT\<close>. What other backends do
  while a caller sleeps in \<^verbatim>\<open>MapWaitForForeignInflightToClear\<close> is the argument \<open>yield\<close>; whether
  another backend holds the superblock entry's lock is the argument \<open>busy\<close>, and whether the file
  system can preallocate is \<open>supported\<close>.
\<close>

subsection \<open>In-flight remaps of a buffer\<close>

definition MapInflightEntryMask :: "nat \<Rightarrow> u64" where
  "MapInflightEntryMask entry_idx = push_bit (entry_idx mod MAP_PENDING_BITS_PER_WORD) 1"

definition pending_word :: "MapBufferDesc \<Rightarrow> nat \<Rightarrow> u64" where
  "pending_word b entry_idx = pending_bits b ! (entry_idx div MAP_PENDING_BITS_PER_WORD)"

definition set_pending_word :: "nat \<Rightarrow> u64 \<Rightarrow> MapBufferDesc \<Rightarrow> MapBufferDesc" where
  "set_pending_word entry_idx w b =
     b\<lparr>pending_bits := (pending_bits b)[entry_idx div MAP_PENDING_BITS_PER_WORD := w]\<rparr>"

definition MapInflightBufferTryClaim ::
  "RelFileLocator \<Rightarrow> ForkNumber \<Rightarrow> BlockNumber \<Rightarrow> nat \<Rightarrow> nat \<Rightarrow> ('x map_buf_scheme, bool) um" where
  "MapInflightBufferTryClaim rnode f map_blkno slot_id entry_idx =
     bindU (getB slot_id) (\<lambda>b.
       let mask = MapInflightEntryMask entry_idx in
       if buf_has_tag b rnode f map_blkno \<and> pending_word b entry_idx AND mask = 0
       then
         bindU (modifyU (upd_buf slot_id (\<lambda>b.
           (set_pending_word entry_idx (pending_word b entry_idx OR mask) b)
             \<lparr>pending_count := pending_count b + 1\<rparr>))) (\<lambda>_.
         returnU True)
       else returnU False)"

definition MapInflightBufferRelease :: "nat \<Rightarrow> nat \<Rightarrow> ('x map_buf_scheme, unit) um" where
  "MapInflightBufferRelease slot_id entry_idx =
     bindU (getB slot_id) (\<lambda>b.
     let mask = MapInflightEntryMask entry_idx in
     bindU (whenU (pending_word b entry_idx AND mask \<noteq> 0)
       (modifyU (upd_buf slot_id (\<lambda>b.
           (set_pending_word entry_idx (pending_word b entry_idx AND NOT mask) b)
             \<lparr>pending_count := pending_count b - 1\<rparr>)))) (\<lambda>_.
     MapUnpinBuffer slot_id))"

subsection \<open>In-flight remaps of a backend\<close>

definition inf_matches :: "RelFileLocator \<Rightarrow> ForkNumber \<Rightarrow> BlockNumber \<Rightarrow> MapInflightLocalEntry \<Rightarrow> bool" where
  "inf_matches rnode f lblkno e \<longleftrightarrow>
     RelFileLocatorEquals (inf_rnode e) rnode \<and> inf_forknum e = f \<and> inf_lblkno e = lblkno"

primrec find_index :: "('a \<Rightarrow> bool) \<Rightarrow> 'a list \<Rightarrow> nat option" where
  "find_index P [] = None"
| "find_index P (x # xs) = (if P x then Some 0 else map_option Suc (find_index P xs))"

definition MapInflightLocalFind ::
  "RelFileLocator \<Rightarrow> ForkNumber \<Rightarrow> BlockNumber \<Rightarrow> MapInflightLocalEntry list \<Rightarrow> nat option" where
  "MapInflightLocalFind rnode f lblkno es = find_index (inf_matches rnode f lblkno) es"

definition MapInflightLocalRememberPrepared ::
  "RelFileLocator \<Rightarrow> ForkNumber \<Rightarrow> BlockNumber \<Rightarrow> BlockNumber \<Rightarrow> nat \<Rightarrow> nat \<Rightarrow> map_backend \<Rightarrow> map_backend" where
  "MapInflightLocalRememberPrepared rnode f lblkno pblkno slot_id entry_idx me =
     me\<lparr>MapInflightLocalEntries := MapInflightLocalEntries me @
          [\<lparr>inf_rnode = rnode, inf_forknum = f, inf_lblkno = lblkno, inf_pblkno = pblkno,
            inf_slot_id = slot_id, inf_entry_idx = entry_idx\<rparr>]\<rparr>"

text \<open>The last entry takes the place of the forgotten one.\<close>

definition drop_swap :: "nat \<Rightarrow> 'a list \<Rightarrow> 'a list" where
  "drop_swap i xs = (if i = length xs - 1 then butlast xs else (butlast xs)[i := last xs])"

definition MapInflightLocalForget ::
  "RelFileLocator \<Rightarrow> ForkNumber \<Rightarrow> BlockNumber \<Rightarrow> map_backend \<Rightarrow> map_backend" where
  "MapInflightLocalForget rnode f lblkno me =
     (case MapInflightLocalFind rnode f lblkno (MapInflightLocalEntries me) of
        None \<Rightarrow> me
      | Some idx \<Rightarrow> me\<lparr>MapInflightLocalEntries := drop_swap idx (MapInflightLocalEntries me)\<rparr>)"

definition local_find ::
  "RelFileLocator \<Rightarrow> ForkNumber \<Rightarrow> BlockNumber \<Rightarrow> ('x map_buf_scheme, MapInflightLocalEntry option) um" where
  "local_find rnode f lblkno =
     getU (\<lambda>s. let es = MapInflightLocalEntries (MyBackend s)
               in map_option (\<lambda>i. es ! i) (MapInflightLocalFind rnode f lblkno es))"

definition MapInflightLookupOwnedPblk ::
  "RelFileLocator \<Rightarrow> ForkNumber \<Rightarrow> BlockNumber \<Rightarrow> ('x map_buf_scheme, BlockNumber option) um" where
  "MapInflightLookupOwnedPblk rnode f lblkno =
     bindU (local_find rnode f lblkno) (\<lambda>found.
       returnU (case found of
          None \<Rightarrow> None
        | Some e \<Rightarrow> if inf_pblkno e = InvalidBlockNumber then None else Some (inf_pblkno e)))"

definition MapInflightFinishClaim ::
  "RelFileLocator \<Rightarrow> ForkNumber \<Rightarrow> BlockNumber \<Rightarrow> BlockNumber \<Rightarrow> ('x map_buf_scheme, unit) um" where
  "MapInflightFinishClaim rnode f lblkno pblkno =
     bindU (getU (\<lambda>s. MapInflightLocalFind rnode f lblkno (MapInflightLocalEntries (MyBackend s)))) (\<lambda>found.
       case found of
         None \<Rightarrow> throwU (ERROR, E_INTERNAL)
       | Some idx \<Rightarrow>
           modifyU (upd_backend (\<lambda>me. me\<lparr>MapInflightLocalEntries :=
             (MapInflightLocalEntries me)[idx := (MapInflightLocalEntries me ! idx)\<lparr>inf_pblkno := pblkno\<rparr>]\<rparr>)))"

definition MapInflightRelease ::
  "RelFileLocator \<Rightarrow> ForkNumber \<Rightarrow> BlockNumber \<Rightarrow> ('x map_buf_scheme, unit) um" where
  "MapInflightRelease rnode f lblkno =
     bindU (local_find rnode f lblkno) (\<lambda>found.
       case found of
         None \<Rightarrow> returnU ()
       | Some e \<Rightarrow>
           bindU (modifyU (upd_backend (MapInflightLocalForget rnode f lblkno))) (\<lambda>_.
           MapInflightBufferRelease (inf_slot_id e) (inf_entry_idx e)))"

definition MapInflightBitIsSet ::
  "RelFileLocator \<Rightarrow> ForkNumber \<Rightarrow> BlockNumber \<Rightarrow> ('x map_buf_scheme, bool) um" where
  "MapInflightBitIsSet rnode f lblkno =
     bindU (liftU (MapInflightDecode f lblkno)) (\<lambda>(map_blkno, entry_idx).
     bindU (MapCacheLookup rnode f map_blkno) (\<lambda>found.
       case found of
         None \<Rightarrow> returnU False
       | Some slot_id \<Rightarrow>
           bindU (MapPinBuffer slot_id False) (\<lambda>_.
           bindU (getB slot_id) (\<lambda>b.
           bindU (MapUnpinBuffer slot_id) (\<lambda>_.
           returnU (buf_has_tag b rnode f map_blkno \<and>
                    pending_word b entry_idx AND MapInflightEntryMask entry_idx \<noteq> 0))))))"

text \<open>Every turn releases one entry, so the number of entries bounds the loop.\<close>

primrec MapInflightCleanupLoop :: "nat \<Rightarrow> ('x map_buf_scheme, unit) um" where
  "MapInflightCleanupLoop 0 = returnU ()"
| "MapInflightCleanupLoop (Suc n) =
     bindU (getU (\<lambda>s. MapInflightLocalEntries (MyBackend s))) (\<lambda>es.
       case es of
         [] \<Rightarrow> returnU ()
       | e # _ \<Rightarrow>
           bindU (MapInflightRelease (inf_rnode e) (inf_forknum e) (inf_lblkno e)) (\<lambda>_.
           MapInflightCleanupLoop n))"

definition MapInflightCleanupOwned :: "('x map_buf_scheme, unit) um" where
  "MapInflightCleanupOwned =
     bindU (getU (\<lambda>s. length (MapInflightLocalEntries (MyBackend s)))) MapInflightCleanupLoop"

subsection \<open>Leaving a backend\<close>

definition all_forks :: "ForkNumber list" where
  "all_forks = [MAIN_FORKNUM, FSM_FORKNUM, VISIBILITYMAP_FORKNUM, INIT_FORKNUM, UMBRA_METADATA_FORKNUM]"

definition upd_preload ::
  "ForkNumber \<Rightarrow> (MapTruncatePreloadState \<Rightarrow> MapTruncatePreloadState) \<Rightarrow> ('x map_buf_scheme, unit) um" where
  "upd_preload f g = modifyU (upd_backend (\<lambda>me.
     me\<lparr>MapTruncatePreload := (MapTruncatePreload me)(f := g (MapTruncatePreload me f))\<rparr>))"

definition MapTruncatePreloadResetEntry :: "ForkNumber \<Rightarrow> ('x map_buf_scheme, unit) um" where
  "MapTruncatePreloadResetEntry f =
     bindU (getU (\<lambda>s. MapTruncatePreload (MyBackend s) f)) (\<lambda>st.
       if \<not> preload_active st then returnU ()
       else
         bindU (forU (preload_slots st) MapUnpinBuffer) (\<lambda>_.
         upd_preload f (\<lambda>st. st\<lparr>preload_active := False, preload_slots := [],
           preload_forknum := InvalidForkNumber, preload_rnode := zero_rlocator\<rparr>)))"

definition MapTruncatePreloadEntry :: "RelFileLocator \<Rightarrow> ForkNumber \<Rightarrow> ('x map_buf_scheme, unit) um" where
  "MapTruncatePreloadEntry rnode f =
     bindU (getU (\<lambda>s. MapTruncatePreload (MyBackend s) f)) (\<lambda>st.
       whenU (preload_active st \<and>
              (\<not> RelFileLocatorEquals (preload_rnode st) rnode \<or> preload_forknum st \<noteq> f))
         (MapTruncatePreloadResetEntry f))"

definition MapResetAllTruncatePreloads :: "('x map_buf_scheme, unit) um" where
  "MapResetAllTruncatePreloads =
     forU all_forks (\<lambda>f. upd_preload f (\<lambda>st. st\<lparr>preload_active := False, preload_slots := []\<rparr>))"

text \<open>\<^verbatim>\<open>while (MapPrivateRefCount[slot_id] > 0) MapUnpinBuffer(slot_id)\<close>: one turn per private pin.\<close>

definition unpin_all :: "nat \<Rightarrow> ('x map_buf_scheme, unit) um" where
  "unpin_all slot_id =
     bindU (getU (\<lambda>s. private_pins s slot_id)) (\<lambda>n. forU [0..<n] (\<lambda>_. MapUnpinBuffer slot_id))"

definition MapBackendExitCleanup :: "('x map_buf_scheme, unit) um" where
  "MapBackendExitCleanup =
     bindU MapAbortBufferIO (\<lambda>_.
     bindU MapInflightCleanupOwned (\<lambda>_.
     bindU (getU (\<lambda>s. num_slots s)) (\<lambda>n.
     bindU (forU [0..<n] unpin_all) (\<lambda>_.
     MapResetAllTruncatePreloads))))"

subsection \<open>Reading a MAP page into the cache\<close>

definition unmapped_page :: block where
  "unmapped_page = replicate BLOCK_WORDS InvalidBlockNumber"

definition set_page :: "nat \<Rightarrow> block \<Rightarrow> ('x map_buf_scheme, unit) um" where
  "set_page slot_id p = modifyU (\<lambda>s. s\<lparr>MapPageData := (MapPageData s)[slot_id := p]\<rparr>)"

definition page_first_lblk :: "BlockNumber \<Rightarrow> u64" where
  "page_first_lblk page_idx = ucast page_idx * ucast MAP_ENTRIES_PER_PAGE"

definition MapMapPageWithinLogicalRange ::
  "nat \<Rightarrow> RelFileLocator \<Rightarrow> ForkNumber \<Rightarrow> BlockNumber \<Rightarrow> ('x map_buf_scheme, bool) um" where
  "MapMapPageWithinLogicalRange c rnode f map_blkno =
     bindU (MapSBlockTryGetLogicalNblocks c rnode f) (\<lambda>got.
       case got of
         None \<Rightarrow> returnU True
       | Some n_lblknos \<Rightarrow>
           case MapDecodeMapBlkno map_blkno of
             None \<Rightarrow> returnU False
           | Some (page_forknum, page_idx) \<Rightarrow>
               if page_forknum \<noteq> f then returnU False
               else if page_first_lblk page_idx \<ge> ucast n_lblknos then returnU False
               else returnU True)"

text \<open>The part of \<^verbatim>\<open>MapReadBuffer\<close> that fills the page of a slot it has taken over.\<close>

definition fill_page ::
  "nat \<Rightarrow> RelFileLocator \<Rightarrow> ForkNumber \<Rightarrow> BlockNumber \<Rightarrow> nat \<Rightarrow> ('x map_buf_scheme, unit) um" where
  "fill_page c rnode f map_blkno slot_id =
     bindU (umfile_ctx_fork_exists c UMBRA_METADATA_FORKNUM UMFILE_EXISTS_DENSE) (\<lambda>ex.
       if ex
       then
         bindU (umfile_ctx_get_nblocks c UMBRA_METADATA_FORKNUM UMFILE_NBLOCKS_DENSE) (\<lambda>map_nblocks.
         bindU (if map_blkno < map_nblocks then MapMapPageWithinLogicalRange c rnode f map_blkno
                else returnU False) (\<lambda>inside.
           if inside
           then
             bindU (umfile_ctx_read c UMBRA_METADATA_FORKNUM map_blkno BLCKSZ) (\<lambda>page.
             bindU (set_page slot_id page) (\<lambda>_.
             bindU (MapBufferUpdateStateBits slot_id 0 MAPBUF_NOT_MATERIALIZED) (\<lambda>_.
             whenU (list_all (\<lambda>w. w = 0) page)
               (bindU (MapSBlockTryGetLogicalNblocks c rnode f) (\<lambda>got.
                let need_this_page =
                  (case got of
                     None \<Rightarrow> False
                   | Some n_lblknos \<Rightarrow> n_lblknos > 0 \<and>
                       (case MapDecodeMapBlkno map_blkno of
                          None \<Rightarrow> False
                        | Some (page_forknum, page_idx) \<Rightarrow>
                            page_forknum = f \<and> page_first_lblk page_idx < ucast n_lblknos))
                in if need_this_page then throwU (ERROR, E_DATA_CORRUPTED)
                   else set_page slot_id unmapped_page)))))
           else
             bindU (set_page slot_id unmapped_page) (\<lambda>_.
             if map_blkno \<ge> map_nblocks
             then MapBufferUpdateStateBits slot_id MAPBUF_NOT_MATERIALIZED 0
             else MapBufferUpdateStateBits slot_id 0 MAPBUF_NOT_MATERIALIZED)))
       else
         bindU (set_page slot_id unmapped_page) (\<lambda>_.
         MapBufferUpdateStateBits slot_id MAPBUF_NOT_MATERIALIZED 0))"

text \<open>Taking over a victim that is pinned once, clean and without in-flight remaps; \<^const>\<open>None\<close> asks
  for another round.\<close>

definition adopt_victim ::
  "nat \<Rightarrow> RelFileLocator \<Rightarrow> ForkNumber \<Rightarrow> BlockNumber \<Rightarrow> nat \<Rightarrow> ('x map_buf_scheme, nat option) um" where
  "adopt_victim c rnode f map_blkno slot_id =
     bindU (getB slot_id) (\<lambda>b.
       if pending_count b \<noteq> 0 then bindU (MapUnpinBuffer slot_id) (\<lambda>_. returnU None)
       else
         bindU (modifyU (upd_buf slot_id (\<lambda>b. b\<lparr>pending_bits := replicate MAP_PENDING_BITMAP_WORDS 0\<rparr>))) (\<lambda>_.
         bindU (MapCacheInsert rnode f map_blkno slot_id) (\<lambda>existing.
           if existing \<noteq> None \<and> existing \<noteq> Some slot_id
           then bindU (MapUnpinBuffer slot_id) (\<lambda>_. returnU None)
           else
             bindU (case page_number b of
                      None \<Rightarrow> returnU ()
                    | Some old \<Rightarrow> MapCacheDelete (buf_rnode b) (buf_forknum b) old slot_id) (\<lambda>_.
             bindU (modifyU (upd_buf slot_id (\<lambda>b. b\<lparr>page_number := Some map_blkno, buf_rnode := rnode,
                      buf_forknum := f, buf_page_lsn := 0\<rparr>))) (\<lambda>_.
             bindU (MapBufferUpdateStateBits slot_id MAPBUF_USAGECOUNT_ONE 0) (\<lambda>_.
             bindU (fill_page c rnode f map_blkno slot_id) (\<lambda>_.
             returnU (Some slot_id))))))))"

text \<open>A victim from the clock, pinned and, if it is dirty, written back first.\<close>

definition take_victim ::
  "nat \<Rightarrow> RelFileLocator \<Rightarrow> ForkNumber \<Rightarrow> BlockNumber \<Rightarrow> ('x map_buf_scheme, nat option) um" where
  "take_victim c rnode f map_blkno =
     bindU MapClockGetBuffer (\<lambda>slot_id.
     bindU (MapPinBuffer slot_id False) (\<lambda>_.
     bindU (getB slot_id) (\<lambda>b.
       if buf_has_tag b rnode f map_blkno then returnU (Some slot_id)
       else if MAPBUF_GET_REFCOUNT (buf_state b) \<noteq> 1
       then bindU (MapUnpinBuffer slot_id) (\<lambda>_. returnU None)
       else if buf_state b AND MAPBUF_DIRTY \<noteq> 0
       then
         bindU (MapFlushBuffer slot_id) (\<lambda>_.
         bindU (getB slot_id) (\<lambda>b'.
           if buf_has_tag b' rnode f map_blkno then returnU (Some slot_id)
           else if MAPBUF_GET_REFCOUNT (buf_state b') \<noteq> 1 \<or> buf_state b' AND MAPBUF_DIRTY \<noteq> 0
           then bindU (MapUnpinBuffer slot_id) (\<lambda>_. returnU None)
           else adopt_victim c rnode f map_blkno slot_id))
       else adopt_victim c rnode f map_blkno slot_id)))"

primrec MapReadBufferLoop ::
  "nat \<Rightarrow> nat \<Rightarrow> RelFileLocator \<Rightarrow> ForkNumber \<Rightarrow> BlockNumber \<Rightarrow> ('x map_buf_scheme, nat) um" where
  "MapReadBufferLoop 0 c rnode f map_blkno = throwU (ERROR, E_WAIT)"
| "MapReadBufferLoop (Suc n) c rnode f map_blkno =
     bindU (MapCacheLookup rnode f map_blkno) (\<lambda>found.
       case found of
         Some slot_id \<Rightarrow>
           bindU (MapPinBuffer slot_id True) (\<lambda>_.
           bindU (getB slot_id) (\<lambda>b.
             if buf_has_tag b rnode f map_blkno then returnU slot_id
             else bindU (MapUnpinBuffer slot_id) (\<lambda>_. MapReadBufferLoop n c rnode f map_blkno)))
       | None \<Rightarrow>
           bindU (take_victim c rnode f map_blkno) (\<lambda>r.
             case r of
               Some slot_id \<Rightarrow> returnU slot_id
             | None \<Rightarrow> MapReadBufferLoop n c rnode f map_blkno))"

definition MapReadBuffer ::
  "nat \<Rightarrow> RelFileLocator \<Rightarrow> ForkNumber \<Rightarrow> BlockNumber \<Rightarrow> ('x map_buf_scheme, nat) um" where
  "MapReadBuffer c rnode f map_blkno =
     (if map_blkno = MAP_BLOCK_SUPER then throwU (ERROR, E_INTERNAL)
      else bindU (getU (\<lambda>s. num_slots s)) (\<lambda>n. MapReadBufferLoop (Suc n) c rnode f map_blkno))"


subsection \<open>Lookups\<close>

datatype MapCachedLookupResult =
  MAP_CACHED_LOOKUP_MISS | MAP_CACHED_LOOKUP_UNMAPPED | MAP_CACHED_LOOKUP_MAPPED BlockNumber

definition page_entry :: "nat \<Rightarrow> nat \<Rightarrow> ('x map_buf_scheme, BlockNumber) um" where
  "page_entry slot_id entry_idx = getU (\<lambda>s. MapPageData s ! slot_id ! entry_idx)"

definition MapTryLookupCachedEntry ::
  "RelFileLocator \<Rightarrow> ForkNumber \<Rightarrow> BlockNumber \<Rightarrow> nat \<Rightarrow> bool \<Rightarrow>
   ('x map_buf_scheme, MapCachedLookupResult) um" where
  "MapTryLookupCachedEntry rnode f map_blkno entry_idx adjust_usage =
     bindU (MapCacheLookup rnode f map_blkno) (\<lambda>found.
       case found of
         None \<Rightarrow> returnU MAP_CACHED_LOOKUP_MISS
       | Some slot_id \<Rightarrow>
           bindU (MapPinBuffer slot_id adjust_usage) (\<lambda>_.
           bindU (getB slot_id) (\<lambda>b.
             if \<not> buf_has_tag b rnode f map_blkno
             then bindU (MapUnpinBuffer slot_id) (\<lambda>_. returnU MAP_CACHED_LOOKUP_MISS)
             else
               bindU (page_entry slot_id entry_idx) (\<lambda>value.
               bindU (MapUnpinBuffer slot_id) (\<lambda>_.
               returnU (if value = InvalidBlockNumber then MAP_CACHED_LOOKUP_UNMAPPED
                        else MAP_CACHED_LOOKUP_MAPPED value))))))"

definition MapTryLookupCachedPblknoInternal ::
  "RelFileLocator \<Rightarrow> ForkNumber \<Rightarrow> BlockNumber \<Rightarrow> bool \<Rightarrow> ('x map_buf_scheme, MapCachedLookupResult) um" where
  "MapTryLookupCachedPblknoInternal rnode f lblkno adjust_usage =
     (if f = UMBRA_METADATA_FORKNUM then returnU MAP_CACHED_LOOKUP_MISS
      else
        bindU (liftU (MapInflightDecode f lblkno)) (\<lambda>(map_blkno, entry_idx).
        MapTryLookupCachedEntry rnode f map_blkno entry_idx adjust_usage))"

definition MapTryLookup ::
  "nat \<Rightarrow> RelFileLocator \<Rightarrow> ForkNumber \<Rightarrow> BlockNumber \<Rightarrow> ('x map_buf_scheme, BlockNumber option) um" where
  "MapTryLookup c rnode f lblkno =
     (if f = UMBRA_METADATA_FORKNUM then throwU (ERROR, E_INTERNAL)
      else
        bindU (MapTryLookupCachedPblknoInternal rnode f lblkno True) (\<lambda>cache_result.
          case cache_result of
            MAP_CACHED_LOOKUP_MAPPED p \<Rightarrow> returnU (Some p)
          | MAP_CACHED_LOOKUP_UNMAPPED \<Rightarrow> returnU None
          | MAP_CACHED_LOOKUP_MISS \<Rightarrow>
              bindU (liftU (MapInflightDecode f lblkno)) (\<lambda>(map_blkno, entry_idx).
              bindU (MapReadBuffer c rnode f map_blkno) (\<lambda>slot_id.
              bindU (getB slot_id) (\<lambda>b.
                if buf_state b AND MAPBUF_VALID_MASK = 0 then throwU (ERROR, E_INTERNAL)
                else
                  bindU (page_entry slot_id entry_idx) (\<lambda>p.
                  bindU (MapUnpinBuffer slot_id) (\<lambda>_.
                  returnU (if p = InvalidBlockNumber then None else Some p))))))))"

text \<open>The loops over several pages keep one page pinned: \<open>cur\<close> is its slot and its block.\<close>

definition unpin_page :: "(nat \<times> BlockNumber) option \<Rightarrow> ('x map_buf_scheme, unit) um" where
  "unpin_page cur = (case cur of None \<Rightarrow> returnU () | Some (sl, _) \<Rightarrow> MapUnpinBuffer sl)"

definition switch_page ::
  "nat \<Rightarrow> RelFileLocator \<Rightarrow> ForkNumber \<Rightarrow> BlockNumber \<Rightarrow> (nat \<times> BlockNumber) option \<Rightarrow>
   ('x map_buf_scheme, nat) um" where
  "switch_page c rnode f map_blkno cur =
     (case cur of
        None \<Rightarrow> MapReadBuffer c rnode f map_blkno
      | Some (sl, b) \<Rightarrow>
          if b \<noteq> map_blkno
          then bindU (MapUnpinBuffer sl) (\<lambda>_. MapReadBuffer c rnode f map_blkno)
          else returnU sl)"

text \<open>The scan of one page in \<^verbatim>\<open>MapTryLookupPblkRun\<close>: the entries still to be examined, the start of the
  run and its length so far. The flag says that the run ended inside the page.\<close>

primrec run_scan ::
  "BlockNumber list \<Rightarrow> BlockNumber \<Rightarrow> BlockNumber \<Rightarrow> BlockNumber \<Rightarrow> bool \<times> BlockNumber \<times> BlockNumber \<times> BlockNumber" where
  "run_scan [] start_pblkno expected run_blocks = (False, start_pblkno, expected, run_blocks)"
| "run_scan (pblkno # ps) start_pblkno expected run_blocks =
     (if pblkno = InvalidBlockNumber then (True, start_pblkno, expected, run_blocks)
      else if run_blocks = 0 then run_scan ps pblkno (pblkno + 1) 1
      else if pblkno \<noteq> expected then (True, start_pblkno, expected, run_blocks)
      else if start_pblkno mod of_nat RELSEG_SIZE + run_blocks \<ge> of_nat RELSEG_SIZE
      then (True, start_pblkno, expected, run_blocks)
      else run_scan ps start_pblkno (expected + 1) (run_blocks + 1))"

text \<open>One turn per page; each turn examines at least one block, so \<open>maxblocks\<close> turns are enough.
  \<open>cur\<close> is the page pinned at the moment.\<close>

primrec run_loop ::
  "nat \<Rightarrow> nat \<Rightarrow> RelFileLocator \<Rightarrow> ForkNumber \<Rightarrow> BlockNumber \<Rightarrow> BlockNumber \<Rightarrow> BlockNumber \<Rightarrow> BlockNumber \<Rightarrow>
   BlockNumber \<Rightarrow> (nat \<times> BlockNumber) option \<Rightarrow> ('x map_buf_scheme, BlockNumber \<times> BlockNumber) um" where
  "run_loop 0 c rnode f lblk remaining start_pblkno expected run_blocks cur =
     bindU (unpin_page cur) (\<lambda>_.
     returnU (run_blocks, start_pblkno))"
| "run_loop (Suc n) c rnode f lblk remaining start_pblkno expected run_blocks cur =
     (if remaining = 0
      then bindU (unpin_page cur) (\<lambda>_.
           returnU (run_blocks, start_pblkno))
      else
        bindU (liftU (MapInflightDecode f lblk)) (\<lambda>(map_blkno, entry_idx).
        let entries_this_page = min (unat MAP_ENTRIES_PER_PAGE - entry_idx) (unat remaining) in
        bindU (switch_page c rnode f map_blkno cur) (\<lambda>slot.
        bindU (getU (\<lambda>s. MapPageData s ! slot)) (\<lambda>page.
          case run_scan (take entries_this_page (drop entry_idx page)) start_pblkno expected run_blocks of
            (stop, start', expected', run') \<Rightarrow>
              if stop then bindU (MapUnpinBuffer slot) (\<lambda>_. returnU (run', start'))
              else run_loop n c rnode f (lblk + of_nat entries_this_page)
                     (remaining - of_nat entries_this_page) start' expected' run'
                     (Some (slot, map_blkno))))))"

text \<open>The result is the length of the run and its first physical block (meaningful when it is not 0).\<close>

definition MapTryLookupPblkRun ::
  "nat \<Rightarrow> RelFileLocator \<Rightarrow> ForkNumber \<Rightarrow> BlockNumber \<Rightarrow> BlockNumber \<Rightarrow>
   ('x map_buf_scheme, BlockNumber \<times> BlockNumber) um" where
  "MapTryLookupPblkRun c rnode f lblkno maxblocks =
     (if f = UMBRA_METADATA_FORKNUM then throwU (ERROR, E_INTERNAL)
      else
        bindU (umfile_ctx_fork_exists c UMBRA_METADATA_FORKNUM UMFILE_EXISTS_DENSE) (\<lambda>ex.
          if \<not> ex then returnU (0, 0)
          else run_loop (unat maxblocks) c rnode f lblkno maxblocks 0 InvalidBlockNumber 0 None))"

definition MapGetLogicalBlockCount ::
  "nat \<Rightarrow> RelFileLocator \<Rightarrow> ForkNumber \<Rightarrow> ('x map_buf_scheme, BlockNumber) um" where
  "MapGetLogicalBlockCount c rnode f =
     bindU (MapSBlockTryGetLogicalNblocks c rnode f) (\<lambda>got.
     returnU (case got of None \<Rightarrow> 0 | Some n \<Rightarrow> n))"

text \<open>How many entries of page \<open>page_idx\<close> belong to the first \<open>n_lblknos\<close> blocks.\<close>

definition page_limit :: "BlockNumber \<Rightarrow> BlockNumber \<Rightarrow> BlockNumber \<Rightarrow> nat" where
  "page_limit n_lblknos page_count page_idx =
     (if page_idx = page_count - 1 \<and> n_lblknos mod MAP_ENTRIES_PER_PAGE \<noteq> 0
      then unat (n_lblknos mod MAP_ENTRIES_PER_PAGE) else unat MAP_ENTRIES_PER_PAGE)"

definition map_page_count :: "BlockNumber \<Rightarrow> BlockNumber" where
  "map_page_count n_lblknos = (n_lblknos + MAP_ENTRIES_PER_PAGE - 1) div MAP_ENTRIES_PER_PAGE"

definition max_pblk :: "BlockNumber \<Rightarrow> BlockNumber \<Rightarrow> BlockNumber" where
  "max_pblk m pblkno =
     (if pblkno = InvalidBlockNumber then m
      else if m = InvalidBlockNumber \<or> pblkno > m then pblkno else m)"

primrec physical_count_loop ::
  "BlockNumber list \<Rightarrow> nat \<Rightarrow> RelFileLocator \<Rightarrow> ForkNumber \<Rightarrow> BlockNumber \<Rightarrow> BlockNumber \<Rightarrow> BlockNumber \<Rightarrow>
   (nat \<times> BlockNumber) option \<Rightarrow> ('x map_buf_scheme, BlockNumber \<times> (nat \<times> BlockNumber) option) um" where
  "physical_count_loop [] c rnode f n_lblknos n_map_pages m cur = returnU (m, cur)"
| "physical_count_loop (page_idx # ps) c rnode f n_lblknos n_map_pages m cur =
     bindU (liftU (MapForkPageIndexToMapBlkno f page_idx)) (\<lambda>page_no.
       if page_no \<ge> n_map_pages then returnU (m, cur)
       else
         bindU (switch_page c rnode f page_no cur) (\<lambda>slot.
         bindU (getU (\<lambda>s. MapPageData s ! slot)) (\<lambda>page.
           let limit_idx = page_limit n_lblknos (map_page_count n_lblknos) page_idx;
               m' = foldl max_pblk m (take limit_idx page)
           in physical_count_loop ps c rnode f n_lblknos n_map_pages m' (Some (slot, page_no)))))"

definition MapGetPhysicalBlockCount ::
  "nat \<Rightarrow> RelFileLocator \<Rightarrow> ForkNumber \<Rightarrow> BlockNumber \<Rightarrow> ('x map_buf_scheme, BlockNumber) um" where
  "MapGetPhysicalBlockCount c rnode f n_lblknos =
     (if n_lblknos = 0 then returnU 0
      else
        bindU (umfile_ctx_fork_exists c UMBRA_METADATA_FORKNUM UMFILE_EXISTS_DENSE) (\<lambda>ex.
          if \<not> ex then returnU n_lblknos
          else
            bindU (umfile_ctx_get_nblocks c UMBRA_METADATA_FORKNUM UMFILE_NBLOCKS_DENSE) (\<lambda>n_map_pages.
              if n_map_pages = 0 then returnU 0
              else
                bindU (physical_count_loop (map of_nat [0..<unat (map_page_count n_lblknos)])
                         c rnode f n_lblknos n_map_pages InvalidBlockNumber None) (\<lambda>(m, cur).
                bindU (unpin_page cur) (\<lambda>_.
                  if m = InvalidBlockNumber then returnU 0
                  else if m = InvalidBlockNumber - 1 then throwU (ERROR, E_PROGRAM_LIMIT)
                  else returnU (m + 1))))))"


subsection \<open>Claiming an entry for a remap\<close>

record MapInflightBarrier =
  bar_slot_id :: nat
  bar_entry_idx :: nat

text \<open>A valid barrier is returned; \<^const>\<open>None\<close> is the answer false.\<close>

definition MapInflightTryClaimBarrier ::
  "nat \<Rightarrow> RelFileLocator \<Rightarrow> ForkNumber \<Rightarrow> BlockNumber \<Rightarrow> ('x map_buf_scheme, MapInflightBarrier option) um" where
  "MapInflightTryClaimBarrier c rnode f lblkno =
     bindU (local_find rnode f lblkno) (\<lambda>found.
       if found \<noteq> None then throwU (ERROR, E_INTERNAL)
       else
         bindU (liftU (MapInflightDecode f lblkno)) (\<lambda>(map_blkno, entry_idx).
         bindU (MapReadBuffer c rnode f map_blkno) (\<lambda>slot_id.
         bindU (MapInflightBufferTryClaim rnode f map_blkno slot_id entry_idx) (\<lambda>claimed.
           if \<not> claimed then bindU (MapUnpinBuffer slot_id) (\<lambda>_. returnU None)
           else returnU (Some \<lparr>bar_slot_id = slot_id, bar_entry_idx = entry_idx\<rparr>)))))"

definition MapInflightReleaseBarrier :: "MapInflightBarrier option \<Rightarrow> ('x map_buf_scheme, unit) um" where
  "MapInflightReleaseBarrier barrier =
     (case barrier of
        None \<Rightarrow> returnU ()
      | Some b \<Rightarrow> MapInflightBufferRelease (bar_slot_id b) (bar_entry_idx b))"

definition MapInflightTryClaim ::
  "nat \<Rightarrow> RelFileLocator \<Rightarrow> ForkNumber \<Rightarrow> BlockNumber \<Rightarrow> ('x map_buf_scheme, bool) um" where
  "MapInflightTryClaim c rnode f lblkno =
     bindU (local_find rnode f lblkno) (\<lambda>found.
       if found \<noteq> None then returnU False
       else
         bindU (liftU (MapInflightDecode f lblkno)) (\<lambda>(map_blkno, entry_idx).
         bindU (MapReadBuffer c rnode f map_blkno) (\<lambda>slot_id.
         bindU (MapInflightBufferTryClaim rnode f map_blkno slot_id entry_idx) (\<lambda>claimed.
           if \<not> claimed then bindU (MapUnpinBuffer slot_id) (\<lambda>_. returnU False)
           else
             bindU (modifyU (upd_backend (MapInflightLocalRememberPrepared rnode f lblkno
                      InvalidBlockNumber slot_id entry_idx))) (\<lambda>_.
             returnU True)))))"

subsection \<open>Preallocation\<close>

text \<open>What \<^verbatim>\<open>MapMaybePreallocateFork\<close> decides while it holds the entry's lock.\<close>

datatype prealloc_decision =
    PREALLOC_NO | PREALLOC_WAKE | PREALLOC_ERROR um_error | PREALLOC_GO BlockNumber

definition prealloc_decide ::
  "BlockNumber \<Rightarrow> BlockNumber \<Rightarrow> BlockNumber \<Rightarrow> bool \<Rightarrow> bool \<Rightarrow> BlockNumber \<Rightarrow> BlockNumber \<Rightarrow> prealloc_decision" where
  "prealloc_decide soft_low hard_low batch_blocks background_mode running nxt capacity =
     (let remaining = (if capacity > nxt then capacity - nxt else 0) in
      if nxt < soft_low then PREALLOC_NO
      else if remaining > soft_low then PREALLOC_NO
      else if \<not> background_mode \<and> remaining > hard_low then PREALLOC_WAKE
      else if running then (if background_mode then PREALLOC_NO else PREALLOC_WAKE)
      else
        let target64 = max (ucast capacity + ucast batch_blocks) (ucast nxt + ucast batch_blocks) :: u64 in
        if target64 > ucast (InvalidBlockNumber - 1) then PREALLOC_ERROR (ERROR, E_PROGRAM_LIMIT)
        else if ucast target64 \<le> capacity then PREALLOC_NO
        else PREALLOC_GO (ucast target64))"

definition clear_prealloc :: "ForkNumber \<Rightarrow> MapSuperEntry \<Rightarrow> um_error + MapSuperEntry" where
  "clear_prealloc f e = Inr (e\<lparr>runtime_flags := runtime_flags e AND NOT (MapSuperPreallocFlag f)\<rparr>)"

definition publish_prealloc ::
  "ForkNumber \<Rightarrow> bool \<Rightarrow> BlockNumber \<Rightarrow> XLogRecPtr \<Rightarrow> MapSuperEntry \<Rightarrow> um_error + MapSuperEntry" where
  "publish_prealloc f prealloc_ok target_nblocks lsn e =
     bindE (if prealloc_ok \<and> in_use e \<and> has_flag (flags e) MAPSUPER_FLAG_VALID
            then bindE (MapSuperblockGetPhysCapacity (super e) f) (\<lambda>raw.
                   if MapNormalizeForkBlockCount f raw < target_nblocks
                   then bindE (MapSuperblockSetPhysCapacity (super e) f target_nblocks) (\<lambda>sb.
                          Inr (e\<lparr>super := MapSuperblockSetLastUpdatedLSN sb lsn, page_lsn := lsn,
                                 flags := flags e OR MAPSUPER_FLAG_DIRTY\<rparr>))
                   else Inr e)
            else Inr e) (clear_prealloc f)"

definition on_entry ::
  "RelFileLocator \<Rightarrow> (MapSuperEntry \<Rightarrow> um_error + MapSuperEntry) \<Rightarrow> ('x map_sb_scheme, unit) um" where
  "on_entry rnode u =
     bindU (MapSuperFindEntryLocked rnode) (\<lambda>found.
       case found of None \<Rightarrow> returnU () | Some slot \<Rightarrow> updE slot u)"

definition MapMaybePreallocateFork ::
  "MapPreallocGucs \<Rightarrow> bool \<Rightarrow> nat \<Rightarrow> RelFileLocator \<Rightarrow> ForkNumber \<Rightarrow> bool \<Rightarrow> ('x map_buf_scheme, bool) um" where
  "MapMaybePreallocateFork g supported c rnode f background_mode =
     (if \<not> MapForkHasMappedState f then returnU False
      else case MapForkPreallocSettings g f of
        None \<Rightarrow> returnU False
      | Some (soft_low, hard_low, batch_blocks) \<Rightarrow>
          bindU (MapSBlockEnsureLoaded c rnode) (\<lambda>loaded.
          if \<not> loaded then returnU False
          else bindU (MapSuperFindEntryLocked rnode) (\<lambda>found.
          case found of
            None \<Rightarrow> returnU False
          | Some slot \<Rightarrow>
              bindU (getE slot) (\<lambda>e.
              bindU (getU InRecovery) (\<lambda>rec.
                if \<not> in_use e \<or> \<not> has_flag (flags e) MAPSUPER_FLAG_VALID then returnU False
                else if entry_untrusted e
                then (if \<not> rec then MapSBlockReportCorrupt rnode else returnU False)
                else
                  bindU (liftU (MapSuperGetReservedNextFree e f)) (\<lambda>nxt.
                  bindU (liftU (MapSuperblockGetPhysCapacity (super e) f)) (\<lambda>raw.
                  case prealloc_decide soft_low hard_low batch_blocks background_mode
                         (has_flag (runtime_flags e) (MapSuperPreallocFlag f)) nxt
                         (MapNormalizeForkBlockCount f raw) of
                    PREALLOC_NO \<Rightarrow> returnU False
                  | PREALLOC_WAKE \<Rightarrow> bindU MapWakeWriter (\<lambda>_. returnU False)
                  | PREALLOC_ERROR err \<Rightarrow> throwU err
                  | PREALLOC_GO target_nblocks \<Rightarrow>
                      bindU (updE slot (\<lambda>e. Inr (e\<lparr>runtime_flags := runtime_flags e OR MapSuperPreallocFlag f\<rparr>))) (\<lambda>_.
                      bindU (catchU
                               (bindU (umfile_ctx_fork_exists c f UMFILE_EXISTS_SPARSE) (\<lambda>ex.
                                  if ex then umfile_ctx_preallocate_blocks supported c f UMFILE_NBLOCKS_SPARSE
                                               target_nblocks False
                                  else returnU False))
                               (on_entry rnode (clear_prealloc f))) (\<lambda>prealloc_ok.
                      bindU (getU XLogWriteRecPtr) (\<lambda>lsn.
                      bindU (on_entry rnode (publish_prealloc f prealloc_ok target_nblocks lsn)) (\<lambda>_.
                      bindU (whenU (\<not> background_mode \<and> \<not> prealloc_ok) MapWakeWriter) (\<lambda>_.
                      returnU prealloc_ok))))))))))))"


subsection \<open>Reserving physical blocks\<close>

text \<open>The body of the \<^verbatim>\<open>PG_TRY\<close> block: \<^const>\<open>None\<close> when nothing was reserved.\<close>

definition reserve_from_entry ::
  "RelFileLocator \<Rightarrow> ForkNumber \<Rightarrow> BlockNumber \<Rightarrow> bool \<Rightarrow> bool \<Rightarrow> ('x map_buf_scheme, BlockNumber option) um" where
  "reserve_from_entry rnode f lblkno nowait busy =
     bindU (if nowait then MapSuperFindEntryTryLocked busy rnode else MapSuperFindEntryLocked rnode) (\<lambda>found.
       case found of
         None \<Rightarrow> returnU None
       | Some slot \<Rightarrow>
           bindU (getE slot) (\<lambda>e.
           bindU (getU InRecovery) (\<lambda>rec.
             if entry_untrusted e
             then (if \<not> rec then MapSBlockReportCorrupt rnode else returnU None)
             else
               bindU (liftU (MapSuperGetReservedNextFree e f)) (\<lambda>nxt.
                 if nxt = InvalidBlockNumber - 1 then throwU (ERROR, E_PROGRAM_LIMIT)
                 else
                   bindU (updE slot (\<lambda>e. MapSuperSetReservedNextFree e f (nxt + 1))) (\<lambda>_.
                   bindU (MapInflightFinishClaim rnode f lblkno nxt) (\<lambda>_.
                   returnU (Some nxt)))))))"

definition MapTryReserveFreshPblknoInternal ::
  "bool \<Rightarrow> nat \<Rightarrow> RelFileLocator \<Rightarrow> ForkNumber \<Rightarrow> BlockNumber \<Rightarrow> bool \<Rightarrow>
   ('x map_buf_scheme, BlockNumber option) um" where
  "MapTryReserveFreshPblknoInternal busy c rnode f lblkno nowait =
     (if \<not> MapForkHasMappedState f then returnU None
      else
        bindU (MapSBlockEnsureLoaded c rnode) (\<lambda>loaded.
          if \<not> loaded then returnU None
          else
            bindU (MapInflightTryClaim c rnode f lblkno) (\<lambda>claimed.
              if \<not> claimed then returnU None
              else
                bindU (catchU (reserve_from_entry rnode f lblkno nowait busy)
                         (MapInflightRelease rnode f lblkno)) (\<lambda>reserved.
                bindU (whenU (reserved = None) (MapInflightRelease rnode f lblkno)) (\<lambda>_.
                returnU reserved)))))"

definition MapTryReserveFreshPblkno ::
  "bool \<Rightarrow> nat \<Rightarrow> RelFileLocator \<Rightarrow> ForkNumber \<Rightarrow> BlockNumber \<Rightarrow> bool \<Rightarrow>
   ('x map_buf_scheme, BlockNumber option) um" where
  "MapTryReserveFreshPblkno busy c rnode f lblkno nowait =
     MapTryReserveFreshPblknoInternal busy c rnode f lblkno nowait"

definition MAP_PENDING_WAIT_RETRIES :: nat where "MAP_PENDING_WAIT_RETRIES = 10000"

primrec wait_inflight_loop ::
  "nat \<Rightarrow> (nat \<Rightarrow> 'x map_buf_scheme \<Rightarrow> 'x map_buf_scheme) \<Rightarrow> RelFileLocator \<Rightarrow> ForkNumber \<Rightarrow> BlockNumber \<Rightarrow> nat \<Rightarrow>
   ('x map_buf_scheme, bool) um" where
  "wait_inflight_loop 0 yield rnode f lblkno wait_retries = throwU (ERROR, E_LOCK_NOT_AVAILABLE)"
| "wait_inflight_loop (Suc n) yield rnode f lblkno wait_retries =
     bindU (MapInflightBitIsSet rnode f lblkno) (\<lambda>set.
       if \<not> set then returnU (wait_retries > 0)
       else
         bindU (modifyU (yield wait_retries)) (\<lambda>_.
           if wait_retries + 1 \<ge> MAP_PENDING_WAIT_RETRIES then throwU (ERROR, E_LOCK_NOT_AVAILABLE)
           else wait_inflight_loop n yield rnode f lblkno (wait_retries + 1)))"

definition MapWaitForForeignInflightToClear ::
  "(nat \<Rightarrow> 'x map_buf_scheme \<Rightarrow> 'x map_buf_scheme) \<Rightarrow> RelFileLocator \<Rightarrow> ForkNumber \<Rightarrow> BlockNumber \<Rightarrow>
   ('x map_buf_scheme, bool) um" where
  "MapWaitForForeignInflightToClear yield rnode f lblkno =
     wait_inflight_loop MAP_PENDING_WAIT_RETRIES yield rnode f lblkno 0"

definition MapReserveNextPblkno ::
  "bool \<Rightarrow> nat \<Rightarrow> RelFileLocator \<Rightarrow> ForkNumber \<Rightarrow> BlockNumber \<Rightarrow> bool \<Rightarrow>
   ('x map_buf_scheme, BlockNumber option) um" where
  "MapReserveNextPblkno busy c rnode f lblkno nowait =
     bindU (MapInflightLookupOwnedPblk rnode f lblkno) (\<lambda>owned.
       if owned \<noteq> None then returnU owned
       else
         bindU (MapTryReserveFreshPblknoInternal busy c rnode f lblkno nowait) (\<lambda>fresh.
           if fresh \<noteq> None then returnU fresh
           else MapInflightLookupOwnedPblk rnode f lblkno))"

definition MapReserveFreshPblkno ::
  "MapPreallocGucs \<Rightarrow> bool \<Rightarrow> nat \<Rightarrow> RelFileLocator \<Rightarrow> ForkNumber \<Rightarrow> BlockNumber \<Rightarrow>
   ('x map_buf_scheme, BlockNumber option) um" where
  "MapReserveFreshPblkno g supported c rnode f lblkno =
     bindU (MapReserveNextPblkno False c rnode f lblkno False) (\<lambda>r.
     bindU (getU InRecovery) (\<lambda>rec.
     bindU (whenU (r \<noteq> None \<and> \<not> rec)
              (bindU (MapMaybePreallocateFork g supported c rnode f False) (\<lambda>_. returnU ()))) (\<lambda>_.
     returnU r)))"

text \<open>The result is the pair of the old and the new physical block. \<open>rounds\<close> bounds how often the
  caller loses to another backend and tries again.\<close>

primrec new_pblkno_loop ::
  "nat \<Rightarrow> (nat \<Rightarrow> 'x map_buf_scheme \<Rightarrow> 'x map_buf_scheme) \<Rightarrow> nat \<Rightarrow> RelFileLocator \<Rightarrow> ForkNumber \<Rightarrow> BlockNumber \<Rightarrow>
   ('x map_buf_scheme, BlockNumber \<times> BlockNumber) um" where
  "new_pblkno_loop 0 yield c rnode f lblkno = throwU (ERROR, E_WAIT)"
| "new_pblkno_loop (Suc n) yield c rnode f lblkno =
     bindU (MapTryLookup c rnode f lblkno) (\<lambda>cur.
     bindU (MapReserveNextPblkno False c rnode f lblkno False) (\<lambda>r.
       case r of
         Some new_pblkno \<Rightarrow>
           returnU (case cur of None \<Rightarrow> InvalidBlockNumber | Some p \<Rightarrow> p, new_pblkno)
       | None \<Rightarrow>
           bindU (MapWaitForForeignInflightToClear yield rnode f lblkno) (\<lambda>waited.
             if \<not> waited then throwU (ERROR, E_INTERNAL)
             else new_pblkno_loop n yield c rnode f lblkno)))"

definition MapGetNewPbkno ::
  "nat \<Rightarrow> (nat \<Rightarrow> 'x map_buf_scheme \<Rightarrow> 'x map_buf_scheme) \<Rightarrow> MapPreallocGucs \<Rightarrow> bool \<Rightarrow> nat \<Rightarrow>
   RelFileLocator \<Rightarrow> ForkNumber \<Rightarrow> BlockNumber \<Rightarrow> ('x map_buf_scheme, BlockNumber \<times> BlockNumber) um" where
  "MapGetNewPbkno rounds yield g supported c rnode f lblkno =
     bindU (getU InRecovery) (\<lambda>rec.
       if rec \<and> f = MAIN_FORKNUM then throwU (PANIC, E_INTERNAL)
       else
         bindU (new_pblkno_loop rounds yield c rnode f lblkno) (\<lambda>r.
         bindU (whenU (\<not> rec)
                  (bindU (MapMaybePreallocateFork g supported c rnode f False) (\<lambda>_. returnU ()))) (\<lambda>_.
         returnU r)))"

subsection \<open>Publishing a mapping\<close>

definition set_page_entry :: "nat \<Rightarrow> nat \<Rightarrow> BlockNumber \<Rightarrow> ('x map_buf_scheme, unit) um" where
  "set_page_entry slot_id entry_idx v = modifyU (\<lambda>s.
     s\<lparr>MapPageData := (MapPageData s)[slot_id := (MapPageData s ! slot_id)[entry_idx := v]]\<rparr>)"

definition MapSetMapping ::
  "nat \<Rightarrow> RelFileLocator \<Rightarrow> ForkNumber \<Rightarrow> BlockNumber \<Rightarrow> BlockNumber \<Rightarrow> XLogRecPtr \<Rightarrow>
   ('x map_buf_scheme, unit) um" where
  "MapSetMapping c rnode f lblkno new_pblkno map_lsn =
     bindU (liftU (MapInflightDecode f lblkno)) (\<lambda>(map_blkno, entry_idx).
     bindU (MapReadBuffer c rnode f map_blkno) (\<lambda>slot_id.
     bindU (set_page_entry slot_id entry_idx new_pblkno) (\<lambda>_.
     bindU (resolve_lsn map_lsn) (\<lambda>lsn.
     bindU (MapMarkBufferDirty c slot_id lsn) (\<lambda>_.
     MapUnpinBuffer slot_id)))))"


subsection \<open>Truncation\<close>

definition clear_entries :: "nat \<Rightarrow> nat \<Rightarrow> block \<Rightarrow> block" where
  "clear_entries begin_idx last_idx page =
     take begin_idx page @ replicate (last_idx + 1 - begin_idx) InvalidBlockNumber @ drop (last_idx + 1) page"

definition truncate_pages :: "MapTruncateRange \<Rightarrow> BlockNumber list" where
  "truncate_pages r = map of_nat [unat (start_map_page r)..<Suc (unat (end_map_page r))]"

primrec truncate_loop ::
  "BlockNumber list \<Rightarrow> MapTruncateRange \<Rightarrow> nat \<Rightarrow> RelFileLocator \<Rightarrow> ForkNumber \<Rightarrow> XLogRecPtr \<Rightarrow>
   ('x map_buf_scheme, unit) um" where
  "truncate_loop [] r c rnode f map_lsn = returnU ()"
| "truncate_loop (page_idx # ps) r c rnode f map_lsn =
     bindU (liftU (MapForkPageIndexToMapBlkno f page_idx)) (\<lambda>map_blkno.
     bindU (umfile_ctx_get_nblocks c UMBRA_METADATA_FORKNUM UMFILE_NBLOCKS_DENSE) (\<lambda>nblocks.
       if map_blkno \<ge> nblocks then returnU ()
       else
         bindU (MapReadBuffer c rnode f map_blkno) (\<lambda>slot_id.
         let begin_idx = (if page_idx = start_map_page r then start_entry_idx r else 0);
             last_idx = (if page_idx = end_map_page r then end_entry_idx r
                         else unat MAP_ENTRIES_PER_PAGE - 1)
         in
         bindU (getU (\<lambda>s. MapPageData s ! slot_id)) (\<lambda>page.
         bindU (set_page slot_id
                  (if begin_idx = 0 \<and> last_idx = unat MAP_ENTRIES_PER_PAGE - 1
                   then replicate (unat MAP_ENTRIES_PER_PAGE) InvalidBlockNumber
                   else clear_entries begin_idx last_idx page)) (\<lambda>_.
         bindU (MapMarkBufferDirty c slot_id map_lsn) (\<lambda>_.
         bindU (MapUnpinBuffer slot_id) (\<lambda>_.
         truncate_loop ps r c rnode f map_lsn)))))))"

definition MapTruncate ::
  "nat \<Rightarrow> RelFileLocator \<Rightarrow> ForkNumber \<Rightarrow> BlockNumber \<Rightarrow> XLogRecPtr \<Rightarrow> ('x map_buf_scheme, unit) um" where
  "MapTruncate c rnode f n_lblknos map_lsn =
     (if f = UMBRA_METADATA_FORKNUM then returnU ()
      else if map_lsn = InvalidXLogRecPtr then throwU (ERROR, E_DATA_CORRUPTED)
      else
        bindU (umfile_ctx_fork_exists c UMBRA_METADATA_FORKNUM UMFILE_EXISTS_DENSE) (\<lambda>ex.
          if \<not> ex then throwU (ERROR, E_DATA_CORRUPTED)
          else
            bindU (MapSBlockTryGetLogicalNblocks c rnode f) (\<lambda>got.
              case got of
                None \<Rightarrow> returnU ()
              | Some old_n_lblknos \<Rightarrow>
                  case MapTruncateEntryRange f n_lblknos old_n_lblknos of
                    None \<Rightarrow> returnU ()
                  | Some r \<Rightarrow> truncate_loop (truncate_pages r) r c rnode f map_lsn)))"

primrec preload_loop ::
  "BlockNumber list \<Rightarrow> nat \<Rightarrow> RelFileLocator \<Rightarrow> ForkNumber \<Rightarrow> ('x map_buf_scheme, unit) um" where
  "preload_loop [] c rnode f = returnU ()"
| "preload_loop (page_idx # ps) c rnode f =
     bindU (liftU (MapForkPageIndexToMapBlkno f page_idx)) (\<lambda>map_blkno.
     bindU (umfile_ctx_get_nblocks c UMBRA_METADATA_FORKNUM UMFILE_NBLOCKS_DENSE) (\<lambda>nblocks.
       if map_blkno \<ge> nblocks then returnU ()
       else
         bindU (MapReadBuffer c rnode f map_blkno) (\<lambda>slot_id.
         bindU (upd_preload f (\<lambda>st. st\<lparr>preload_slots := preload_slots st @ [slot_id]\<rparr>)) (\<lambda>_.
         preload_loop ps c rnode f))))"

definition MapPreloadTruncatePages ::
  "nat \<Rightarrow> RelFileLocator \<Rightarrow> ForkNumber \<Rightarrow> BlockNumber \<Rightarrow> ('x map_buf_scheme, unit) um" where
  "MapPreloadTruncatePages c rnode f n_lblknos =
     (if f = UMBRA_METADATA_FORKNUM then returnU ()
      else
        bindU (umfile_ctx_fork_exists c UMBRA_METADATA_FORKNUM UMFILE_EXISTS_DENSE) (\<lambda>ex.
          if \<not> ex then returnU ()
          else
            bindU (MapSBlockTryGetLogicalNblocks c rnode f) (\<lambda>got.
              case got of
                None \<Rightarrow> returnU ()
              | Some old_n_lblknos \<Rightarrow>
                  case MapTruncateEntryRange f n_lblknos old_n_lblknos of
                    None \<Rightarrow> returnU ()
                  | Some r \<Rightarrow>
                      bindU (MapTruncatePreloadEntry rnode f) (\<lambda>_.
                      bindU (MapTruncatePreloadResetEntry f) (\<lambda>_.
                      bindU (upd_preload f (\<lambda>st. st\<lparr>preload_active := True, preload_rnode := rnode,
                               preload_forknum := f\<rparr>)) (\<lambda>_.
                      preload_loop (truncate_pages r) c rnode f))))))"

definition MapReleasePreloadedTruncatePages ::
  "RelFileLocator \<Rightarrow> ForkNumber \<Rightarrow> ('x map_buf_scheme, unit) um" where
  "MapReleasePreloadedTruncatePages rnode f =
     bindU (getU (\<lambda>s. MapTruncatePreload (MyBackend s) f)) (\<lambda>st.
       if \<not> preload_active st then returnU ()
       else if \<not> RelFileLocatorEquals (preload_rnode st) rnode \<or> preload_forknum st \<noteq> f then returnU ()
       else MapTruncatePreloadResetEntry f)"

subsection \<open>Invalidation\<close>

definition MapReclaimInitFileTag :: "RelFileLocator \<Rightarrow> ForkNumber \<Rightarrow> BlockNumber \<Rightarrow> FileTag" where
  "MapReclaimInitFileTag rnode f segno = (rnode, f, unat segno)"

definition RegisterSyncRequest :: "sync_request \<Rightarrow> ('x um_fs_scheme, bool) um" where
  "RegisterSyncRequest req =
     bindU (modifyU (\<lambda>s. s\<lparr>um_sync := um_sync s @ [req]\<rparr>)) (\<lambda>_. returnU True)"

definition MapReclaimRegisterRelationFilterRequest :: "RelFileLocator \<Rightarrow> ('x map_buf_scheme, unit) um" where
  "MapReclaimRegisterRelationFilterRequest rnode =
     bindU (RegisterSyncRequest (SYNC_FILTER_REQUEST
              (MapReclaimInitFileTag rnode InvalidForkNumber InvalidBlockNumber))) (\<lambda>_. returnU ())"

definition MapReclaimForgetRelation :: "RelFileLocator \<Rightarrow> ('x map_buf_scheme, unit) um" where
  "MapReclaimForgetRelation rnode = MapReclaimRegisterRelationFilterRequest rnode"

text \<open>The step both invalidation scans take at a slot that \<open>P\<close> selects.\<close>

definition invalidate_slot :: "(RelFileLocator \<Rightarrow> bool) \<Rightarrow> nat \<Rightarrow> ('x map_buf_scheme, unit) um" where
  "invalidate_slot P slot_id =
     bindU (getB slot_id) (\<lambda>b.
       case page_number b of
         None \<Rightarrow> returnU ()
       | Some n \<Rightarrow>
           if \<not> P (buf_rnode b) then returnU ()
           else
             bindU (MapCacheDelete (buf_rnode b) (buf_forknum b) n slot_id) (\<lambda>_.
             MapInvalidateBuffer slot_id (buf_rnode b) (buf_forknum b) n))"

definition MapInvalidateRelation :: "RelFileLocator \<Rightarrow> ('x map_buf_scheme, unit) um" where
  "MapInvalidateRelation rnode =
     bindU (getU (\<lambda>s. num_slots s)) (\<lambda>n.
     bindU (forU [0..<n] (invalidate_slot (\<lambda>r. RelFileLocatorEquals r rnode))) (\<lambda>_.
     bindU (MapSuperDeleteEntry rnode) (\<lambda>_.
     MapReclaimForgetRelation rnode)))"

definition MapDrop :: "RelFileLocator \<Rightarrow> bool \<Rightarrow> ('x map_buf_scheme, unit) um" where
  "MapDrop rnode IsBinaryUpgrade =
     bindU (MapInvalidateRelation rnode) (\<lambda>_.
     umfile_ctx_unlinkfork (shared_rlocator rnode) UMBRA_METADATA_FORKNUM False IsBinaryUpgrade)"

definition MapInvalidateDatabaseTablespaces :: "Oid \<Rightarrow> Oid list \<Rightarrow> ('x map_buf_scheme, unit) um" where
  "MapInvalidateDatabaseTablespaces dbid tablespace_ids =
     (let P = (\<lambda>r. dbOid r = dbid \<and> MapTablespaceSelected (spcOid r) tablespace_ids) in
      bindU (getU (\<lambda>s. num_slots s)) (\<lambda>n.
      bindU (forU [0..<n] (invalidate_slot P)) (\<lambda>_.
      bindU (getU (\<lambda>s. map key (filter (\<lambda>e. in_use e \<and> P (key e)) (MapSuperEntries s)))) (\<lambda>targets.
      forU targets (\<lambda>r. bindU (MapSuperDeleteEntry r) (\<lambda>_. MapReclaimForgetRelation r))))))"

definition MapInvalidateDatabase :: "Oid \<Rightarrow> ('x map_buf_scheme, unit) um" where
  "MapInvalidateDatabase dbid = MapInvalidateDatabaseTablespaces dbid []"

end
