(* ===== verification/UmbraWal.thy ===== *)
theory UmbraWal
  imports MapCore
begin

text \<open>
  The WAL records of Umbra (\<^verbatim>\<open>src/include/access/umbra_xlog.h\<close>) and the functions that insert them
  (\<^verbatim>\<open>src/backend/access/transam/umbra_xlog.c\<close>). The log is the list of inserted records, each with
  the LSN of its end; how many bytes a record takes is the field \<open>XLogRecordSize\<close>. The state also
  has the two scan cursors and the checkpoint-delay flag of the background processes.
\<close>

datatype umbra_wal =
    XLOG_UMBRA_MAP_SET RelFileLocator ForkNumber BlockNumber BlockNumber BlockNumber
  | XLOG_UMBRA_RANGE_REMAP RelFileLocator ForkNumber "(BlockNumber \<times> BlockNumber) list"
  | XLOG_UMBRA_RANGE_REMAP_COMPACT RelFileLocator ForkNumber BlockNumber BlockNumber "16 word"
  | XLOG_UMBRA_SKIP_WAL_DENSE_MAP RelFileLocator "(ForkNumber \<times> BlockNumber) list"
  | XLOG_UMBRA_RECLAIM_UNLINK RelFileLocator ForkNumber BlockNumber

record map_wal = map_buf +
  XLogRecords :: "(umbra_wal \<times> XLogRecPtr) list"
  XLogInsertRecPtr :: XLogRecPtr
  XLogRecordSize :: "umbra_wal \<Rightarrow> u64"
  delayChkptStart :: bool
  prealloc_scan_slot :: nat
  compactor_scan_slot :: nat

definition XLogInsert :: "umbra_wal \<Rightarrow> ('x map_wal_scheme, XLogRecPtr) um" where
  "XLogInsert rec =
     bindU (getU (\<lambda>s. XLogInsertRecPtr s + XLogRecordSize s rec)) (\<lambda>lsn.
     bindU (modifyU (\<lambda>s. s\<lparr>XLogRecords := XLogRecords s @ [(rec, lsn)], XLogInsertRecPtr := lsn\<rparr>)) (\<lambda>_.
     returnU lsn))"

definition log_umbra_map_set ::
  "RelFileLocator \<Rightarrow> ForkNumber \<Rightarrow> BlockNumber \<Rightarrow> BlockNumber \<Rightarrow> BlockNumber \<Rightarrow> ('x map_wal_scheme, XLogRecPtr) um" where
  "log_umbra_map_set rlocator f lblkno old_pblkno new_pblkno =
     XLogInsert (XLOG_UMBRA_MAP_SET rlocator f lblkno old_pblkno new_pblkno)"

text \<open>\<open>count\<close> is the length of \<open>entries\<close>; the record repeats the last logical block as \<open>end_lblkno\<close>.\<close>

definition log_umbra_range_remap ::
  "RelFileLocator \<Rightarrow> ForkNumber \<Rightarrow> (BlockNumber \<times> BlockNumber) list \<Rightarrow> ('x map_wal_scheme, XLogRecPtr) um" where
  "log_umbra_range_remap rlocator f entries = XLogInsert (XLOG_UMBRA_RANGE_REMAP rlocator f entries)"

definition log_umbra_range_remap_compact ::
  "RelFileLocator \<Rightarrow> ForkNumber \<Rightarrow> BlockNumber \<Rightarrow> BlockNumber \<Rightarrow> 16 word \<Rightarrow> ('x map_wal_scheme, XLogRecPtr) um" where
  "log_umbra_range_remap_compact rlocator f first_lblkno first_pblkno count =
     XLogInsert (XLOG_UMBRA_RANGE_REMAP_COMPACT rlocator f first_lblkno first_pblkno count)"

definition log_umbra_skip_wal_dense_map ::
  "RelFileLocator \<Rightarrow> (ForkNumber \<times> BlockNumber) list \<Rightarrow> ('x map_wal_scheme, XLogRecPtr) um" where
  "log_umbra_skip_wal_dense_map rlocator entries =
     XLogInsert (XLOG_UMBRA_SKIP_WAL_DENSE_MAP rlocator entries)"

definition log_umbra_reclaim_unlink ::
  "RelFileLocator \<Rightarrow> ForkNumber \<Rightarrow> BlockNumber \<Rightarrow> ('x map_wal_scheme, XLogRecPtr) um" where
  "log_umbra_reclaim_unlink rlocator f segno = XLogInsert (XLOG_UMBRA_RECLAIM_UNLINK rlocator f segno)"

end
