(* ===== verification/MapBgproc.thy ===== *)
theory MapBgproc
  imports UmbraWal "HOL-Library.AList"
begin

text \<open>
  Background maintenance of the MAP (\<^verbatim>\<open>src/backend/storage/map/mapbgproc.c\<close>): the preallocation
  scan, the compactor's analysis of a fork and relocation of single entries, the advance of the
  reclaim boundary and the queueing of segments for removal.

  The settings of the compactor are the record \<open>MapCompactorGucs\<close>. Which locks other backends hold
  while a step runs is the record \<open>contention\<close>: a conditional acquisition fails exactly there. The
  two hash tables of the analysis are association lists; the order in which \<^verbatim>\<open>hash_seq_search\<close>
  enumerates them only affects the order of counting.
\<close>

record MapCompactorGucs =
  map_compactor_enable :: bool
  map_compactor_extent_blocks :: int
  map_compactor_low_live_percent :: int
  map_compactor_max_moves :: int

record contention =
  page_locked :: "BlockNumber \<Rightarrow> bool"
  entry_locked :: "RelFileLocator \<Rightarrow> bool"

subsection \<open>Boundaries\<close>

definition MapSegmentFullyBelowReclaimBoundary :: "BlockNumber \<Rightarrow> BlockNumber \<Rightarrow> bool" where
  "MapSegmentFullyBelowReclaimBoundary boundary_pblk segno \<longleftrightarrow>
     (ucast segno + 1) * of_nat RELSEG_SIZE \<le> (ucast boundary_pblk :: u64)"

definition MapExtentFullyBelowReclaimBoundary :: "BlockNumber \<Rightarrow> BlockNumber \<Rightarrow> BlockNumber \<Rightarrow> bool" where
  "MapExtentFullyBelowReclaimBoundary boundary_pblk extent_no extent_blocks \<longleftrightarrow>
     extent_blocks \<noteq> 0 \<and> (ucast extent_no + 1) * ucast extent_blocks \<le> (ucast boundary_pblk :: u64)"

function MapCompactorAdvanceBoundaryFromSet ::
  "BlockNumber \<Rightarrow> BlockNumber \<Rightarrow> BlockNumber list \<Rightarrow> BlockNumber" where
  "MapCompactorAdvanceBoundaryFromSet boundary_pblk next_free_pblk committed_pblks =
     (if boundary_pblk < next_free_pblk \<and> boundary_pblk \<in> set committed_pblks
      then MapCompactorAdvanceBoundaryFromSet (boundary_pblk + 1) next_free_pblk committed_pblks
      else boundary_pblk)"
  by pat_completeness auto
termination
proof (relation "measure (\<lambda>(b, n, _). unat n - unat b)", goal_cases)
  case (2 b n S)
  then have less: "unat b < unat n" by (simp add: word_less_nat_alt)
  then have "Suc (unat b) < 4294967296" using unat_u32_bound [of n] by linarith
  then have "unat (b + 1) = Suc (unat b)" by (simp add: unat_word_ariths)
  then show ?case using less by simp
qed simp

declare MapCompactorAdvanceBoundaryFromSet.simps [simp del]

definition MapForkNeedsPrealloc ::
  "MapPreallocGucs \<Rightarrow> MapSuperEntry \<Rightarrow> ForkNumber \<Rightarrow> bool \<Rightarrow> um_error + bool" where
  "MapForkNeedsPrealloc g e f background_mode =
     (if \<not> MapForkHasMappedState f then Inr False
      else case MapForkPreallocSettings g f of
        None \<Rightarrow> Inr False
      | Some (soft_low, hard_low, batch_blocks) \<Rightarrow>
          bindE (MapSuperForkExists (super e) f) (\<lambda>ex.
          if \<not> ex then Inr False
          else
            bindE (MapSuperGetReservedNextFree e f) (\<lambda>nxt.
            bindE (MapSuperblockGetPhysCapacity (super e) f) (\<lambda>raw.
              let capacity = MapNormalizeForkBlockCount f raw;
                  remaining = (if capacity > nxt then capacity - nxt else 0)
              in if nxt < soft_low then Inr False
                 else if remaining > soft_low then Inr False
                 else if \<not> background_mode \<and> remaining > hard_low then Inr False
                 else if has_flag (runtime_flags e) (MapSuperPreallocFlag f) then Inr False
                 else Inr True))))"

subsection \<open>Live references\<close>

primrec live_ref_loop ::
  "BlockNumber list \<Rightarrow> nat \<Rightarrow> RelFileLocator \<Rightarrow> ForkNumber \<Rightarrow> BlockNumber \<Rightarrow> BlockNumber \<Rightarrow> BlockNumber \<Rightarrow>
   (nat \<times> BlockNumber) option \<Rightarrow> ('x map_buf_scheme, bool) um" where
  "live_ref_loop [] c rnode f n_lblknos n_map_pages segno cur =
     bindU (unpin_page cur) (\<lambda>_. returnU False)"
| "live_ref_loop (page_idx # ps) c rnode f n_lblknos n_map_pages segno cur =
     bindU (liftU (MapForkPageIndexToMapBlkno f page_idx)) (\<lambda>page_no.
       if page_no \<ge> n_map_pages then bindU (unpin_page cur) (\<lambda>_. returnU False)
       else
         bindU (switch_page c rnode f page_no cur) (\<lambda>slot.
         bindU (getU (\<lambda>s. MapPageData s ! slot)) (\<lambda>page.
           let limit_idx = page_limit n_lblknos (map_page_count n_lblknos) page_idx
           in if list_ex (\<lambda>p. p \<noteq> InvalidBlockNumber \<and> p div of_nat RELSEG_SIZE = segno) (take limit_idx page)
              then bindU (MapUnpinBuffer slot) (\<lambda>_. returnU True)
              else live_ref_loop ps c rnode f n_lblknos n_map_pages segno (Some (slot, page_no)))))"

definition MapSegmentHasLiveReferences ::
  "nat \<Rightarrow> RelFileLocator \<Rightarrow> ForkNumber \<Rightarrow> BlockNumber \<Rightarrow> ('x map_buf_scheme, bool) um" where
  "MapSegmentHasLiveReferences c rnode f segno =
     bindU (MapSBlockTryGetLogicalNblocks c rnode f) (\<lambda>got.
       case got of
         None \<Rightarrow> returnU False
       | Some n_lblknos \<Rightarrow>
           if n_lblknos = 0 then returnU False
           else
             bindU (umfile_ctx_fork_exists c UMBRA_METADATA_FORKNUM UMFILE_EXISTS_DENSE) (\<lambda>ex.
               if \<not> ex then returnU False
               else
                 bindU (umfile_ctx_get_nblocks c UMBRA_METADATA_FORKNUM UMFILE_NBLOCKS_DENSE) (\<lambda>n_map_pages.
                   if n_map_pages = 0 then returnU False
                   else live_ref_loop (map of_nat [0..<unat (map_page_count n_lblknos)])
                          c rnode f n_lblknos n_map_pages segno None)))"

subsection \<open>Reclaim requests\<close>

definition MapReclaimRegisterUnlinkRequest ::
  "RelFileLocator \<Rightarrow> ForkNumber \<Rightarrow> BlockNumber \<Rightarrow> ('x map_buf_scheme, bool) um" where
  "MapReclaimRegisterUnlinkRequest rnode f segno =
     RegisterSyncRequest (SYNC_RECLAIM_REQUEST (MapReclaimInitFileTag rnode f segno))"

definition MapReclaimEnqueueSegment ::
  "nat \<Rightarrow> RelFileLocator \<Rightarrow> ForkNumber \<Rightarrow> BlockNumber \<Rightarrow> ('x map_buf_scheme, bool) um" where
  "MapReclaimEnqueueSegment c rnode f segno =
     bindU (MapSBlockTryGetReclaimBoundary c rnode f) (\<lambda>got.
       case got of
         None \<Rightarrow> returnU False
       | Some boundary \<Rightarrow>
           if \<not> MapSegmentFullyBelowReclaimBoundary boundary segno then returnU False
           else
             bindU (MapReclaimRegisterUnlinkRequest rnode f segno) (\<lambda>ok.
               if \<not> ok then returnU False
               else bindU (MapStatsAddReclaimEnqueued 1) (\<lambda>_. returnU True)))"

definition MapReclaimEnqueue ::
  "nat \<Rightarrow> RelFileLocator \<Rightarrow> ForkNumber \<Rightarrow> BlockNumber \<Rightarrow> BlockNumber \<Rightarrow> ('x map_buf_scheme, bool) um" where
  "MapReclaimEnqueue c rnode f extent_no extent_blocks =
     (if extent_blocks = 0 then returnU False
      else
        let start64 = (ucast extent_no * ucast extent_blocks :: u64) in
        if start64 > ucast MaxBlockNumber then returnU False
        else MapReclaimEnqueueSegment c rnode f (ucast start64 div of_nat RELSEG_SIZE))"


subsection \<open>The preallocation scan\<close>

definition prealloc_if ::
  "MapPreallocGucs \<Rightarrow> bool \<Rightarrow> nat \<Rightarrow> RelFileLocator \<Rightarrow> bool \<Rightarrow> ForkNumber \<Rightarrow> int \<Rightarrow> ('x map_buf_scheme, int) um" where
  "prealloc_if g supported c rnode wanted f ops =
     (if \<not> wanted then returnU ops
      else bindU (MapMaybePreallocateFork g supported c rnode f True) (\<lambda>ok.
           returnU (if ok then ops + 1 else ops)))"

text \<open>The scan starts at the cursor and takes one turn per slot examined.\<close>

primrec prealloc_loop ::
  "nat \<Rightarrow> MapPreallocGucs \<Rightarrow> bool \<Rightarrow> int \<Rightarrow> int \<Rightarrow> int \<Rightarrow> ('x map_wal_scheme, int) um" where
  "prealloc_loop 0 g supported max_relations visited ops = returnU ops"
| "prealloc_loop (Suc n) g supported max_relations visited ops =
     (if \<not> visited < max_relations then returnU ops
      else
        bindU (getU prealloc_scan_slot) (\<lambda>slot.
        bindU (getE slot) (\<lambda>e.
        bindU (modifyU (\<lambda>s. s\<lparr>prealloc_scan_slot := (slot + 1) mod length (MapSuperEntries s)\<rparr>)) (\<lambda>_.
          if \<not> in_use e \<or> \<not> has_flag (flags e) MAPSUPER_FLAG_VALID \<or> entry_untrusted e
          then prealloc_loop n g supported max_relations visited ops
          else
            bindU (liftU (MapForkNeedsPrealloc g e MAIN_FORKNUM True)) (\<lambda>need_main.
            bindU (liftU (MapForkNeedsPrealloc g e FSM_FORKNUM True)) (\<lambda>need_fsm.
            bindU (liftU (MapForkNeedsPrealloc g e VISIBILITYMAP_FORKNUM True)) (\<lambda>need_vm.
              if \<not> need_main \<and> \<not> need_fsm \<and> \<not> need_vm
              then prealloc_loop n g supported max_relations (visited + 1) ops
              else
                bindU (umfile_ctx_acquire (shared_rlocator (key e))) (\<lambda>ctx.
                bindU (prealloc_if g supported ctx (key e) need_main MAIN_FORKNUM ops) (\<lambda>ops1.
                bindU (prealloc_if g supported ctx (key e) need_fsm FSM_FORKNUM ops1) (\<lambda>ops2.
                bindU (prealloc_if g supported ctx (key e) need_vm VISIBILITYMAP_FORKNUM ops2) (\<lambda>ops3.
                prealloc_loop n g supported max_relations (visited + 1) ops3)))))))))))"

definition max_scan :: "nat \<Rightarrow> int \<Rightarrow> nat" where
  "max_scan capacity max_relations = min capacity (nat (max 64 (max_relations * 8)))"

definition MapPreallocStep ::
  "MapPreallocGucs \<Rightarrow> bool \<Rightarrow> int \<Rightarrow> ('x map_wal_scheme, int) um" where
  "MapPreallocStep g supported max_relations =
     bindU (getU InRecovery) (\<lambda>rec.
     bindU (getU (\<lambda>s. length (MapSuperEntries s))) (\<lambda>capacity.
       if rec \<or> max_relations \<le> 0 \<or> capacity = 0 then returnU 0
       else prealloc_loop (max_scan capacity max_relations) g supported max_relations 0 0))"

subsection \<open>Relocating one entry\<close>

definition umfile_ctx_prefetch :: "nat \<Rightarrow> ForkNumber \<Rightarrow> BlockNumber \<Rightarrow> ('x um_fs_scheme, unit) um" where
  "umfile_ctx_prefetch c f blkno =
     bindU (getU InRecovery) (\<lambda>rec.
       if (ucast blkno :: u64) + 1 > ucast MaxBlockNumber + 1 then returnU ()
       else bindU (umfile_getseg c f blkno False
                     (if rec then {UM_EXTENSION_RETURN_NULL} else {UM_EXTENSION_FAIL})) (\<lambda>_. returnU ()))"

definition MapCompactorRelocateEntry ::
  "contention \<Rightarrow> nat \<Rightarrow> RelFileLocator \<Rightarrow> ForkNumber \<Rightarrow> BlockNumber \<Rightarrow> BlockNumber \<Rightarrow> ('x map_wal_scheme, bool) um" where
  "MapCompactorRelocateEntry k c rnode f lblkno old_pblkno =
     bindU (MapTryReserveFreshPblkno (entry_locked k rnode) c rnode f lblkno True) (\<lambda>reserved.
       case reserved of
         None \<Rightarrow> returnU False
       | Some new_pblkno \<Rightarrow>
           bindU (umfile_ctx_block_exists c f old_pblkno) (\<lambda>ex.
             if \<not> ex then bindU (MapInflightRelease rnode f lblkno) (\<lambda>_. returnU False)
             else
               bindU (umfile_ctx_prefetch c f old_pblkno) (\<lambda>_.
               bindU (umfile_ctx_read c f old_pblkno BLCKSZ) (\<lambda>pagebuf.
               bindU (umfile_ctx_extend c f new_pblkno pagebuf) (\<lambda>_.
               bindU (umfile_ctx_register_dirty c f new_pblkno False False) (\<lambda>_.
               bindU (liftU (MapInflightDecode f lblkno)) (\<lambda>(map_blkno, entry_idx).
               bindU (MapReadBuffer c rnode f map_blkno) (\<lambda>slot_id.
                 if page_locked k map_blkno
                 then
                   bindU (MapUnpinBuffer slot_id) (\<lambda>_.
                   bindU (MapInflightRelease rnode f lblkno) (\<lambda>_. returnU False))
                 else
                   bindU (page_entry slot_id entry_idx) (\<lambda>cur_pblkno.
                     if cur_pblkno \<noteq> old_pblkno
                     then
                       bindU (MapUnpinBuffer slot_id) (\<lambda>_.
                       bindU (MapInflightRelease rnode f lblkno) (\<lambda>_. returnU False))
                     else
                       bindU (getU delayChkptStart) (\<lambda>delayed.
                       bindU (modifyU (\<lambda>s. s\<lparr>delayChkptStart := True\<rparr>)) (\<lambda>_.
                       bindU (log_umbra_map_set rnode f lblkno old_pblkno new_pblkno) (\<lambda>map_lsn.
                       bindU (set_page_entry slot_id entry_idx new_pblkno) (\<lambda>_.
                       bindU (MapMarkBufferDirty c slot_id map_lsn) (\<lambda>_.
                       bindU (MapUnpinBuffer slot_id) (\<lambda>_.
                       bindU (MapSBlockBumpPhysicalState c rnode f (new_pblkno + 1) True True map_lsn) (\<lambda>_.
                       bindU (modifyU (\<lambda>s. s\<lparr>delayChkptStart := delayed\<rparr>)) (\<lambda>_.
                       bindU (MapInflightRelease rnode f lblkno) (\<lambda>_.
                       bindU (MapStatsAddCompactorRelocations 1) (\<lambda>_.
                       returnU True)))))))))))))))))))"


subsection \<open>Analysing a fork\<close>

record analysis =
  extent_live :: "(BlockNumber \<times> u32) list"
  boundary_committed :: "BlockNumber list"
  segment_live :: "BlockNumber list"
  max_extent_no :: BlockNumber

text \<open>What one mapped entry adds to the analysis.\<close>

definition note_live :: "BlockNumber \<Rightarrow> BlockNumber \<Rightarrow> BlockNumber \<Rightarrow> analysis \<Rightarrow> BlockNumber \<Rightarrow> analysis" where
  "note_live boundary next_free extent_blocks a pblkno =
     (if pblkno = InvalidBlockNumber then a
      else
        let a1 = (if boundary < next_free \<and> pblkno \<ge> boundary \<and> pblkno < next_free
                  then a\<lparr>boundary_committed := List.insert pblkno (boundary_committed a)\<rparr> else a)
        in if pblkno \<ge> boundary then a1
           else
             let extent_no = pblkno div extent_blocks;
                 segno = pblkno div of_nat RELSEG_SIZE;
                 live = (case map_of (extent_live a1) extent_no of None \<Rightarrow> 0 | Some n \<Rightarrow> n);
                 live' = (if live < extent_blocks then live + 1 else live)
             in a1\<lparr>max_extent_no := (if max_extent_no a1 = InvalidBlockNumber \<or> extent_no > max_extent_no a1
                                     then extent_no else max_extent_no a1),
                   extent_live := AList.update extent_no live' (extent_live a1),
                   segment_live := (if segno < boundary div of_nat RELSEG_SIZE
                                    then List.insert segno (segment_live a1) else segment_live a1)\<rparr>)"

primrec analyze_scan ::
  "BlockNumber list \<Rightarrow> contention \<Rightarrow> nat \<Rightarrow> RelFileLocator \<Rightarrow> ForkNumber \<Rightarrow> BlockNumber \<Rightarrow> BlockNumber \<Rightarrow>
   (analysis \<Rightarrow> BlockNumber \<Rightarrow> analysis) \<Rightarrow> analysis \<Rightarrow> (nat \<times> BlockNumber) option \<Rightarrow> ('x map_buf_scheme, analysis) um" where
  "analyze_scan [] k c rnode f n_lblknos n_map_pages note a cur =
     bindU (unpin_page cur) (\<lambda>_. returnU a)"
| "analyze_scan (page_idx # ps) k c rnode f n_lblknos n_map_pages note a cur =
     bindU (liftU (MapForkPageIndexToMapBlkno f page_idx)) (\<lambda>page_no.
       if page_no \<ge> n_map_pages then bindU (unpin_page cur) (\<lambda>_. returnU a)
       else
         bindU (switch_page c rnode f page_no cur) (\<lambda>slot.
           if page_locked k page_no
           then analyze_scan ps k c rnode f n_lblknos n_map_pages note a (Some (slot, page_no))
           else
             bindU (getU (\<lambda>s. MapPageData s ! slot)) (\<lambda>page.
             analyze_scan ps k c rnode f n_lblknos n_map_pages note
               (foldl note a (take (page_limit n_lblknos (map_page_count n_lblknos) page_idx) page))
               (Some (slot, page_no)))))"

definition clamp_threshold :: "int \<Rightarrow> int" where
  "clamp_threshold pct = (let t = (if pct < 1 then 1 else pct) in if t > 100 then 100 else t)"

definition live_pct :: "u32 \<Rightarrow> BlockNumber \<Rightarrow> int" where
  "live_pct live_blocks extent_blocks =
     uint ((ucast live_blocks * 100 :: u64) div max 1 (ucast extent_blocks))"

definition extent_movable :: "BlockNumber \<Rightarrow> BlockNumber \<Rightarrow> analysis \<Rightarrow> BlockNumber \<Rightarrow> bool" where
  "extent_movable boundary extent_blocks a extent_no \<longleftrightarrow>
     \<not> (max_extent_no a \<noteq> InvalidBlockNumber \<and> extent_no = max_extent_no a) \<and>
     MapExtentFullyBelowReclaimBoundary boundary extent_no extent_blocks"

definition sparse_count :: "BlockNumber \<Rightarrow> BlockNumber \<Rightarrow> int \<Rightarrow> analysis \<Rightarrow> nat" where
  "sparse_count boundary extent_blocks threshold a =
     length (filter (\<lambda>(extent_no, live). extent_movable boundary extent_blocks a extent_no \<and>
                       live_pct live extent_blocks \<le> threshold) (extent_live a))"

definition reclaim_segment ::
  "nat \<Rightarrow> RelFileLocator \<Rightarrow> ForkNumber \<Rightarrow> analysis \<Rightarrow> BlockNumber \<Rightarrow> ('x map_buf_scheme, unit) um" where
  "reclaim_segment c rnode f a segno =
     (if segno \<in> set (segment_live a) then returnU ()
      else
        bindU (umfile_ctx_segment_exists c f (unat segno)) (\<lambda>ex.
          if \<not> ex then returnU ()
          else
            bindU (MapSegmentHasLiveReferences c rnode f segno) (\<lambda>live.
              if live then returnU ()
              else bindU (MapReclaimEnqueueSegment c rnode f segno) (\<lambda>_. returnU ()))))"

subsection \<open>Moving the entries of sparse extents\<close>

definition relocation_candidate ::
  "BlockNumber \<Rightarrow> BlockNumber \<Rightarrow> int \<Rightarrow> analysis \<Rightarrow> BlockNumber \<Rightarrow> bool" where
  "relocation_candidate boundary extent_blocks threshold a pblkno \<longleftrightarrow>
     pblkno \<noteq> InvalidBlockNumber \<and>
     extent_movable boundary extent_blocks a (pblkno div extent_blocks) \<and>
     (case map_of (extent_live a) (pblkno div extent_blocks) of
        None \<Rightarrow> False | Some live \<Rightarrow> live_pct live extent_blocks \<le> threshold)"

text \<open>The bookkeeping after a move: the extent loses one live block, and when it has none left its
  segment may be queued.\<close>

definition after_move ::
  "nat \<Rightarrow> RelFileLocator \<Rightarrow> ForkNumber \<Rightarrow> BlockNumber \<Rightarrow> analysis \<Rightarrow> BlockNumber \<Rightarrow> ('x map_buf_scheme, analysis) um" where
  "after_move c rnode f extent_blocks a extent_no =
     (case map_of (extent_live a) extent_no of
        None \<Rightarrow> returnU a
      | Some live \<Rightarrow>
          if live = 0 then returnU a
          else
            let a' = a\<lparr>extent_live := AList.update extent_no (live - 1) (extent_live a)\<rparr> in
            if live - 1 \<noteq> 0 then returnU a'
            else
              bindU (MapSegmentHasLiveReferences c rnode f (extent_no * extent_blocks div of_nat RELSEG_SIZE)) (\<lambda>refs.
              bindU (whenU (\<not> refs)
                       (bindU (MapReclaimEnqueue c rnode f extent_no extent_blocks) (\<lambda>_. returnU ()))) (\<lambda>_.
              returnU a')))"

primrec move_entries ::
  "nat list \<Rightarrow> contention \<Rightarrow> nat \<Rightarrow> RelFileLocator \<Rightarrow> ForkNumber \<Rightarrow> BlockNumber \<Rightarrow> BlockNumber \<Rightarrow> int \<Rightarrow>
   BlockNumber \<Rightarrow> BlockNumber \<Rightarrow> nat \<Rightarrow> analysis \<Rightarrow> int \<Rightarrow> ('x map_wal_scheme, analysis \<times> int) um" where
  "move_entries [] k c rnode f boundary extent_blocks threshold page_idx page_no slot a moved = returnU (a, moved)"
| "move_entries (entry_idx # es) k c rnode f boundary extent_blocks threshold page_idx page_no slot a moved =
     (if page_locked k page_no
      then move_entries es k c rnode f boundary extent_blocks threshold page_idx page_no slot a moved
      else
        bindU (page_entry slot entry_idx) (\<lambda>pblkno.
          if \<not> relocation_candidate boundary extent_blocks threshold a pblkno
          then move_entries es k c rnode f boundary extent_blocks threshold page_idx page_no slot a moved
          else
            bindU (MapCompactorRelocateEntry k c rnode f
                     (page_idx * MAP_ENTRIES_PER_PAGE + of_nat entry_idx) pblkno) (\<lambda>done_move.
              if \<not> done_move
              then move_entries es k c rnode f boundary extent_blocks threshold page_idx page_no slot a moved
              else
                bindU (after_move c rnode f extent_blocks a (pblkno div extent_blocks)) (\<lambda>a'.
                move_entries es k c rnode f boundary extent_blocks threshold page_idx page_no slot a' (moved + 1)))))"

text \<open>The limits are tested between pages, not between entries.\<close>

primrec move_pages ::
  "BlockNumber list \<Rightarrow> contention \<Rightarrow> nat \<Rightarrow> RelFileLocator \<Rightarrow> ForkNumber \<Rightarrow> BlockNumber \<Rightarrow> BlockNumber \<Rightarrow>
   BlockNumber \<Rightarrow> BlockNumber \<Rightarrow> int \<Rightarrow> int \<Rightarrow> int \<Rightarrow> analysis \<Rightarrow> int \<Rightarrow> (nat \<times> BlockNumber) option \<Rightarrow>
   ('x map_wal_scheme, int) um" where
  "move_pages [] k c rnode f n_lblknos n_map_pages boundary extent_blocks threshold moves_limit moves_done a moved cur =
     bindU (unpin_page cur) (\<lambda>_. returnU moved)"
| "move_pages (page_idx # ps) k c rnode f n_lblknos n_map_pages boundary extent_blocks threshold moves_limit
     moves_done a moved cur =
     bindU (liftU (MapForkPageIndexToMapBlkno f page_idx)) (\<lambda>page_no.
       if moved \<ge> moves_limit \<or> moves_done + moved \<ge> moves_limit \<or> page_no \<ge> n_map_pages
       then bindU (unpin_page cur) (\<lambda>_. returnU moved)
       else
         bindU (switch_page c rnode f page_no cur) (\<lambda>slot.
         bindU (move_entries [0..<page_limit n_lblknos (map_page_count n_lblknos) page_idx] k c rnode f boundary
                  extent_blocks threshold page_idx page_no slot a moved) (\<lambda>(a', moved').
         move_pages ps k c rnode f n_lblknos n_map_pages boundary extent_blocks threshold moves_limit
           moves_done a' moved' (Some (slot, page_no)))))"


subsection \<open>The compactor\<close>

text \<open>The result is the number of sparse extents and the number of moves made.\<close>

definition compact_fork ::
  "MapCompactorGucs \<Rightarrow> contention \<Rightarrow> nat \<Rightarrow> RelFileLocator \<Rightarrow> ForkNumber \<Rightarrow> int \<Rightarrow> int \<Rightarrow>
   BlockNumber \<Rightarrow> BlockNumber \<Rightarrow> BlockNumber \<Rightarrow> BlockNumber \<Rightarrow> BlockNumber \<Rightarrow> ('x map_wal_scheme, nat \<times> int) um" where
  "compact_fork g k c rnode f max_moves moves_done extent_blocks n_lblknos next_free boundary n_map_pages =
     (let pages = map of_nat [0..<unat (map_page_count n_lblknos)];
          threshold = clamp_threshold (map_compactor_low_live_percent g);
          moves_limit = max 0 max_moves
      in
      bindU (analyze_scan pages k c rnode f n_lblknos n_map_pages (note_live boundary next_free extent_blocks)
               \<lparr>extent_live = [], boundary_committed = [], segment_live = [],
                max_extent_no = InvalidBlockNumber\<rparr> None) (\<lambda>a.
      bindU (forU (map of_nat [0..<unat (boundary div of_nat RELSEG_SIZE)]) (reclaim_segment c rnode f a)) (\<lambda>_.
      bindU (if sparse_count boundary extent_blocks threshold a > 0 \<and> moves_limit > 0
             then move_pages pages k c rnode f n_lblknos n_map_pages boundary extent_blocks threshold
                    moves_limit moves_done a 0 None
             else returnU 0) (\<lambda>moved.
      bindU (whenU (boundary < next_free)
               (let advanced = MapCompactorAdvanceBoundaryFromSet boundary next_free (boundary_committed a)
                in whenU (advanced > boundary) (MapSBlockAdvanceReclaimBoundary c rnode f advanced))) (\<lambda>_.
      returnU (sparse_count boundary extent_blocks threshold a, moved))))))"

definition MapCompactorAnalyzeFork ::
  "MapCompactorGucs \<Rightarrow> contention \<Rightarrow> nat \<Rightarrow> RelFileLocator \<Rightarrow> ForkNumber \<Rightarrow> int \<Rightarrow> int \<Rightarrow>
   ('x map_wal_scheme, nat \<times> int) um" where
  "MapCompactorAnalyzeFork g k c rnode f max_moves moves_done =
     (if \<not> map_compactor_enable g \<or> \<not> MapForkHasMappedState f \<or> map_compactor_extent_blocks g \<le> 0
      then returnU (0, 0)
      else
        bindU (MapSBlockTryGetLogicalNblocks c rnode f) (\<lambda>got_n.
        if got_n = None \<or> got_n = Some 0 then returnU (0, 0)
        else bindU (MapSBlockTryGetNextFreePhysBlock c rnode f) (\<lambda>got_next.
        if got_next = None \<or> got_next = Some 0 then returnU (0, 0)
        else bindU (MapSBlockTryGetReclaimBoundary c rnode f) (\<lambda>got_boundary.
        if got_boundary = None then returnU (0, 0)
        else
          let n_lblknos = the got_n; next_free = the got_next;
              boundary = (if the got_boundary > next_free then next_free else the got_boundary) in
          bindU (umfile_ctx_fork_exists c UMBRA_METADATA_FORKNUM UMFILE_EXISTS_DENSE) (\<lambda>ex.
          if \<not> ex then returnU (0, 0)
          else bindU (umfile_ctx_get_nblocks c UMBRA_METADATA_FORKNUM UMFILE_NBLOCKS_DENSE) (\<lambda>n_map_pages.
          if n_map_pages = 0 \<or> map_page_count n_lblknos = 0 then returnU (0, 0)
          else compact_fork g k c rnode f max_moves moves_done (word_of_int (map_compactor_extent_blocks g))
                 n_lblknos next_free boundary n_map_pages))))))"

primrec compact_forks ::
  "ForkNumber list \<Rightarrow> MapCompactorGucs \<Rightarrow> contention \<Rightarrow> nat \<Rightarrow> RelFileLocator \<Rightarrow> int \<Rightarrow> int \<Rightarrow> ('x map_wal_scheme, int) um" where
  "compact_forks [] g k c rnode move_budget total_moves = returnU total_moves"
| "compact_forks (f # fs) g k c rnode move_budget total_moves =
     bindU (MapCompactorAnalyzeFork g k c rnode f move_budget total_moves) (\<lambda>(_, moved).
     compact_forks fs g k c rnode move_budget (total_moves + moved))"

text \<open>The result is the number of moves and of relations visited.\<close>

primrec compactor_loop ::
  "nat \<Rightarrow> MapCompactorGucs \<Rightarrow> contention \<Rightarrow> int \<Rightarrow> int \<Rightarrow> int \<Rightarrow> int \<Rightarrow> ('x map_wal_scheme, int \<times> int) um" where
  "compactor_loop 0 g k max_relations move_budget visited total_moves = returnU (total_moves, visited)"
| "compactor_loop (Suc n) g k max_relations move_budget visited total_moves =
     (if \<not> visited < max_relations then returnU (total_moves, visited)
      else
        bindU (getU compactor_scan_slot) (\<lambda>slot.
        bindU (getE slot) (\<lambda>e.
        bindU (modifyU (\<lambda>s. s\<lparr>compactor_scan_slot := (slot + 1) mod length (MapSuperEntries s)\<rparr>)) (\<lambda>_.
          if entry_locked k (key e) \<or> \<not> in_use e
          then compactor_loop n g k max_relations move_budget visited total_moves
          else
            bindU (umfile_ctx_acquire (shared_rlocator (key e))) (\<lambda>ctx.
            bindU (umfile_ctx_fork_exists ctx INIT_FORKNUM UMFILE_EXISTS_DENSE) (\<lambda>has_init_fork.
              if has_init_fork then compactor_loop n g k max_relations move_budget (visited + 1) total_moves
              else
                bindU (umfile_ctx_fork_exists ctx UMBRA_METADATA_FORKNUM UMFILE_EXISTS_DENSE) (\<lambda>has_map_fork.
                  if \<not> has_map_fork then compactor_loop n g k max_relations move_budget (visited + 1) total_moves
                  else
                    bindU (compact_forks [MAIN_FORKNUM, FSM_FORKNUM, VISIBILITYMAP_FORKNUM] g k ctx (key e)
                             move_budget total_moves) (\<lambda>total'.
                    compactor_loop n g k max_relations move_budget (visited + 1) total'))))))))"

definition MapCompactorStep ::
  "MapCompactorGucs \<Rightarrow> contention \<Rightarrow> int \<Rightarrow> ('x map_wal_scheme, int) um" where
  "MapCompactorStep g k max_relations =
     bindU (getU InRecovery) (\<lambda>rec.
     bindU (getU (\<lambda>s. length (MapSuperEntries s))) (\<lambda>capacity.
       if \<not> map_compactor_enable g \<or> rec \<or> max_relations \<le> 0 \<or> capacity = 0 then returnU 0
       else
         bindU (compactor_loop (max_scan capacity max_relations) g k max_relations
                  (max 0 (map_compactor_max_moves g)) 0 0) (\<lambda>(total_moves, visited).
         bindU (whenU (visited = 0) (modifyU (\<lambda>s. s\<lparr>compactor_scan_slot := 0\<rparr>))) (\<lambda>_.
         returnU total_moves))))"

end
