(* ===== verification/MapFrames.thy ===== *)
theory MapFrames
  imports MapBgproc
begin

text \<open>
  What the lower layers leave alone. Every operation of \<^verbatim>\<open>umfile.c\<close> leaves the state above the files
  untouched and every operation of \<^verbatim>\<open>mapsuper.c\<close> the buffer cache, whatever the outcome: this is the
  relation \<open>leaves R m\<close> for the two frames \<open>fs_frame\<close> and \<open>sb_frame_more\<close>. The rules by which \<open>leaves\<close> goes
  through the combinators are those of any reflexive and transitive relation, the locale \<open>step_rel\<close>.
\<close>

definition leaves :: "('s \<Rightarrow> 's \<Rightarrow> bool) \<Rightarrow> ('s, 'a) um \<Rightarrow> bool" where
  "leaves R m \<longleftrightarrow> (\<forall>s. R s (snd (m s)))"

lemma leavesI: "(\<And>s. R s (snd (m s))) \<Longrightarrow> leaves R m"
  by (simp add: leaves_def)

lemma leavesD: "leaves R m \<Longrightarrow> m s = (r, t) \<Longrightarrow> R s t"
  unfolding leaves_def by (metis snd_conv)

lemma leaves_wpU: "leaves R m \<Longrightarrow> wpU m (\<lambda>r t. R s t) s"
  unfolding leaves_def wpU_def by (metis case_prod_beta)

lemma leaves_mono: "leaves R m \<Longrightarrow> (\<And>s t. R s t \<Longrightarrow> S s t) \<Longrightarrow> leaves S m"
  by (simp add: leaves_def)

locale step_rel =
  fixes R :: "'s \<Rightarrow> 's \<Rightarrow> bool"
  assumes R_refl: "R s s"
    and R_trans: "R s t \<Longrightarrow> R t u \<Longrightarrow> R s u"
begin

lemma leaves_basic: "leaves R (returnU x)" "leaves R (throwU e)" "leaves R (getU g)" "leaves R (liftU y)"
  by (auto simp: leaves_def um_defs R_refl)

lemma leaves_modify: "(\<And>s. R s (g s)) \<Longrightarrow> leaves R (modifyU g)"
  by (auto simp: leaves_def um_defs)

lemma leaves_bind:
  assumes "leaves R m" and "\<And>x. leaves R (f x)"
  shows "leaves R (bindU m f)"
proof (rule leavesI)
  fix s
  obtain r t where t: "m s = (r, t)" by fastforce
  have st: "R s t" using leavesD [OF assms(1) t] .
  show "R s (snd (bindU m f s))"
  proof (cases r)
    case (Inr x)
    have "R t (snd (f x t))" using assms(2) by (simp add: leaves_def)
    then show ?thesis using t Inr R_trans [OF st] by (simp add: bindU_def)
  qed (use t st in \<open>simp add: bindU_def\<close>)
qed

lemma leaves_when: "leaves R m \<Longrightarrow> leaves R (whenU b m)"
  by (simp add: whenU_def leaves_basic)

lemma leaves_if: "(b \<Longrightarrow> leaves R m) \<Longrightarrow> (\<not> b \<Longrightarrow> leaves R n) \<Longrightarrow> leaves R (if b then m else n)"
  by simp

lemma leaves_option:
  "leaves R m \<Longrightarrow> (\<And>y. leaves R (n y)) \<Longrightarrow> leaves R (case x of None \<Rightarrow> m | Some y \<Rightarrow> n y)"
  by (cases x) simp_all

lemma leaves_prod: "(\<And>a b. leaves R (n a b)) \<Longrightarrow> leaves R (case p of (a, b) \<Rightarrow> n a b)"
  by (cases p) simp

lemma leaves_list:
  "leaves R m \<Longrightarrow> (\<And>y ys. leaves R (n y ys)) \<Longrightarrow> leaves R (case xs of [] \<Rightarrow> m | y # ys \<Rightarrow> n y ys)"
  by (cases xs) simp_all

lemma leaves_let: "(\<And>x. leaves R (m x)) \<Longrightarrow> leaves R (let x = a in m x)"
  by simp

lemma leaves_catch:
  assumes "leaves R m" and "leaves R h"
  shows "leaves R (catchU m h)"
proof (rule leavesI)
  fix s
  obtain r t where t: "m s = (r, t)" by fastforce
  obtain r' t' where t': "h t = (r', t')" by fastforce
  have st: "R s t" "R t t'" using leavesD [OF assms(1) t] leavesD [OF assms(2) t'] .
  show "R s (snd (catchU m h s))"
    using t t' st R_trans [OF st] by (auto simp: catchU_def split: sum.splits)
qed

lemma leaves_for: "(\<And>i. leaves R (body i)) \<Longrightarrow> leaves R (forU is body)"
  by (induction "is") (simp_all add: leaves_basic leaves_bind)

lemmas leaves_rules = leaves_basic leaves_bind leaves_when leaves_if leaves_option leaves_prod leaves_list
  leaves_let leaves_catch leaves_for

end

subsection \<open>File operations\<close>

definition fs_frame :: "'x um_fs_scheme \<Rightarrow> 'x um_fs_scheme \<Rightarrow> bool" where
  "fs_frame s t \<longleftrightarrow> um_fs.more t = um_fs.more s \<and> um_next_ctx t = um_next_ctx s \<and> InRecovery t = InRecovery s"

interpretation fsk: step_rel fs_frame
  by unfold_locales (auto simp: fs_frame_def)

lemma fs_frame_upd [simp]:
  "fs_frame s (s\<lparr>um_dir := d\<rparr>)" "fs_frame s (s\<lparr>um_inode := n\<rparr>)" "fs_frame s (s\<lparr>um_sync := q\<rparr>)"
  "fs_frame s (s\<lparr>um_ctxs := c\<rparr>)" "fs_frame s (s\<lparr>UmCtxRegistry := g\<rparr>)" "fs_frame s (set_ctx_segs i f vs s)"
  "fs_frame s (upd_inode ino h s)" "fs_frame s (dir_remove p s)"
  by (simp_all add: fs_frame_def upd_inode_def dir_remove_def set_ctx_segs_def)

named_theorems fs_leaves \<open>file operations that keep \<open>fs_frame\<close>\<close>

lemma leaves_open [fs_leaves]: "leaves fs_frame (PathNameOpenFile p create excl)"
  by (rule leavesI) (auto simp: PathNameOpenFile_def fs_frame_def split: option.splits)

lemma leaves_with_vfd: "(\<And>ino. leaves fs_frame (k ino)) \<Longrightarrow> leaves fs_frame (with_vfd v k)"
  unfolding with_vfd_def by (intro fsk.leaves_rules)

lemmas fs_rules = fsk.leaves_rules fsk.leaves_modify leaves_with_vfd

lemma leaves_umfile_ctx_destroy_internal [fs_leaves]: "leaves fs_frame (umfile_ctx_destroy_internal c)"
  unfolding umfile_ctx_destroy_internal_def Let_def by (intro fs_rules fs_leaves fs_frame_upd)

lemma leaves_umfile_ctx_destroy_temporary [fs_leaves]: "leaves fs_frame (umfile_ctx_destroy_temporary c)"
  unfolding umfile_ctx_destroy_temporary_def Let_def by (intro fs_rules fs_leaves fs_frame_upd)

lemma leaves_umfile_ctx_forget [fs_leaves]: "leaves fs_frame (umfile_ctx_forget r)"
  unfolding umfile_ctx_forget_def Let_def by (intro fs_rules fs_leaves fs_frame_upd)

lemma leaves_umfile_fdvec_resize [fs_leaves]: "leaves fs_frame (umfile_fdvec_resize c f n)"
  unfolding umfile_fdvec_resize_def Let_def by (intro fs_rules fs_leaves fs_frame_upd)

lemma leaves_umfile_v_set [fs_leaves]: "leaves fs_frame (umfile_v_set c f i v)"
  unfolding umfile_v_set_def Let_def by (intro fs_rules fs_leaves fs_frame_upd)

lemma leaves_umfile_nblocks_in_seg [fs_leaves]: "leaves fs_frame (umfile_nblocks_in_seg v)"
  unfolding umfile_nblocks_in_seg_def Let_def by (intro fs_rules fs_leaves fs_frame_upd)

lemma leaves_umfile_openseg [fs_leaves]: "leaves fs_frame (umfile_openseg c r f i cr)"
  unfolding umfile_openseg_def Let_def by (intro fs_rules fs_leaves fs_frame_upd)

lemma leaves_umfile_openfork [fs_leaves]: "leaves fs_frame (umfile_openfork c r f bh)"
  unfolding umfile_openfork_def Let_def by (intro fs_rules fs_leaves fs_frame_upd)

lemma leaves_umfile_fork_has_open_segment_on_disk [fs_leaves]: "leaves fs_frame (umfile_fork_has_open_segment_on_disk c r f)"
  unfolding umfile_fork_has_open_segment_on_disk_def Let_def by (intro fs_rules fs_leaves fs_frame_upd)

lemma leaves_umfile_ctx_close_fork [fs_leaves]: "leaves fs_frame (umfile_ctx_close_fork c f)"
  unfolding umfile_ctx_close_fork_def Let_def by (intro fs_rules fs_leaves fs_frame_upd)

lemma leaves_umfile_exists [fs_leaves]: "leaves fs_frame (umfile_exists c f m)"
  unfolding umfile_exists_def Let_def by (intro fs_rules fs_leaves fs_frame_upd)

lemma leaves_umfile_ctx_fork_exists [fs_leaves]: "leaves fs_frame (umfile_ctx_fork_exists c f m)"
  unfolding umfile_ctx_fork_exists_def Let_def by (intro fs_rules fs_leaves fs_frame_upd)

lemma leaves_umfile_register_dirty_seg [fs_leaves]: "leaves fs_frame (umfile_register_dirty_seg r f v)"
  unfolding umfile_register_dirty_seg_def Let_def by (intro fs_rules fs_leaves fs_frame_upd)

lemma leaves_umfile_register_unlink_seg [fs_leaves]: "leaves fs_frame (umfile_register_unlink_seg r f i)"
  unfolding umfile_register_unlink_seg_def Let_def by (intro fs_rules fs_leaves fs_frame_upd)

lemma leaves_umfile_register_forget_seg [fs_leaves]: "leaves fs_frame (umfile_register_forget_seg r f i)"
  unfolding umfile_register_forget_seg_def Let_def by (intro fs_rules fs_leaves fs_frame_upd)

lemma leaves_umfile_register_dense_loop [fs_leaves]: "leaves fs_frame (umfile_register_dense_loop n r f i)"
  by (induction n arbitrary: i) (simp_all only: umfile_register_dense_loop.simps Let_def, (intro fs_rules fs_leaves fs_frame_upd; assumption?)+)

lemma leaves_umfile_register_dense_existing_segs_for_unlink [fs_leaves]: "leaves fs_frame (umfile_register_dense_existing_segs_for_unlink r f)"
  unfolding umfile_register_dense_existing_segs_for_unlink_def Let_def by (intro fs_rules fs_leaves fs_frame_upd)

lemma leaves_umfile_pad_segment [fs_leaves]: "leaves fs_frame (umfile_pad_segment r f v sk)"
  unfolding umfile_pad_segment_def Let_def by (intro fs_rules fs_leaves fs_frame_upd)

lemma leaves_umfile_getseg_dense [fs_leaves]: "leaves fs_frame (umfile_getseg_dense n c r f sk bh i v)"
  by (induction n arbitrary: i v) (simp_all only: umfile_getseg_dense.simps Let_def, (intro fs_rules fs_leaves fs_frame_upd; assumption?)+)

lemma leaves_umfile_getseg [fs_leaves]: "leaves fs_frame (umfile_getseg c f b sk bh)"
  unfolding umfile_getseg_def Let_def by (intro fs_rules fs_leaves fs_frame_upd)

lemma leaves_umfile_getseg_some [fs_leaves]: "leaves fs_frame (umfile_getseg_some c f b sk bh)"
  unfolding umfile_getseg_some_def Let_def by (intro fs_rules fs_leaves fs_frame_upd)

lemma leaves_umfile_create [fs_leaves]: "leaves fs_frame (umfile_create c f redo)"
  unfolding umfile_create_def Let_def by (intro fs_rules fs_leaves fs_frame_upd)

lemma leaves_umfile_open_or_create [fs_leaves]: "leaves fs_frame (umfile_open_or_create c f redo)"
  unfolding umfile_open_or_create_def Let_def by (intro fs_rules fs_leaves fs_frame_upd)

lemma leaves_path_truncate [fs_leaves]: "leaves fs_frame (path_truncate p)"
  by (rule leavesI) (auto simp: path_truncate_def fsk.R_refl split: option.splits)

lemma leaves_path_unlink [fs_leaves]: "leaves fs_frame (path_unlink p)"
  by (rule leavesI) (auto simp: path_unlink_def fsk.R_refl split: option.splits)

lemma leaves_umfile_unlink_segs [fs_leaves]: "leaves fs_frame (umfile_unlink_segs n r f i)"
  by (induction n arbitrary: i) (simp_all only: umfile_unlink_segs.simps Let_def, (intro fs_rules fs_leaves fs_frame_upd; assumption?)+)

lemma leaves_umfile_unlink_fork [fs_leaves]: "leaves fs_frame (umfile_unlink_fork r f redo up)"
  unfolding umfile_unlink_fork_def Let_def by (intro fs_rules fs_leaves fs_frame_upd)

lemma leaves_umfile_unlink [fs_leaves]: "leaves fs_frame (umfile_unlink r f redo up)"
  unfolding umfile_unlink_def Let_def by (intro fs_rules fs_leaves fs_frame_upd)

lemma leaves_umfile_extend [fs_leaves]: "leaves fs_frame (umfile_extend c f b x sk)"
  unfolding umfile_extend_def Let_def by (intro fs_rules fs_leaves fs_frame_upd)

lemma leaves_umfile_zeroextend_loop [fs_leaves]: "leaves fs_frame (umfile_zeroextend_loop k c f b n sk)"
  by (induction k arbitrary: b n) (simp_all only: umfile_zeroextend_loop.simps Let_def, (intro fs_rules fs_leaves fs_frame_upd; assumption?)+)

lemma leaves_umfile_zeroextend [fs_leaves]: "leaves fs_frame (umfile_zeroextend c f b n sk)"
  unfolding umfile_zeroextend_def Let_def by (intro fs_rules fs_leaves fs_frame_upd)

lemma leaves_umfile_ctx_block_exists [fs_leaves]: "leaves fs_frame (umfile_ctx_block_exists c f b)"
  unfolding umfile_ctx_block_exists_def Let_def by (intro fs_rules fs_leaves fs_frame_upd)

lemma leaves_umfile_ctx_segment_exists [fs_leaves]: "leaves fs_frame (umfile_ctx_segment_exists c f i)"
  unfolding umfile_ctx_segment_exists_def Let_def by (intro fs_rules fs_leaves fs_frame_upd)

lemma leaves_umfile_ctx_ensure_fork [fs_leaves]: "leaves fs_frame (umfile_ctx_ensure_fork c f)"
  unfolding umfile_ctx_ensure_fork_def Let_def by (intro fs_rules fs_leaves fs_frame_upd)

lemma leaves_umfile_ctx_ensure_block_exists [fs_leaves]: "leaves fs_frame (umfile_ctx_ensure_block_exists c f b)"
  unfolding umfile_ctx_ensure_block_exists_def Let_def by (intro fs_rules fs_leaves fs_frame_upd)

lemma leaves_umfile_ctx_read [fs_leaves]: "leaves fs_frame (umfile_ctx_read c f b n)"
  unfolding umfile_ctx_read_def Let_def by (intro fs_rules fs_leaves fs_frame_upd)

lemma leaves_umfile_ctx_write [fs_leaves]: "leaves fs_frame (umfile_ctx_write c f b ws)"
  unfolding umfile_ctx_write_def Let_def by (intro fs_rules fs_leaves fs_frame_upd)

lemma leaves_umfile_ctx_extend [fs_leaves]: "leaves fs_frame (umfile_ctx_extend c f b x)"
  unfolding umfile_ctx_extend_def Let_def by (intro fs_rules fs_leaves fs_frame_upd)

lemma leaves_umfile_ctx_register_dirty [fs_leaves]: "leaves fs_frame (umfile_ctx_register_dirty c f b sk tmp)"
  unfolding umfile_ctx_register_dirty_def Let_def by (intro fs_rules fs_leaves fs_frame_upd)

lemma leaves_umfile_ctx_unlinkfork [fs_leaves]: "leaves fs_frame (umfile_ctx_unlinkfork r f redo up)"
  unfolding umfile_ctx_unlinkfork_def Let_def by (intro fs_rules fs_leaves fs_frame_upd)

lemma leaves_umfile_nblocks_sparse [fs_leaves]: "leaves fs_frame (umfile_nblocks_sparse c f)"
  unfolding umfile_nblocks_sparse_def Let_def by (intro fs_rules fs_leaves fs_frame_upd)

lemma leaves_umfile_nblocks_dense_loop [fs_leaves]: "leaves fs_frame (umfile_nblocks_dense_loop n c r f i v)"
  by (induction n arbitrary: i v) (simp_all only: umfile_nblocks_dense_loop.simps Let_def, (intro fs_rules fs_leaves fs_frame_upd; assumption?)+)

lemma leaves_umfile_nblocks_dense [fs_leaves]: "leaves fs_frame (umfile_nblocks_dense c f)"
  unfolding umfile_nblocks_dense_def Let_def by (intro fs_rules fs_leaves fs_frame_upd)

lemma leaves_umfile_nblocks [fs_leaves]: "leaves fs_frame (umfile_nblocks c f m)"
  unfolding umfile_nblocks_def Let_def by (intro fs_rules fs_leaves fs_frame_upd)

lemma leaves_umfile_ctx_get_nblocks [fs_leaves]: "leaves fs_frame (umfile_ctx_get_nblocks c f m)"
  unfolding umfile_ctx_get_nblocks_def Let_def by (intro fs_rules fs_leaves fs_frame_upd)

lemma leaves_umfile_preallocate_fd [fs_leaves]: "leaves fs_frame (umfile_preallocate_fd ok v t)"
  unfolding umfile_preallocate_fd_def Let_def by (intro fs_rules fs_leaves fs_frame_upd)

lemma leaves_umfile_preallocate_loop [fs_leaves]: "leaves fs_frame (umfile_preallocate_loop n ok c f cur t sk)"
  by (induction n arbitrary: cur) (simp_all only: umfile_preallocate_loop.simps Let_def, (intro fs_rules fs_leaves fs_frame_upd; assumption?)+)

lemma leaves_umfile_ctx_preallocate_blocks [fs_leaves]: "leaves fs_frame (umfile_ctx_preallocate_blocks ok c f m t sk)"
  unfolding umfile_ctx_preallocate_blocks_def Let_def by (intro fs_rules fs_leaves fs_frame_upd)

lemma leaves_umfile_ctx_prefetch [fs_leaves]: "leaves fs_frame (umfile_ctx_prefetch c f b)"
  unfolding umfile_ctx_prefetch_def Let_def by (intro fs_rules fs_leaves fs_frame_upd)

lemma leaves_RegisterSyncRequest [fs_leaves]: "leaves fs_frame (RegisterSyncRequest q)"
  unfolding RegisterSyncRequest_def Let_def by (intro fs_rules fs_leaves fs_frame_upd)




subsection \<open>Superblock operations\<close>

definition sb_more :: "'x map_sb_scheme \<Rightarrow> 'x map_sb_scheme \<Rightarrow> bool" where
  "sb_more s t \<longleftrightarrow>
     map_sb.more t = map_sb.more s \<and> um_next_ctx t = um_next_ctx s \<and> InRecovery t = InRecovery s"

interpretation sbk: step_rel sb_more
  by unfold_locales (auto simp: sb_more_def)

lemma fs_sb_more: "fs_frame s t \<Longrightarrow> sb_more s t"
  using more_fields(8) [of t s] by (simp add: fs_frame_def sb_more_def)

lemma leaves_fs_sb: "leaves fs_frame m \<Longrightarrow> leaves sb_more m"
  by (erule leaves_mono) (rule fs_sb_more)

lemma sb_more_upd [simp]:
  "sb_more s (upd_entry i h s)" "sb_more s (s\<lparr>XLogFlushRecPtr := l\<rparr>)" "sb_more s (s\<lparr>MissingMetadata := m\<rparr>)"
  "sb_more s (s\<lparr>MapSuperIndex := ix\<rparr>)" "sb_more s (s\<lparr>free_head := fh\<rparr>)" "sb_more s (s\<lparr>MapSuperEntries := es\<rparr>)"
  "sb_more s (s\<lparr>MapSuperEntries := es, MapSuperIndex := ix, free_head := fh\<rparr>)"
  by (simp_all add: sb_more_def upd_entry_def)

named_theorems sb_leaves \<open>superblock operations that keep \<open>sb_more\<close>\<close>

lemma leaves_read_status:
  "leaves R a \<Longrightarrow> leaves R b \<Longrightarrow> leaves R d \<Longrightarrow>
   leaves R (case st of MAP_SBLOCK_READ_OK \<Rightarrow> a | MAP_SBLOCK_READ_MISSING \<Rightarrow> b | MAP_SBLOCK_READ_CORRUPT \<Rightarrow> d)"
  by (cases st) simp_all

lemma leaves_free_next:
  "leaves R a \<Longrightarrow> leaves R b \<Longrightarrow> (\<And>i. leaves R (d i)) \<Longrightarrow>
   leaves R (case x of FREENEXT_END \<Rightarrow> a | FREENEXT_NOT_IN_LIST \<Rightarrow> b | FREENEXT_SLOT i \<Rightarrow> d i)"
  by (cases x) simp_all

lemmas sb_rules = leaves_read_status leaves_free_next sbk.leaves_rules sbk.leaves_modify sb_more_upd fs_leaves [THEN leaves_fs_sb]

lemma leaves_updE [sb_leaves]: "leaves sb_more (updE i u)"
  by (rule leavesI) (auto simp: updE_def sbk.R_refl split: sum.splits)

lemma leaves_MapSuperFindEntryLocked [sb_leaves]: "leaves sb_more (MapSuperFindEntryLocked rn)"
  unfolding MapSuperFindEntryLocked_def Let_def by (intro sb_rules sb_leaves)

lemma leaves_MapSuperFindEntryTryLocked [sb_leaves]: "leaves sb_more (MapSuperFindEntryTryLocked busy rn)"
  unfolding MapSuperFindEntryTryLocked_def Let_def by (intro sb_rules sb_leaves)

lemma leaves_MapSuperEnsureEntryLocked [sb_leaves]: "leaves sb_more (MapSuperEnsureEntryLocked rn)"
  unfolding MapSuperEnsureEntryLocked_def Let_def by (intro sb_rules sb_leaves)

lemma leaves_MapSuperDeleteEntry [sb_leaves]: "leaves sb_more (MapSuperDeleteEntry rn)"
  unfolding MapSuperDeleteEntry_def Let_def by (intro sb_rules sb_leaves)

lemma leaves_getE [sb_leaves]: "leaves sb_more (getE i)"
  unfolding getE_def Let_def by (intro sb_rules sb_leaves)

lemma leaves_XLogFlush [sb_leaves]: "leaves sb_more (XLogFlush lsn)"
  unfolding XLogFlush_def Let_def by (intro sb_rules sb_leaves)

lemma leaves_XLogLogMissingRelationMetadata [sb_leaves]: "leaves sb_more (XLogLogMissingRelationMetadata rn)"
  unfolding XLogLogMissingRelationMetadata_def Let_def by (intro sb_rules sb_leaves)

lemma leaves_MapSBlockReportCorrupt [sb_leaves]: "leaves sb_more (MapSBlockReportCorrupt rn)"
  unfolding MapSBlockReportCorrupt_def Let_def by (intro sb_rules sb_leaves)

lemma leaves_resolve_lsn [sb_leaves]: "leaves sb_more (resolve_lsn lsn)"
  unfolding resolve_lsn_def Let_def by (intro sb_rules sb_leaves)

lemma leaves_MapSuperLoadFromDisk [sb_leaves]: "leaves sb_more (MapSuperLoadFromDisk c rn)"
  unfolding MapSuperLoadFromDisk_def Let_def by (intro sb_rules sb_leaves)

lemma leaves_MapSBlockReadSlow [sb_leaves]: "leaves sb_more (MapSBlockReadSlow c rn)"
  unfolding MapSBlockReadSlow_def Let_def by (intro sb_rules sb_leaves)

lemma leaves_MapSBlockRead [sb_leaves]: "leaves sb_more (MapSBlockRead c rn)"
  unfolding MapSBlockRead_def Let_def by (intro sb_rules sb_leaves)

lemma leaves_MapSuperPrepareEntryForUpdate [sb_leaves]: "leaves sb_more (MapSuperPrepareEntryForUpdate c rn lsn)"
  unfolding MapSuperPrepareEntryForUpdate_def Let_def by (intro sb_rules sb_leaves)

lemma leaves_MapSBlockUpdateLogicalNblocks [sb_leaves]: "leaves sb_more (MapSBlockUpdateLogicalNblocks c rn f n b lsn)"
  unfolding MapSBlockUpdateLogicalNblocks_def Let_def by (intro sb_rules sb_leaves)

lemma leaves_MapSBlockSetPendingFlag [sb_leaves]: "leaves sb_more (MapSBlockSetPendingFlag c rn b lsn)"
  unfolding MapSBlockSetPendingFlag_def Let_def by (intro sb_rules sb_leaves)

lemma leaves_MapSBlockBumpPhysicalState [sb_leaves]: "leaves sb_more (MapSBlockBumpPhysicalState c rn f n b1 b2 lsn)"
  unfolding MapSBlockBumpPhysicalState_def Let_def by (intro sb_rules sb_leaves)

lemma leaves_MapSBlockBumpLogicalNblocks [sb_leaves]: "leaves sb_more (MapSBlockBumpLogicalNblocks c rn f n lsn)"
  unfolding MapSBlockBumpLogicalNblocks_def Let_def by (intro sb_rules sb_leaves)

lemma leaves_MapSBlockSetLogicalNblocks [sb_leaves]: "leaves sb_more (MapSBlockSetLogicalNblocks c rn f n lsn)"
  unfolding MapSBlockSetLogicalNblocks_def Let_def by (intro sb_rules sb_leaves)

lemma leaves_MapSBlockBumpPhysicalNblocks [sb_leaves]: "leaves sb_more (MapSBlockBumpPhysicalNblocks c rn f n lsn)"
  unfolding MapSBlockBumpPhysicalNblocks_def Let_def by (intro sb_rules sb_leaves)

lemma leaves_MapSBlockBumpNextFreePhysBlock [sb_leaves]: "leaves sb_more (MapSBlockBumpNextFreePhysBlock c rn f n lsn)"
  unfolding MapSBlockBumpNextFreePhysBlock_def Let_def by (intro sb_rules sb_leaves)

lemma leaves_MapSBlockSetSkipWalPending [sb_leaves]: "leaves sb_more (MapSBlockSetSkipWalPending c rn b lsn)"
  unfolding MapSBlockSetSkipWalPending_def Let_def by (intro sb_rules sb_leaves)

lemma leaves_MapSBlockInit [sb_leaves]: "leaves sb_more (MapSBlockInit c rn lsn)"
  unfolding MapSBlockInit_def Let_def by (intro sb_rules sb_leaves)

lemma leaves_MapSBlockEnsureLoaded [sb_leaves]: "leaves sb_more (MapSBlockEnsureLoaded c rn)"
  unfolding MapSBlockEnsureLoaded_def Let_def by (intro sb_rules sb_leaves)

lemma leaves_sblock_getter [sb_leaves]: "leaves sb_more (sblock_getter g c rn f)"
  unfolding sblock_getter_def Let_def by (intro sb_rules sb_leaves)

lemma leaves_MapSBlockTryGetLogicalNblocks [sb_leaves]: "leaves sb_more (MapSBlockTryGetLogicalNblocks c rn f)"
  unfolding MapSBlockTryGetLogicalNblocks_def Let_def by (intro sb_rules sb_leaves)

lemma leaves_MapSBlockTryGetPhysicalNblocks [sb_leaves]: "leaves sb_more (MapSBlockTryGetPhysicalNblocks c rn f)"
  unfolding MapSBlockTryGetPhysicalNblocks_def Let_def by (intro sb_rules sb_leaves)

lemma leaves_MapSBlockTryGetNextFreePhysBlock [sb_leaves]: "leaves sb_more (MapSBlockTryGetNextFreePhysBlock c rn f)"
  unfolding MapSBlockTryGetNextFreePhysBlock_def Let_def by (intro sb_rules sb_leaves)

lemma leaves_MapSBlockForkExists [sb_leaves]: "leaves sb_more (MapSBlockForkExists c rn f)"
  unfolding MapSBlockForkExists_def Let_def by (intro sb_rules sb_leaves)

lemma leaves_MapSBlockIsSkipWalPending [sb_leaves]: "leaves sb_more (MapSBlockIsSkipWalPending c rn)"
  unfolding MapSBlockIsSkipWalPending_def Let_def by (intro sb_rules sb_leaves)

lemma leaves_MapSBlockTryGetReclaimBoundary [sb_leaves]: "leaves sb_more (MapSBlockTryGetReclaimBoundary c rn f)"
  unfolding MapSBlockTryGetReclaimBoundary_def Let_def by (intro sb_rules sb_leaves)

lemma leaves_MapSBlockAdvanceReclaimBoundary [sb_leaves]: "leaves sb_more (MapSBlockAdvanceReclaimBoundary c rn f b)"
  unfolding MapSBlockAdvanceReclaimBoundary_def Let_def by (intro sb_rules sb_leaves)

lemma leaves_extend_block [sb_leaves]: "leaves sb_more (extend_block c f sk b)"
  unfolding extend_block_def Let_def by (intro sb_rules sb_leaves)

lemma leaves_extend_loop [sb_leaves]: "leaves sb_more (extend_loop n c rn f sk cur des)"
  by (induction n arbitrary: cur des) (simp_all only: extend_loop.simps Let_def, (intro sb_rules sb_leaves; assumption?)+)

lemma leaves_MapSBlockEnsurePhysicalNblocks [sb_leaves]: "leaves sb_more (MapSBlockEnsurePhysicalNblocks k c rn f n sk)"
  unfolding MapSBlockEnsurePhysicalNblocks_def Let_def by (intro sb_rules sb_leaves)

lemma leaves_on_entry [sb_leaves]: "leaves sb_more (on_entry rn u)"
  unfolding on_entry_def Let_def by (intro sb_rules sb_leaves)

end
