(* ===== verification/MapPins.thy ===== *)
theory MapPins
  imports MapFrames
begin

text \<open>
  Pins and in-flight ownership across backends. The invariant \<open>pin_inv\<close> is stated from the point of
  view of the running backend: \<open>F i\<close> is the number of pins the other backends hold on slot \<open>i\<close>, and \<open>G\<close>
  lists the claims on MAP entries that are not in the running backend's own list (those of the other
  backends, and write barriers). It says that the lookup table and the tags of the slots agree, that
  the reference count of a slot is the number of pins on it, that the set bits of the pending bitmaps
  are exactly the claims, each made once and on a slot that holds the claimed entry's page, and that
  every claim of the running backend is backed by one of its pins.

  \<open>bal \<delta> m \<delta>'\<close> is the triple the proofs use: run with \<open>\<delta>\<close> pins to spare, \<open>m\<close> keeps the invariant and
  leaves \<open>\<delta>'\<close> to spare, or fails without using up more than \<open>\<delta>\<close>.
\<close>

subsection \<open>The lookup table and the tags\<close>

definition cache_ok :: "'x map_buf_scheme \<Rightarrow> bool" where
  "cache_ok s \<longleftrightarrow>
     (\<forall>rn f b i. MapCacheHash s (rn, f, b) = Some i \<longleftrightarrow>
        i < num_slots s \<and> buf_has_tag (MapBuffers s ! i) rn f b) \<and>
     (\<forall>i<num_slots s. length (pending_bits (MapBuffers s ! i)) = MAP_PENDING_BITMAP_WORDS)"

lemma cache_ok_hash:
  "cache_ok s \<Longrightarrow> MapCacheHash s (rn, f, b) = Some i \<longleftrightarrow> i < num_slots s \<and> buf_has_tag (MapBuffers s ! i) rn f b"
  by (simp add: cache_ok_def)

lemma cache_ok_unique:
  assumes "cache_ok s" "i < num_slots s" "j < num_slots s"
    and "buf_has_tag (MapBuffers s ! i) rn f b" "buf_has_tag (MapBuffers s ! j) rn f b"
  shows "i = j"
  using assms cache_ok_hash [OF assms(1), of rn f b] by (metis option.inject)

subsection \<open>Claims\<close>

definition claim_of :: "MapInflightLocalEntry \<Rightarrow> nat \<times> nat" where
  "claim_of e = (inf_slot_id e, inf_entry_idx e)"

definition claim_key :: "MapInflightLocalEntry \<Rightarrow> RelFileLocator \<times> ForkNumber \<times> BlockNumber \<times> nat \<times> nat" where
  "claim_key e = (inf_rnode e, inf_forknum e, inf_lblkno e, inf_slot_id e, inf_entry_idx e)"

definition pending_at :: "MapBufferDesc \<Rightarrow> nat \<Rightarrow> bool" where
  "pending_at b k \<longleftrightarrow> bit (pending_bits b ! (k div 64)) (k mod 64)"

definition entry_ok :: "'x map_buf_scheme \<Rightarrow> MapInflightLocalEntry \<Rightarrow> bool" where
  "entry_ok s e \<longleftrightarrow> inf_slot_id e < num_slots s \<and>
     (\<exists>b. MapInflightDecode (inf_forknum e) (inf_lblkno e) = Inr (b, inf_entry_idx e) \<and>
          buf_has_tag (MapBuffers s ! inf_slot_id e) (inf_rnode e) (inf_forknum e) b)"

definition own_count :: "MapInflightLocalEntry list \<Rightarrow> nat \<Rightarrow> nat" where
  "own_count es i = length (filter (\<lambda>e. inf_slot_id e = i) es)"

abbreviation my_entries :: "'x map_buf_scheme \<Rightarrow> MapInflightLocalEntry list" where
  "my_entries s \<equiv> MapInflightLocalEntries (MyBackend s)"

definition claims_ok :: "MapInflightLocalEntry list \<Rightarrow> 'x map_buf_scheme \<Rightarrow> bool" where
  "claims_ok es s \<longleftrightarrow>
     distinct (map claim_of es) \<and> (\<forall>e\<in>set es. entry_ok s e) \<and>
     (\<forall>i<num_slots s. \<forall>k<2048. pending_at (MapBuffers s ! i) k \<longleftrightarrow> (i, k) \<in> claim_of ` set es) \<and>
     (\<forall>i<num_slots s. unat (pending_count (MapBuffers s ! i)) = card {k. k < 2048 \<and> pending_at (MapBuffers s ! i) k})"

definition pin_inv :: "(nat \<Rightarrow> nat) \<Rightarrow> MapInflightLocalEntry list \<Rightarrow> 'x map_buf_scheme \<Rightarrow> bool" where
  "pin_inv F G s \<longleftrightarrow>
     cache_ok s \<and> claims_ok (my_entries s @ G) s \<and>
     (\<forall>i<num_slots s. rc (buf_state (MapBuffers s ! i)) = private_pins s i + F i \<and>
                      us (buf_state (MapBuffers s ! i)) \<le> 5) \<and>
     (\<forall>i\<ge>num_slots s. private_pins s i = 0 \<and> F i = 0) \<and>
     (\<forall>i. own_count (my_entries s) i \<le> private_pins s i)"

definition slack :: "'x map_buf_scheme \<Rightarrow> nat \<Rightarrow> nat" where
  "slack s i = private_pins s i - own_count (my_entries s) i"

subsection \<open>Steps that do not touch what the invariant reads\<close>

definition slot_view :: "MapBufferDesc \<Rightarrow> RelFileLocator \<times> ForkNumber \<times> BlockNumber option \<times> u32 \<times> u64 list \<times> nat" where
  "slot_view b = (buf_rnode b, buf_forknum b, page_number b, pending_count b, pending_bits b, rc (buf_state b))"

definition pin_same :: "'x map_buf_scheme \<Rightarrow> 'x map_buf_scheme \<Rightarrow> bool" where
  "pin_same s t \<longleftrightarrow>
     map slot_view (MapBuffers t) = map slot_view (MapBuffers s) \<and> MapCacheHash t = MapCacheHash s \<and>
     private_pins t = private_pins s \<and> map claim_key (my_entries t) = map claim_key (my_entries s) \<and>
     ((\<forall>b\<in>set (MapBuffers s). us (buf_state b) \<le> 5) \<longrightarrow> (\<forall>b\<in>set (MapBuffers t). us (buf_state b) \<le> 5))"

interpretation psk: step_rel pin_same
  by unfold_locales (auto simp: pin_same_def)

lemma pin_same_slots: "pin_same s t \<Longrightarrow> num_slots t = num_slots s"
  unfolding pin_same_def by (metis length_map)

lemma pin_same_nth:
  assumes "pin_same s t" and "i < num_slots s"
  shows "slot_view (MapBuffers t ! i) = slot_view (MapBuffers s ! i)"
proof -
  have "map slot_view (MapBuffers t) ! i = map slot_view (MapBuffers s) ! i"
    using assms(1) by (simp add: pin_same_def)
  then show ?thesis using assms(2) pin_same_slots [OF assms(1)] by simp
qed

lemma slot_view_tag: "slot_view b = slot_view b' \<Longrightarrow> buf_has_tag b = buf_has_tag b'"
  by (intro ext) (simp add: slot_view_def buf_has_tag_def)

lemma entries_cong:
  assumes "map claim_key es = map claim_key es'"
  shows "map claim_of es = map claim_of es'" "own_count es = own_count es'"
    "(\<forall>e\<in>set es. entry_ok s e) \<longleftrightarrow> (\<forall>e\<in>set es'. entry_ok s e)"
proof -
  have all: "list_all2 (\<lambda>a b. claim_key a = claim_key b) es es'"
    using assms by (metis list_all2_eq list_all2_map1 list_all2_map2)
  show "map claim_of es = map claim_of es'"
    using all by (induction rule: list_all2_induct) (auto simp: claim_key_def claim_of_def)
  show "own_count es = own_count es'"
    using all by (induction rule: list_all2_induct) (auto simp: claim_key_def own_count_def fun_eq_iff)
  show "(\<forall>e\<in>set es. entry_ok s e) \<longleftrightarrow> (\<forall>e\<in>set es'. entry_ok s e)"
    using all by (induction rule: list_all2_induct) (auto simp: claim_key_def entry_ok_def)
qed

lemma claims_ok_cong:
  assumes "map claim_key es = map claim_key es'"
  shows "claims_ok es s = claims_ok es' s"
proof -
  have "set (map claim_of es) = set (map claim_of es')" using entries_cong(1) [OF assms] by simp
  then have img: "claim_of ` set es = claim_of ` set es'" by simp
  show ?thesis unfolding claims_ok_def img entries_cong(1) [OF assms] entries_cong(3) [OF assms] ..
qed

lemma pin_same_inv:
  assumes same: "pin_same s t" and inv: "pin_inv F G s"
  shows "pin_inv F G t" "slack t = slack s"
proof -
  note n = pin_same_slots [OF same]
  have view: "slot_view (MapBuffers t ! i) = slot_view (MapBuffers s ! i)" if "i < num_slots s" for i
    using pin_same_nth [OF same that] .
  have tag: "buf_has_tag (MapBuffers t ! i) = buf_has_tag (MapBuffers s ! i)" if "i < num_slots s" for i
    using slot_view_tag [OF view [OF that]] .
  have pend: "pending_at (MapBuffers t ! i) = pending_at (MapBuffers s ! i)"
    "pending_count (MapBuffers t ! i) = pending_count (MapBuffers s ! i)"
    "length (pending_bits (MapBuffers t ! i)) = length (pending_bits (MapBuffers s ! i))"
    "rc (buf_state (MapBuffers t ! i)) = rc (buf_state (MapBuffers s ! i))"
    if "i < num_slots s" for i
    using view [OF that] by (auto simp: slot_view_def pending_at_def fun_eq_iff)
  have fields: "MapCacheHash t = MapCacheHash s" "private_pins t = private_pins s"
    "map claim_key (my_entries t) = map claim_key (my_entries s)"
    using same by (simp_all add: pin_same_def)
  have own: "own_count (my_entries t) = own_count (my_entries s)" by (rule entries_cong(2) [OF fields(3)])
  have "cache_ok t" using inv n tag pend(3) fields by (auto simp: pin_inv_def cache_ok_def)
  moreover have "claims_ok (my_entries s @ G) t"
    using inv tag pend(1,2) unfolding pin_inv_def claims_ok_def entry_ok_def n by auto
  then have "claims_ok (my_entries t @ G) t"
    using claims_ok_cong [of "my_entries t @ G" "my_entries s @ G" t] fields(3) by simp
  moreover have "\<forall>b\<in>set (MapBuffers s). us (buf_state b) \<le> 5"
    using inv by (auto simp: pin_inv_def in_set_conv_nth)
  then have "us (buf_state (MapBuffers t ! i)) \<le> 5" if "i < num_slots t" for i
    using same that by (simp add: pin_same_def)
  ultimately show "pin_inv F G t" using inv pend(4) n fields own by (auto simp: pin_inv_def)
  show "slack t = slack s" by (simp add: slack_def fields own fun_eq_iff)
qed

subsection \<open>Operations that do not touch it\<close>

named_theorems pin_leaves \<open>operations that keep \<open>pin_same\<close>\<close>

definition buf_more :: "'x map_sb_scheme \<Rightarrow> 'x map_sb_scheme \<Rightarrow> bool" where
  "buf_more s t \<longleftrightarrow> map_sb.more t = map_sb.more s"

lemma buf_more_pin: "buf_more s t \<Longrightarrow> pin_same s t"
  by (cases s; cases t) (auto simp: buf_more_def pin_same_def)

lemma leaves_sb_pin: "leaves sb_more m \<Longrightarrow> leaves pin_same m"
  by (erule leaves_mono) (auto intro: buf_more_pin simp: sb_more_def buf_more_def)

lemma leaves_ctx_create [pin_leaves]: "leaves pin_same (umfile_ctx_create_temporary r)"
  by (rule leavesI, rule buf_more_pin)
    (simp add: umfile_ctx_create_temporary_def umfile_ctx_create_def buf_more_def)

lemma leaves_ctx_acquire [pin_leaves]: "leaves pin_same (umfile_ctx_acquire r)"
  by (rule leavesI, rule buf_more_pin)
    (simp add: umfile_ctx_acquire_def umfile_ctx_create_def buf_more_def bindU_def runU split: option.splits)

lemma clock_frame_pin: "clock_frame s t \<Longrightarrow> pin_same s t"
proof -
  assume fr: "clock_frame s t"
  then have all: "list_all2 buf_like (MapBuffers s) (MapBuffers t)" by (simp add: clock_frame_def)
  then have "map slot_view (MapBuffers t) = map slot_view (MapBuffers s)"
    by (induction rule: list_all2_induct) (auto simp: buf_like_def slot_view_def)
  moreover have "(\<forall>b\<in>set (MapBuffers s). us (buf_state b) \<le> 5) \<longrightarrow> (\<forall>b\<in>set (MapBuffers t). us (buf_state b) \<le> 5)"
    using all by (induction rule: list_all2_induct) (auto simp: buf_like_def)
  ultimately show ?thesis using fr by (simp add: clock_frame_def pin_same_def)
qed

interpretation cfk: step_rel clock_frame
  by unfold_locales (auto intro: clock_frame_trans)

definition clock_step :: "'x map_buf_scheme \<Rightarrow> (um_error + 'a) \<times> 'x map_buf_scheme \<Rightarrow> ('a \<Rightarrow> nat option) \<Rightarrow> bool" where
  "clock_step s r slot_of \<longleftrightarrow>
     clock_frame s (snd r) \<and> (\<forall>x i. fst r = Inr x \<longrightarrow> slot_of x = Some i \<longrightarrow> i < num_slots s)"

lemma clock_step_after: "clock_frame s t \<Longrightarrow> clock_step t r g \<Longrightarrow> clock_step s r g"
  by (auto simp: clock_step_def dest: clock_frame_length intro: clock_frame_trans)

lemma MapClockFreeList_step: "clock_step s (MapClockFreeList s) (\<lambda>x. x)"
proof (induction s rule: MapClockFreeList.induct)
  case (1 s)
  show ?case
  proof (cases "first_free_buffer s")
    case (FREENEXT_SLOT i)
    show ?thesis
    proof (cases "i < num_slots s \<and>
        \<not> (rc (buf_state (MapBuffers s ! i)) = 0 \<and> us (buf_state (MapBuffers s ! i)) = 0 \<and> pending_count (MapBuffers s ! i) = 0)")
      case True
      then have "clock_step (pop_free i s) (MapClockFreeList (pop_free i s)) (\<lambda>x. x)"
        by (intro 1 [OF FREENEXT_SLOT _ refl refl]) simp_all
      then have "clock_step s (MapClockFreeList (pop_free i s)) (\<lambda>x. x)"
        by (rule clock_step_after [OF clock_frame_pop])
      then show ?thesis using True FREENEXT_SLOT by (subst MapClockFreeList.simps) (auto simp: Let_def)
    next
      case False
      then show ?thesis using FREENEXT_SLOT
        by (subst MapClockFreeList.simps) (auto simp: Let_def clock_step_def)
    qed
  qed (simp_all add: MapClockFreeList.simps clock_step_def)
qed

lemma MapClockSweep_step: "clock_step s (MapClockSweep k s) Some"
proof (induction k s rule: MapClockSweep.induct)
  case (1 k s)
  let ?v = "fst (ClockSweepTick s)" and ?s1 = "snd (ClockSweepTick s)"
  show ?case
  proof (cases "num_slots s = 0 \<or> num_slots s \<ge> 2 ^ 32")
    case True
    then show ?thesis by (simp add: MapClockSweep.simps clock_step_def)
  next
    case False
    then have v: "?v < num_slots s" by (intro ClockSweepTick_bound) auto
    consider (take) "slot_free (MapBuffers s ! ?v)" "us (buf_state (MapBuffers s ! ?v)) = 0"
      | (use_it) "slot_free (MapBuffers s ! ?v)" "us (buf_state (MapBuffers s ! ?v)) \<noteq> 0"
      | (skip) "\<not> slot_free (MapBuffers s ! ?v)" by blast
    then show ?thesis
    proof cases
      case take
      then show ?thesis using False v by (subst MapClockSweep.simps) (simp add: Let_def clock_step_def)
    next
      case use_it
      then have "clock_frame s (use_down ?v ?s1)"
        by (auto intro!: clock_frame_trans [OF clock_frame_tick clock_frame_use_down])
      moreover have "clock_step (use_down ?v ?s1) (MapClockSweep (num_slots s) (use_down ?v ?s1)) Some"
        using 1(1) [OF False refl refl refl] use_it by simp
      ultimately have "clock_step s (MapClockSweep (num_slots s) (use_down ?v ?s1)) Some"
        by (rule clock_step_after)
      then show ?thesis using False use_it by (subst MapClockSweep.simps) (simp add: Let_def)
    next
      case skip
      show ?thesis
      proof (cases "k \<le> 1")
        case True
        then show ?thesis using False skip by (subst MapClockSweep.simps) (simp add: Let_def clock_step_def)
      next
        case more: False
        then have "clock_step s (MapClockSweep (k - 1) ?s1) Some"
          using clock_step_after [OF clock_frame_tick 1(2) [OF False refl refl refl skip]] by simp
        then show ?thesis using False skip more by (subst MapClockSweep.simps) (simp add: Let_def)
      qed
    qed
  qed
qed

lemma MapWakeWriter_frame: "clock_frame s (snd (MapWakeWriter s))"
  by (simp add: MapWakeWriter_def runU split: option.splits)

lemma leaves_clock_pin: "leaves clock_frame m \<Longrightarrow> leaves pin_same m"
  by (erule leaves_mono) (rule clock_frame_pin)

lemma leaves_MapClockFreeList: "leaves clock_frame MapClockFreeList"
  using MapClockFreeList_step by (auto simp: leaves_def clock_step_def)

lemma leaves_MapClockSweep: "leaves clock_frame (MapClockSweep k)"
  unfolding leaves_def by (metis MapClockSweep_step clock_step_def)

lemma leaves_MapClockGetBuffer: "leaves clock_frame MapClockGetBuffer"
  unfolding MapClockGetBuffer_def
  by (intro cfk.leaves_rules leaves_MapClockFreeList leaves_MapClockSweep) (simp add: leaves_def MapWakeWriter_frame)

lemma MapClockGetBuffer_bound:
  assumes "MapClockGetBuffer s = (Inr i, t)"
  shows "i < num_slots s"
proof -
  obtain s1 where 1: "MapWakeWriter s = (Inr (), s1)" "clock_frame s s1" using MapWakeWriter_spec [of s] by blast
  obtain r s2 where 2: "MapClockFreeList s1 = (Inr r, s2)"
      and run: "(case r of Some slot_id \<Rightarrow> returnU slot_id
                 | None \<Rightarrow> bindU (getU (\<lambda>s. num_slots s)) (\<lambda>n. MapClockSweep n)) s2 = (Inr i, t)"
    using assms 1(1) by (auto simp: MapClockGetBuffer_def bindU_eq_Inr)
  note fl = MapClockFreeList_step [of s1, unfolded 2 clock_step_def]
  show ?thesis
  proof (cases r)
    case None
    then have sw: "MapClockSweep (num_slots s2) s2 = (Inr i, t)" using run by (simp add: runU)
    have "i < num_slots s2" using MapClockSweep_step [of s2 "num_slots s2", unfolded sw clock_step_def] by simp
    then show ?thesis using fl clock_frame_length [OF 1(2)] clock_frame_length [of s1 s2] by simp
  next
    case (Some j)
    then show ?thesis using run fl clock_frame_length [OF 1(2)] by (simp add: runU)
  qed
qed


lemma pin_same_upd_buf:
  assumes "slot_view (g (MapBuffers s ! i)) = slot_view (MapBuffers s ! i)"
    and "us (buf_state (MapBuffers s ! i)) \<le> 5 \<Longrightarrow> us (buf_state (g (MapBuffers s ! i))) \<le> 5"
  shows "pin_same s (upd_buf i g s)"
proof -
  have "map slot_view (MapBuffers (upd_buf i g s)) = map slot_view (MapBuffers s)"
    by (rule nth_equalityI) (auto simp: nth_upd_buf assms(1))
  moreover have "us (buf_state b) \<le> 5"
    if all: "\<forall>b\<in>set (MapBuffers s). us (buf_state b) \<le> 5" and b: "b \<in> set (MapBuffers (upd_buf i g s))" for b
  proof -
    obtain j where "j < num_slots s" "b = MapBuffers (upd_buf i g s) ! j"
      using b by (auto simp: in_set_conv_nth)
    then show ?thesis using all assms(2) by (auto simp: nth_upd_buf)
  qed
  ultimately show ?thesis by (auto simp: pin_same_def)
qed

lemma pin_same_backend:
  "MapPrivateRefCount (g (MyBackend s)) = private_pins s \<Longrightarrow>
   map claim_key (MapInflightLocalEntries (g (MyBackend s))) = map claim_key (my_entries s) \<Longrightarrow>
   pin_same s (upd_backend g s)"
  by (simp add: pin_same_def upd_backend_def)

lemma low_bits_kept:
  assumes "take_bit 14 set_bits = 0" "take_bit 14 clear_bits = 0"
  shows "rc ((st OR set_bits) AND NOT clear_bits) = rc st" "us ((st OR set_bits) AND NOT clear_bits) = us st"
proof -
  have "take_bit 14 ((st OR set_bits) AND NOT clear_bits) = take_bit 14 st"
  proof (rule bit_eqI)
    fix k
    have "\<not> bit set_bits k" "\<not> bit clear_bits k" if "k < 14"
      using assms that by (metis bit_0_eq bit_take_bit_iff bot_apply bot_bool_def)+
    then show "bit (take_bit 14 ((st OR set_bits) AND NOT clear_bits)) k = bit (take_bit 14 st) k"
      by (auto simp: bit_simps dest: bit_imp_le_length)
  qed
  then show "rc ((st OR set_bits) AND NOT clear_bits) = rc st" "us ((st OR set_bits) AND NOT clear_bits) = us st"
    by (rule low_bits_cong)+
qed

lemma flag_low_bits [simp]:
  "take_bit 14 MAPBUF_DIRTY = 0" "take_bit 14 MAPBUF_IO_IN_PROGRESS = 0" "take_bit 14 MAPBUF_IO_ERROR = 0"
  "take_bit 14 MAPBUF_JUST_DIRTIED = 0" "take_bit 14 MAPBUF_NOT_MATERIALIZED = 0"
  "take_bit 14 MAPBUF_CHECKPOINT_NEEDED = 0"
  by (simp_all add: mapbuf_bits)

lemma terminate_state_fields:
  assumes "take_bit 14 set_bits = 0"
  shows "rc (terminate_state cd set_bits st) = rc st" "us (terminate_state cd set_bits st) = us st"
proof -
  have clr: "rc (st AND NOT w) = rc st" "us (st AND NOT w) = us st" if "take_bit 14 w = 0" for st w
    using low_bits_kept [of 0 w st] that by simp_all
  have st: "rc (st OR set_bits) = rc st" "us (st OR set_bits) = us st" for st
    using low_bits_kept [of set_bits 0 st] assms by simp_all
  show "rc (terminate_state cd set_bits st) = rc st" "us (terminate_state cd set_bits st) = us st"
    by (simp_all add: terminate_state_def Let_def clr st flip: and.assoc)
qed

lemma pin_same_bits:
  assumes "take_bit 14 set_bits = 0" "take_bit 14 clear_bits = 0"
  shows "pin_same s (upd_buf i (\<lambda>b. b\<lparr>buf_state := (buf_state b OR set_bits) AND NOT clear_bits\<rparr>) s)"
  by (rule pin_same_upd_buf) (simp_all add: slot_view_def low_bits_kept [OF assms])

lemma leaves_bits [pin_leaves]:
  "take_bit 14 set_bits = 0 \<Longrightarrow> take_bit 14 clear_bits = 0 \<Longrightarrow>
   leaves pin_same (MapBufferUpdateStateBits i set_bits clear_bits)"
  unfolding MapBufferUpdateStateBits_def by (rule psk.leaves_modify) (rule pin_same_bits)

lemmas pin_rules = psk.leaves_rules psk.leaves_modify leaves_free_next leaves_read_status
  fs_leaves [THEN leaves_fs_sb, THEN leaves_sb_pin] sb_leaves [THEN leaves_sb_pin]

lemma leaves_getB [pin_leaves]: "leaves pin_same (getB i)"
  unfolding getB_def by (intro pin_rules)

lemma leaves_MapClockGetBuffer_pin [pin_leaves]: "leaves pin_same MapClockGetBuffer"
  by (rule leaves_clock_pin [OF leaves_MapClockGetBuffer])

lemma leaves_MapWakeWriter [pin_leaves]: "leaves pin_same MapWakeWriter"
  by (rule leaves_clock_pin) (simp add: leaves_def MapWakeWriter_frame)

lemma leaves_MapCacheLookup [pin_leaves]: "leaves pin_same (MapCacheLookup r f b)"
  unfolding MapCacheLookup_def by (intro pin_rules)

lemma leaves_set_page [pin_leaves]: "leaves pin_same (set_page i p)"
  unfolding set_page_def by (intro pin_rules) (simp add: pin_same_def)

lemma leaves_set_page_entry [pin_leaves]: "leaves pin_same (set_page_entry i k v)"
  unfolding set_page_entry_def by (intro pin_rules) (simp add: pin_same_def)

lemma leaves_upd_preload [pin_leaves]: "leaves pin_same (upd_preload f g)"
  unfolding upd_preload_def by (intro pin_rules pin_same_backend) simp_all

lemma leaves_InProgress [pin_leaves]:
  "leaves pin_same (modifyU (upd_backend (\<lambda>me. me\<lparr>InProgressMapBuf := x\<rparr>)))"
  by (intro pin_rules pin_same_backend) simp_all

lemma leaves_page_lsn [pin_leaves]: "leaves pin_same (modifyU (upd_buf i (\<lambda>b. b\<lparr>buf_page_lsn := l\<rparr>)))"
  by (intro pin_rules pin_same_upd_buf) (simp_all add: slot_view_def)

lemma leaves_MapEnsureBufferMaterialized [pin_leaves]: "leaves pin_same (MapEnsureBufferMaterialized c i)"
  unfolding MapEnsureBufferMaterialized_def Let_def by (intro pin_rules pin_leaves) simp_all

lemma leaves_MapMarkBufferDirty [pin_leaves]: "leaves pin_same (MapMarkBufferDirty c i l)"
  unfolding MapMarkBufferDirty_def Let_def by (intro pin_rules pin_leaves) simp_all

lemma leaves_MapStartBufferIO [pin_leaves]: "leaves pin_same (MapStartBufferIO i r)"
  unfolding MapStartBufferIO_def MapWaitIO_def by (intro pin_rules pin_leaves) simp_all

lemma leaves_MapTerminateBufferIO [pin_leaves]:
  "take_bit 14 bs = 0 \<Longrightarrow> leaves pin_same (MapTerminateBufferIO i cd bs)"
  unfolding MapTerminateBufferIO_def
  by (intro pin_rules pin_leaves pin_same_upd_buf) (simp_all add: slot_view_def terminate_state_fields)

lemma leaves_MapAbortBufferIO [pin_leaves]: "leaves pin_same MapAbortBufferIO"
  unfolding MapAbortBufferIO_def by (intro pin_rules pin_leaves) simp_all


lemma leaves_MapFlushWriteCacheReset [pin_leaves]: "leaves pin_same (MapFlushWriteCacheReset wc)"
  unfolding MapFlushWriteCacheReset_def by (intro pin_rules pin_leaves)

lemma leaves_MapFlushContextFor [pin_leaves]: "leaves pin_same (MapFlushContextFor wc r)"
  unfolding MapFlushContextFor_def by (intro pin_rules pin_leaves)

lemma leaves_MapFlushWritePage [pin_leaves]: "leaves pin_same (MapFlushWritePage r c b p l)"
  unfolding MapFlushWritePage_def by (intro pin_rules pin_leaves)

lemma leaves_MapFlushBufferCached [pin_leaves]: "leaves pin_same (MapFlushBufferCached i wc cp)"
  unfolding MapFlushBufferCached_def by (intro pin_rules pin_leaves) simp_all

lemma leaves_MapFlushBuffer [pin_leaves]: "leaves pin_same (MapFlushBuffer i)"
  unfolding MapFlushBuffer_def by (intro pin_rules pin_leaves)

lemma leaves_MapCollectDirtyBufferTargets [pin_leaves]: "leaves pin_same (MapCollectDirtyBufferTargets r m)"
  unfolding MapCollectDirtyBufferTargets_def by (intro pin_rules pin_leaves) simp_all

lemma leaves_MapFlushTargetLoop [pin_leaves]: "leaves pin_same (MapFlushTargetLoop ts mx cp wc k)"
  by (induction ts arbitrary: wc k) (simp_all only: MapFlushTargetLoop.simps Let_def, (intro pin_rules pin_leaves; assumption?)+)

lemma leaves_MapFlushDirtyBuffers [pin_leaves]: "leaves pin_same (MapFlushDirtyBuffers mx cp)"
  unfolding MapFlushDirtyBuffers_def by (intro pin_rules pin_leaves)

lemma leaves_MapFlushRelationBuffers [pin_leaves]: "leaves pin_same (MapFlushRelationBuffers r cp)"
  unfolding MapFlushRelationBuffers_def by (intro pin_rules pin_leaves)

lemma leaves_MapBgWriterFlush [pin_leaves]: "leaves pin_same (MapBgWriterFlush mx)"
  unfolding MapBgWriterFlush_def by (intro pin_rules pin_leaves)

lemma leaves_flush_super_entry [pin_leaves]: "leaves pin_same (flush_super_entry r)"
  unfolding flush_super_entry_def MapFlushWriteSuperblockEntry_def UmMetadataWriteSuperblock_def
  by (intro pin_rules pin_leaves)

lemma leaves_flush_super_entries [pin_leaves]: "leaves pin_same (flush_super_entries rs n)"
  by (induction rs arbitrary: n) (simp_all only: flush_super_entries.simps, (intro pin_rules pin_leaves; assumption?)+)

lemma leaves_MapFlushSuperRounds [pin_leaves]: "leaves pin_same (MapFlushSuperRounds k cap n)"
  by (induction k arbitrary: cap n) (simp_all only: MapFlushSuperRounds.simps, (intro pin_rules pin_leaves; assumption?)+)

lemma leaves_MapCheckpoint [pin_leaves]: "leaves pin_same MapCheckpoint"
  unfolding MapCheckpoint_def MapFlushDirtySuperblocks_def by (intro pin_rules pin_leaves)

lemma leaves_MapCheckpointRelation [pin_leaves]: "leaves pin_same (MapCheckpointRelation r)"
  unfolding MapCheckpointRelation_def MapFlushRelationSuperblocks_def by (intro pin_rules pin_leaves)

lemma leaves_MapMapPageWithinLogicalRange [pin_leaves]: "leaves pin_same (MapMapPageWithinLogicalRange c r f b)"
  unfolding MapMapPageWithinLogicalRange_def by (intro pin_rules pin_leaves)

lemma leaves_fill_page [pin_leaves]: "leaves pin_same (fill_page c r f b i)"
  unfolding fill_page_def Let_def by (intro pin_rules pin_leaves) simp_all

lemma leaves_MapMaybePreallocateFork [pin_leaves]: "leaves pin_same (MapMaybePreallocateFork g ok c r f bg)"
proof -
  have dec: "leaves R a \<Longrightarrow> leaves R b \<Longrightarrow> (\<And>e. leaves R (h e)) \<Longrightarrow> (\<And>t. leaves R (k t)) \<Longrightarrow>
      leaves R (case d of PREALLOC_NO \<Rightarrow> a | PREALLOC_WAKE \<Rightarrow> b | PREALLOC_ERROR e \<Rightarrow> h e | PREALLOC_GO t \<Rightarrow> k t)"
    for R :: "'x map_buf_scheme \<Rightarrow> 'x map_buf_scheme \<Rightarrow> bool" and a b :: "('x map_buf_scheme, 'b) um" and h k d
    by (cases d) simp_all
  show ?thesis unfolding MapMaybePreallocateFork_def Let_def by (intro dec pin_rules pin_leaves)
qed

lemma leaves_local_find [pin_leaves]: "leaves pin_same (local_find r f l)"
  unfolding local_find_def by (intro pin_rules)

lemma leaves_MapInflightLookupOwnedPblk [pin_leaves]: "leaves pin_same (MapInflightLookupOwnedPblk r f l)"
  unfolding MapInflightLookupOwnedPblk_def by (intro pin_rules pin_leaves)

lemma leaves_MapInflightFinishClaim [pin_leaves]: "leaves pin_same (MapInflightFinishClaim r f l p)"
proof -
  have "map claim_key (es[i := (es ! i)\<lparr>inf_pblkno := p\<rparr>]) = map claim_key es" for es i
    by (cases "i < length es") (simp_all add: map_update claim_key_def list_update_same_conv list_update_beyond)
  then show ?thesis unfolding MapInflightFinishClaim_def by (intro pin_rules pin_same_backend) simp_all
qed

lemma leaves_reserve_from_entry [pin_leaves]: "leaves pin_same (reserve_from_entry r f l nw busy)"
  unfolding reserve_from_entry_def by (intro pin_rules pin_leaves)

lemma leaves_page_entry [pin_leaves]: "leaves pin_same (page_entry i k)"
  unfolding page_entry_def by (intro pin_rules)

end
