(* ===== verification/MapClaims.thy ===== *)
theory MapClaims
  imports MapPins "HOL-Library.Multiset"
begin

text \<open>
  The accounting of pins and claims through the operations of \<^verbatim>\<open>mapbuf.c\<close>, \<^verbatim>\<open>mapinflight.c\<close> and
  \<^verbatim>\<open>map.c\<close>: the bits of the pending bitmap, the state-level effect of a pin, an unpin, a claim, a
  release and the takeover of a victim slot, and on top of them the triple \<open>bal\<close> for every operation
  that pins a page.
\<close>

subsection \<open>Bits of the pending bitmap\<close>

lemma pending_word_bits: "MAP_PENDING_BITMAP_WORDS = 32" "MAP_PENDING_BITS_PER_WORD = 64"
  by (simp_all add: MAP_PENDING_BITMAP_WORDS_def MAP_PENDING_BITS_PER_WORD_def)

lemma pending_at_iff: "pending_at b k \<longleftrightarrow> pending_word b k AND MapInflightEntryMask k \<noteq> 0"
  by (simp add: pending_at_def pending_word_def MapInflightEntryMask_def pending_word_bits
      bit_iff_and_push_bit_not_eq_0)

lemma mask_bit: "bit (MapInflightEntryMask k) n \<longleftrightarrow> n = k mod 64"
proof -
  have "k mod 64 < 64" by simp
  then show ?thesis
    by (auto simp: MapInflightEntryMask_def pending_word_bits bit_exp_iff)
qed

lemma same_word_bit: "(j div 64 = k div 64 \<and> j mod 64 = k mod 64) \<longleftrightarrow> j = (k :: nat)"
  by (metis div_mult_mod_eq)

lemma pending_at_set:
  assumes "length (pending_bits b) = 32" "k < 2048" "j < 2048"
  shows "pending_at (set_pending_word k (pending_word b k OR MapInflightEntryMask k) b) j \<longleftrightarrow> j = k \<or> pending_at b j"
    and "pending_at (set_pending_word k (pending_word b k AND NOT (MapInflightEntryMask k)) b) j \<longleftrightarrow> j \<noteq> k \<and> pending_at b j"
proof -
  let ?w = "pending_bits b ! (k div 64)"
  have len: "k div 64 < 32" using assms(2) by simp
  have at: "pending_at (set_pending_word k x b) j \<longleftrightarrow> (if j div 64 = k div 64 then bit x (j mod 64) else pending_at b j)" for x
    using assms(1) len by (simp add: pending_at_def set_pending_word_def pending_word_bits nth_list_update)
  show "pending_at (set_pending_word k (pending_word b k OR MapInflightEntryMask k) b) j \<longleftrightarrow> j = k \<or> pending_at b j"
    unfolding at using same_word_bit [of j k]
    by (auto simp: bit_or_iff mask_bit pending_word_def pending_word_bits pending_at_def)
  have "bit (NOT (MapInflightEntryMask k)) (j mod 64) \<longleftrightarrow> j mod 64 \<noteq> k mod 64"
    by (simp add: bit_not_iff mask_bit)
  then show "pending_at (set_pending_word k (pending_word b k AND NOT (MapInflightEntryMask k)) b) j \<longleftrightarrow> j \<noteq> k \<and> pending_at b j"
    unfolding at using same_word_bit [of j k]
    by (auto simp: bit_and_iff pending_word_def pending_word_bits pending_at_def)
qed

subsection \<open>Claims as a multiset\<close>

lemma claims_ok_mset:
  assumes "mset es = mset es'"
  shows "claims_ok es s = claims_ok es' s"
proof -
  have "distinct (map claim_of es) = distinct (map claim_of es')"
    using assms by (intro mset_eq_imp_distinct_iff) simp
  moreover have "set es = set es'" by (rule mset_eq_setD [OF assms])
  ultimately show ?thesis by (simp add: claims_ok_def)
qed

lemma own_count_mset:
  assumes "mset es = mset es'"
  shows "own_count es = own_count es'"
proof
  fix i
  have "size (filter_mset (\<lambda>e. inf_slot_id e = i) (mset es)) = size (filter_mset (\<lambda>e. inf_slot_id e = i) (mset es'))"
    using assms by simp
  then show "own_count es i = own_count es' i" by (simp add: own_count_def flip: mset_filter)
qed

lemma own_count_simps [simp]:
  "own_count [] i = 0" "own_count (e # es) i = (if inf_slot_id e = i then 1 else 0) + own_count es i"
  "own_count (es @ es') i = own_count es i + own_count es' i"
  by (simp_all add: own_count_def)

lemma mset_drop_swap: "i < length xs \<Longrightarrow> add_mset (xs ! i) (mset (drop_swap i xs)) = mset xs"
proof -
  assume i: "i < length xs"
  then have ne: "xs \<noteq> []" by auto
  then obtain ys y where xs: "xs = ys @ [y]" by (metis append_butlast_last_id)
  show ?thesis
  proof (cases "i = length ys")
    case False
    then have "i < length ys" using i xs by simp
    then show ?thesis using xs False
      by (simp add: drop_swap_def mset_update nth_append)
  qed (simp add: xs drop_swap_def)
qed

lemma decode_idx: "MapInflightDecode f l = Inr (b, k) \<Longrightarrow> k < 2048"
  by (simp add: MapInflightDecode_nat)


subsection \<open>Setting and clearing a bit\<close>

definition claim_bit :: "nat \<Rightarrow> MapBufferDesc \<Rightarrow> MapBufferDesc" where
  "claim_bit k b = (set_pending_word k (pending_word b k OR MapInflightEntryMask k) b)
     \<lparr>pending_count := pending_count b + 1\<rparr>"

definition release_bit :: "nat \<Rightarrow> MapBufferDesc \<Rightarrow> MapBufferDesc" where
  "release_bit k b = (set_pending_word k (pending_word b k AND NOT (MapInflightEntryMask k)) b)
     \<lparr>pending_count := pending_count b - 1\<rparr>"

definition count_ok :: "MapBufferDesc \<Rightarrow> bool" where
  "count_ok b \<longleftrightarrow> unat (pending_count b) = card {k. k < 2048 \<and> pending_at b k}"

lemma bit_tag [simp]:
  "buf_has_tag (claim_bit k b) = buf_has_tag b" "buf_has_tag (release_bit k b) = buf_has_tag b"
  "buf_state (claim_bit k b) = buf_state b" "buf_state (release_bit k b) = buf_state b"
  "length (pending_bits (claim_bit k b)) = length (pending_bits b)"
  "length (pending_bits (release_bit k b)) = length (pending_bits b)"
  by (simp_all add: claim_bit_def release_bit_def buf_has_tag_def set_pending_word_def fun_eq_iff)

lemma pending_at_upd [simp]: "pending_at (b\<lparr>pending_count := n\<rparr>) = pending_at b"
  by (simp add: pending_at_def fun_eq_iff)

lemma pending_at_claim:
  assumes "length (pending_bits b) = 32" "k < 2048" "j < 2048"
  shows "pending_at (claim_bit k b) j \<longleftrightarrow> j = k \<or> pending_at b j"
    and "pending_at (release_bit k b) j \<longleftrightarrow> j \<noteq> k \<and> pending_at b j"
  by (simp_all add: claim_bit_def release_bit_def pending_at_set [OF assms])

lemma card_below: "card {k. k < (2048 :: nat) \<and> P k} \<le> 2048"
proof -
  have "card {k. k < (2048 :: nat) \<and> P k} \<le> card {..<(2048 :: nat)}" by (rule card_mono) auto
  then show ?thesis by simp
qed

lemma count_ok_claim:
  assumes "length (pending_bits b) = 32" "k < 2048" "count_ok b" "\<not> pending_at b k"
  shows "count_ok (claim_bit k b)"
proof -
  have "{j. j < 2048 \<and> pending_at (claim_bit k b) j} = insert k {j. j < 2048 \<and> pending_at b j}"
    using pending_at_claim(1) [OF assms(1,2)] assms(2) by auto
  then have "card {j. j < 2048 \<and> pending_at (claim_bit k b) j} = Suc (unat (pending_count b))"
    using assms(3,4) by (simp add: count_ok_def)
  moreover have "unat (pending_count b) \<le> 2048" using assms(3) card_below by (simp add: count_ok_def)
  then have "unat (pending_count b + 1) = Suc (unat (pending_count b))" by (simp add: unat_word_ariths)
  ultimately show ?thesis by (simp add: count_ok_def) (simp add: claim_bit_def)
qed

lemma count_ok_release:
  assumes "length (pending_bits b) = 32" "k < 2048" "count_ok b" "pending_at b k"
  shows "count_ok (release_bit k b)"
proof -
  have "{j. j < 2048 \<and> pending_at (release_bit k b) j} = {j. j < 2048 \<and> pending_at b j} - {k}"
    using pending_at_claim(2) [OF assms(1,2)] by auto
  then have "card {j. j < 2048 \<and> pending_at (release_bit k b) j} = unat (pending_count b) - 1"
    using assms(2,3,4) by (simp add: count_ok_def)
  moreover have "k \<in> {j. j < 2048 \<and> pending_at b j}" using assms(2,4) by simp
  then have "unat (pending_count b) \<noteq> 0" using assms(3) by (auto simp: count_ok_def)
  then have "unat (pending_count b - 1) = unat (pending_count b) - 1"
    by (metis unat_eq_zero unat_minus_one)
  ultimately show ?thesis by (simp add: count_ok_def) (simp add: release_bit_def)
qed

lemma claims_ok_alt:
  "claims_ok es s \<longleftrightarrow>
     distinct (map claim_of es) \<and> (\<forall>e\<in>set es. entry_ok s e) \<and>
     (\<forall>i<num_slots s. \<forall>k<2048. pending_at (MapBuffers s ! i) k \<longleftrightarrow> (i, k) \<in> claim_of ` set es) \<and>
     (\<forall>i<num_slots s. count_ok (MapBuffers s ! i))"
  by (simp add: claims_ok_def count_ok_def)

lemma entry_ok_upd_buf:
  assumes "buf_has_tag (g (MapBuffers s ! i)) = buf_has_tag (MapBuffers s ! i)"
  shows "entry_ok (upd_buf i g s) e = entry_ok s e"
  by (simp add: entry_ok_def nth_upd_buf assms)

lemma entry_ok_idx: "entry_ok s e \<Longrightarrow> inf_slot_id e < num_slots s \<and> inf_entry_idx e < 2048"
  by (auto simp: entry_ok_def dest: decode_idx)

lemma claims_ok_claim:
  assumes ok: "claims_ok es s" "cache_ok s" and e: "entry_ok s e"
    and free: "\<not> pending_at (MapBuffers s ! inf_slot_id e) (inf_entry_idx e)"
  shows "claims_ok (e # es) (upd_buf (inf_slot_id e) (claim_bit (inf_entry_idx e)) s)"
proof -
  let ?i = "inf_slot_id e" and ?k = "inf_entry_idx e"
  have b: "?i < num_slots s" "?k < 2048" using entry_ok_idx [OF e] by simp_all
  have len: "length (pending_bits (MapBuffers s ! ?i)) = 32"
    using ok(2) b(1) by (simp add: cache_ok_def pending_word_bits)
  have new: "claim_of e \<notin> claim_of ` set es" using ok(1) b free by (auto simp: claims_ok_alt claim_of_def)
  have "pending_at (MapBuffers (upd_buf ?i (claim_bit ?k) s) ! i) k \<longleftrightarrow> (i, k) \<in> claim_of ` set (e # es)"
    if "i < num_slots s" "k < 2048" for i k
    using ok(1) that pending_at_claim(1) [OF len b(2) that(2)]
    by (auto simp: nth_upd_buf claims_ok_alt claim_of_def)
  moreover have "count_ok (MapBuffers (upd_buf ?i (claim_bit ?k) s) ! i)" if "i < num_slots s" for i
    using ok(1) that count_ok_claim [OF len b(2) _ free] by (auto simp: nth_upd_buf claims_ok_alt)
  ultimately show ?thesis using ok(1) e new unfolding claims_ok_alt by (simp add: entry_ok_upd_buf)
qed

lemma claims_ok_release:
  assumes ok: "claims_ok (e # es) s" "cache_ok s"
  shows "claims_ok es (upd_buf (inf_slot_id e) (release_bit (inf_entry_idx e)) s)"
    and "pending_at (MapBuffers s ! inf_slot_id e) (inf_entry_idx e)"
proof -
  let ?i = "inf_slot_id e" and ?k = "inf_entry_idx e"
  have b: "?i < num_slots s" "?k < 2048" using ok(1) entry_ok_idx [of s e] by (auto simp: claims_ok_alt)
  have len: "length (pending_bits (MapBuffers s ! ?i)) = 32"
    using ok(2) b(1) by (simp add: cache_ok_def pending_word_bits)
  show set: "pending_at (MapBuffers s ! ?i) ?k" using ok(1) b by (auto simp: claims_ok_alt claim_of_def)
  have old: "(?i, ?k) \<notin> claim_of ` set es" using ok(1) by (simp add: claims_ok_alt claim_of_def)
  have "pending_at (MapBuffers (upd_buf ?i (release_bit ?k) s) ! i) k \<longleftrightarrow> (i, k) \<in> claim_of ` set es"
    if "i < num_slots s" "k < 2048" for i k
    using ok(1) that pending_at_claim(2) [OF len b(2) that(2)] old
    by (auto simp: nth_upd_buf claims_ok_alt) (auto simp: claim_of_def)
  moreover have "count_ok (MapBuffers (upd_buf ?i (release_bit ?k) s) ! i)" if "i < num_slots s" for i
    using ok(1) that count_ok_release [OF len b(2) _ set] by (auto simp: nth_upd_buf claims_ok_alt)
  ultimately show "claims_ok es (upd_buf ?i (release_bit ?k) s)"
    using ok(1) unfolding claims_ok_alt by (simp add: entry_ok_upd_buf)
qed

lemma cache_ok_upd_buf:
  assumes "cache_ok s" "buf_has_tag (g (MapBuffers s ! i)) = buf_has_tag (MapBuffers s ! i)"
    "length (pending_bits (g (MapBuffers s ! i))) = length (pending_bits (MapBuffers s ! i))"
  shows "cache_ok (upd_buf i g s)"
  using assms unfolding cache_ok_def by (auto simp: nth_upd_buf)


subsection \<open>Pins\<close>

lemma upd_backend_simps [simp]:
  "MapBuffers (upd_backend g s) = MapBuffers s" "MapCacheHash (upd_backend g s) = MapCacheHash s"
  "MyBackend (upd_backend g s) = g (MyBackend s)" "MapPageData (upd_backend g s) = MapPageData s"
  by (simp_all add: upd_backend_def)

lemma upd_buf_upd_buf: "upd_buf i g (upd_buf i h s) = upd_buf i (\<lambda>b. g (h b)) s"
  by (cases "i < num_slots s") (simp_all add: upd_buf_def list_update_beyond)

lemma upd_buf_upd_backend: "upd_buf i g (upd_backend h s) = upd_backend h (upd_buf i g s)"
  by (simp add: upd_buf_def upd_backend_def)

lemma invs_upd_backend [simp]:
  "cache_ok (upd_backend g s) = cache_ok s" "claims_ok es (upd_backend g s) = claims_ok es s"
  by (simp_all add: cache_ok_def claims_ok_def entry_ok_def)

lemma entry_ok_state [simp]: "entry_ok (upd_buf i (\<lambda>b. b\<lparr>buf_state := h b\<rparr>) s) e = entry_ok s e"
  by (rule entry_ok_upd_buf) (simp add: buf_has_tag_def fun_eq_iff)

lemma invs_upd_state [simp]:
  "cache_ok (upd_buf i (\<lambda>b. b\<lparr>buf_state := h b\<rparr>) s) = cache_ok s"
  "claims_ok es (upd_buf i (\<lambda>b. b\<lparr>buf_state := h b\<rparr>) s) = claims_ok es s"
proof -
  have at: "buf_has_tag (MapBuffers (upd_buf i (\<lambda>b. b\<lparr>buf_state := h b\<rparr>) s) ! j) = buf_has_tag (MapBuffers s ! j)"
    "pending_at (MapBuffers (upd_buf i (\<lambda>b. b\<lparr>buf_state := h b\<rparr>) s) ! j) = pending_at (MapBuffers s ! j)"
    "pending_bits (MapBuffers (upd_buf i (\<lambda>b. b\<lparr>buf_state := h b\<rparr>) s) ! j) = pending_bits (MapBuffers s ! j)"
    "pending_count (MapBuffers (upd_buf i (\<lambda>b. b\<lparr>buf_state := h b\<rparr>) s) ! j) = pending_count (MapBuffers s ! j)" for j
    by (simp_all add: nth_upd_buf buf_has_tag_def pending_at_def fun_eq_iff)
  show "cache_ok (upd_buf i (\<lambda>b. b\<lparr>buf_state := h b\<rparr>) s) = cache_ok s" by (simp add: cache_ok_def at)
  show "claims_ok es (upd_buf i (\<lambda>b. b\<lparr>buf_state := h b\<rparr>) s) = claims_ok es s" by (simp add: claims_ok_def at)
qed

definition pin_word :: "bool \<Rightarrow> u32 \<Rightarrow> u32" where
  "pin_word a st = (if a \<and> us (st + 1) < 5 then st + 1 + MAPBUF_USAGECOUNT_ONE else st + 1)"

lemma pin_word_fields:
  assumes "rc st < 511" "us st \<le> 5"
  shows "rc (pin_word a st) = Suc (rc st)" "us (pin_word a st) \<le> 5"
  using assms by (simp_all add: pin_word_def state_plus_one state_use_up)

definition pin_slot :: "nat \<Rightarrow> bool \<Rightarrow> 'x map_buf_scheme \<Rightarrow> 'x map_buf_scheme" where
  "pin_slot i a s = upd_backend (pin_private i) (upd_buf i (\<lambda>b. b\<lparr>buf_state := pin_word a (buf_state b)\<rparr>) s)"

definition unpin_slot :: "nat \<Rightarrow> 'x map_buf_scheme \<Rightarrow> 'x map_buf_scheme" where
  "unpin_slot i s = upd_backend (unpin_private i) (upd_buf i (\<lambda>b. b\<lparr>buf_state := buf_state b - 1\<rparr>) s)"

lemma MapPinBuffer_run:
  "MapPinBuffer i a s =
     (if 511 \<le> rc (buf_state (MapBuffers s ! i)) then (Inl (ERROR, E_INTERNAL), s)
      else (Inr (), pin_slot i a s))"
proof (cases "i < num_slots s")
  case True
  then have "upd_buf i (\<lambda>b. b\<lparr>buf_state := pin_word a (buf_state b)\<rparr>) s =
      upd_buf i (\<lambda>b. b\<lparr>buf_state := pin_word a (buf_state (MapBuffers s ! i))\<rparr>) s"
    by (simp add: upd_buf_def)
  moreover have "upd_buf i (\<lambda>b. b\<lparr>buf_state := buf_state b + 1 + MAPBUF_USAGECOUNT_ONE\<rparr>) s =
      upd_buf i (\<lambda>b. b\<lparr>buf_state := buf_state (MapBuffers s ! i) + 1 + MAPBUF_USAGECOUNT_ONE\<rparr>) s"
    "upd_buf i (\<lambda>b. b\<lparr>buf_state := buf_state b + 1\<rparr>) s =
      upd_buf i (\<lambda>b. b\<lparr>buf_state := buf_state (MapBuffers s ! i) + 1\<rparr>) s"
    by (simp_all add: upd_buf_def)
  ultimately show ?thesis
    by (simp add: MapPinBuffer_def getB_def runU whenU_def upd_buf_upd_backend upd_buf_upd_buf pin_word_def pin_slot_def)
next
  case False
  then have "upd_buf i g s = s" for g by (simp add: upd_buf_def list_update_beyond)
  then show ?thesis
    by (simp add: MapPinBuffer_def getB_def runU whenU_def upd_buf_upd_backend upd_buf_upd_buf pin_slot_def)
qed

lemma MapUnpinBuffer_run:
  "MapUnpinBuffer i s =
     (if private_pins s i = 0 \<or> rc (buf_state (MapBuffers s ! i)) = 0 then (Inl (ERROR, E_INTERNAL), s)
      else (Inr (), unpin_slot i s))"
  by (simp add: MapUnpinBuffer_def getB_def runU unpin_slot_def)

definition add_pin :: "nat \<Rightarrow> (nat \<Rightarrow> nat) \<Rightarrow> nat \<Rightarrow> nat" where
  "add_pin i \<delta> = \<delta>(i := Suc (\<delta> i))"

lemma pin_inv_pin:
  assumes inv: "pin_inv F G s" and i: "i < num_slots s" "rc (buf_state (MapBuffers s ! i)) < 511"
  shows "pin_inv F G (pin_slot i a s)" "slack (pin_slot i a s) = add_pin i (slack s)"
proof -
  have us5: "us (buf_state (MapBuffers s ! i)) \<le> 5" using inv i by (simp add: pin_inv_def)
  have own: "own_count (my_entries s) j \<le> private_pins s j" for j using inv by (simp add: pin_inv_def)
  show "pin_inv F G (pin_slot i a s)" using inv i
    by (auto simp: pin_slot_def pin_inv_def pin_private_def nth_upd_buf pin_word_fields [OF i(2) us5] intro: le_SucI)
  show "slack (pin_slot i a s) = add_pin i (slack s)"
    using own [of i] by (auto simp: pin_slot_def slack_def pin_private_def add_pin_def fun_eq_iff Suc_diff_le)
qed

lemma pin_inv_unpin:
  assumes inv: "pin_inv F G s" and i: "0 < slack s i"
  shows "pin_inv F G (unpin_slot i s)" "slack s = add_pin i (slack (unpin_slot i s))" "MapUnpinBuffer i s = (Inr (), unpin_slot i s)"
proof -
  have priv: "own_count (my_entries s) i < private_pins s i" using i by (simp add: slack_def)
  then have n: "i < num_slots s" using inv by (metis leI less_nat_zero_code pin_inv_def)
  then have rc: "rc (buf_state (MapBuffers s ! i)) = private_pins s i + F i" using inv by (simp add: pin_inv_def)
  then have pos: "0 < rc (buf_state (MapBuffers s ! i))" using priv by simp
  show "pin_inv F G (unpin_slot i s)" using inv n priv rc
    by (auto simp: unpin_slot_def pin_inv_def unpin_private_def nth_upd_buf state_minus_one [OF pos])
  show "slack s = add_pin i (slack (unpin_slot i s))"
    using priv by (auto simp: unpin_slot_def slack_def unpin_private_def add_pin_def fun_eq_iff)
  show "MapUnpinBuffer i s = (Inr (), unpin_slot i s)" using pos priv by (simp add: MapUnpinBuffer_run unpin_slot_def)
qed


subsection \<open>Balanced operations\<close>

definition spare :: "(nat \<Rightarrow> nat) \<Rightarrow> MapInflightLocalEntry list \<Rightarrow> (nat \<Rightarrow> nat) \<Rightarrow> 'x map_buf_scheme \<Rightarrow> bool" where
  "spare F G S s \<longleftrightarrow> pin_inv F G s \<and> (\<forall>i. S i \<le> slack s i)"

definition after :: "(nat \<Rightarrow> nat) \<Rightarrow> MapInflightLocalEntry list \<Rightarrow> (nat \<Rightarrow> nat) \<Rightarrow> ('a \<Rightarrow> nat \<Rightarrow> nat) \<Rightarrow>
    um_error + 'a \<Rightarrow> 'x map_buf_scheme \<Rightarrow> bool" where
  "after F G S \<delta>' r t \<longleftrightarrow>
     (case r of Inl e \<Rightarrow> spare F G S t | Inr x \<Rightarrow> spare F G (\<lambda>i. S i + \<delta>' x i) t)"

definition bal :: "(nat \<Rightarrow> nat) \<Rightarrow> MapInflightLocalEntry list \<Rightarrow> (nat \<Rightarrow> nat) \<Rightarrow> ('x map_buf_scheme, 'a) um \<Rightarrow>
    ('a \<Rightarrow> nat \<Rightarrow> nat) \<Rightarrow> bool" where
  "bal F G \<delta> m \<delta>' \<longleftrightarrow> (\<forall>S s. spare F G (\<lambda>i. S i + \<delta> i) s \<longrightarrow> wpU m (after F G S \<delta>') s)"

lemma after_simps [simp]:
  "after F G S \<delta>' (Inl e) t = spare F G S t" "after F G S \<delta>' (Inr x) t = spare F G (\<lambda>i. S i + \<delta>' x i) t"
  by (simp_all add: after_def)

lemma balI: "(\<And>S s. spare F G (\<lambda>i. S i + \<delta> i) s \<Longrightarrow> wpU m (after F G S \<delta>') s) \<Longrightarrow> bal F G \<delta> m \<delta>'"
  by (simp add: bal_def)

lemma balD: "bal F G \<delta> m \<delta>' \<Longrightarrow> spare F G (\<lambda>i. S i + \<delta> i) s \<Longrightarrow> wpU m (after F G S \<delta>') s"
  by (simp add: bal_def)

lemma spare_drop: "spare F G (\<lambda>i. S i + \<delta> i) s \<Longrightarrow> spare F G S s"
  unfolding spare_def by (meson add_leD1)

lemma spare_same: "pin_same s t \<Longrightarrow> spare F G S s \<Longrightarrow> spare F G S t"
  by (auto simp: spare_def pin_same_inv)

lemma bal_leaves: "leaves pin_same m \<Longrightarrow> bal F G \<delta> m (\<lambda>_. \<delta>)"
  by (rule balI, rule wpU_mono, erule leaves_wpU) (auto simp: after_def split: sum.splits intro: spare_same spare_drop)

lemma bal_return: "\<delta>' x = \<delta> \<Longrightarrow> bal F G \<delta> (returnU x) \<delta>'"
  by (rule balI) (simp add: wp)

lemma bal_throw: "bal F G \<delta> (throwU e) \<delta>'"
  by (rule balI) (simp add: wp spare_drop)

lemma bal_bind:
  assumes "bal F G \<delta> m \<delta>1" and "\<And>x. bal F G (\<delta>1 x) (f x) \<delta>2"
  shows "bal F G \<delta> (bindU m f) \<delta>2"
  by (rule balI, rule wpU_bindI, erule balD [OF assms(1)]) (auto intro: balD [OF assms(2)])

lemma bal_get: "(\<And>x. bal F G \<delta> (f x) \<delta>') \<Longrightarrow> bal F G \<delta> (bindU (getU g) f) \<delta>'"
  by (rule bal_bind [OF bal_leaves]) (auto intro: psk.leaves_rules)

lemma bal_if: "(b \<Longrightarrow> bal F G \<delta> m \<delta>') \<Longrightarrow> (\<not> b \<Longrightarrow> bal F G \<delta> n \<delta>') \<Longrightarrow> bal F G \<delta> (if b then m else n) \<delta>'"
  by simp

lemma bal_when: "bal F G \<delta> m (\<lambda>_. \<delta>) \<Longrightarrow> bal F G \<delta> (whenU b m) (\<lambda>_. \<delta>)"
  by (simp add: whenU_def bal_return)

lemma bal_option:
  "(x = None \<Longrightarrow> bal F G \<delta> m \<delta>') \<Longrightarrow> (\<And>y. x = Some y \<Longrightarrow> bal F G \<delta> (n y) \<delta>') \<Longrightarrow>
   bal F G \<delta> (case x of None \<Rightarrow> m | Some y \<Rightarrow> n y) \<delta>'"
  by (cases x) simp_all

lemma bal_prod: "(\<And>a b. p = (a, b) \<Longrightarrow> bal F G \<delta> (n a b) \<delta>') \<Longrightarrow> bal F G \<delta> (case p of (a, b) \<Rightarrow> n a b) \<delta>'"
  by (cases p) simp

lemma bal_catch:
  assumes "bal F G \<delta> m \<delta>'" and "bal F G (\<lambda>_. 0) h (\<lambda>_ _. 0)"
  shows "bal F G \<delta> (catchU m h) \<delta>'"
proof (rule balI, rule wpU_I)
  fix S and s t :: "'a map_buf_scheme" and r
  assume s: "spare F G (\<lambda>i. S i + \<delta> i) s" and run: "catchU m h s = (r, t)"
  obtain r1 s1 where 1: "m s = (r1, s1)" by fastforce
  note a = wpU_runD [OF balD [OF assms(1) s] 1]
  show "after F G S \<delta>' r t"
  proof (cases r1)
    case (Inl e)
    then have "spare F G S s1" using a by simp
    then have h: "wpU h (after F G S (\<lambda>_ _. 0)) s1" using balD [OF assms(2), of S] by simp
    obtain r2 s2 where 2: "h s1 = (r2, s2)" by fastforce
    have "spare F G S s2" using wpU_runD [OF h 2] by (cases r2) simp_all
    then show ?thesis using run 1 2 Inl by (cases r2) (auto simp: catchU_def)
  qed (use run 1 a in \<open>simp add: catchU_def\<close>)
qed

lemma bal_for: "(\<And>i. bal F G \<delta> (body i) (\<lambda>_. \<delta>)) \<Longrightarrow> bal F G \<delta> (forU is body) (\<lambda>_. \<delta>)"
  by (induction "is") (auto intro: bal_return bal_bind)

lemma bal_weaken: "bal F G \<delta> m \<delta>1 \<Longrightarrow> (\<And>x i. \<delta>' x i \<le> \<delta>1 x i) \<Longrightarrow> bal F G \<delta> m \<delta>'"
proof (rule balI)
  fix S and s :: "'a map_buf_scheme"
  assume b: "bal F G \<delta> m \<delta>1" and le: "\<And>x i. \<delta>' x i \<le> \<delta>1 x i" and s: "spare F G (\<lambda>i. S i + \<delta> i) s"
  have "spare F G (\<lambda>i. S i + \<delta>1 x i) t \<Longrightarrow> spare F G (\<lambda>i. S i + \<delta>' x i) t" for x and t :: "'a map_buf_scheme"
    unfolding spare_def using le by (meson add_left_mono order_trans)
  then show "wpU m (after F G S \<delta>') s"
    by (intro wpU_mono [OF balD [OF b s]]) (auto simp: after_def split: sum.splits)
qed

lemma spare_add_pin: "spare F G (\<lambda>j. S j + add_pin i \<delta> j) s \<longleftrightarrow> spare F G (add_pin i (\<lambda>j. S j + \<delta> j)) s"
proof -
  have "(\<lambda>j. S j + add_pin i \<delta> j) = add_pin i (\<lambda>j. S j + \<delta> j)" by (auto simp: add_pin_def)
  then show ?thesis by simp
qed

lemma add_pin_le: "(\<forall>j. add_pin i S j \<le> add_pin i T j) \<longleftrightarrow> (\<forall>j. S j \<le> T j)"
  by (auto simp: add_pin_def)

lemma add_pin_inject: "add_pin i S = add_pin i T \<longleftrightarrow> S = T"
  using add_pin_le [of i S T] add_pin_le [of i T S] by (auto simp: fun_eq_iff intro: order.antisym)

lemma pin_wp:
  assumes "spare F G S s" "i < num_slots s"
  shows "wpU (MapPinBuffer i a) (\<lambda>r t. case r of
      Inl e \<Rightarrow> t = s | Inr _ \<Rightarrow> t = pin_slot i a s \<and> spare F G (add_pin i S) t) s"
  using assms pin_inv_pin [of F G s i] by (auto simp: wpU_def MapPinBuffer_run spare_def add_pin_le)

lemma bal_unpin: "bal F G (add_pin i \<delta>) (MapUnpinBuffer i) (\<lambda>_. \<delta>)"
proof (rule balI)
  fix S and s :: "'a map_buf_scheme"
  assume "spare F G (\<lambda>j. S j + add_pin i \<delta> j) s"
  then have s: "pin_inv F G s" "\<forall>j. add_pin i (\<lambda>j. S j + \<delta> j) j \<le> slack s j"
    unfolding spare_add_pin by (simp_all add: spare_def)
  have "add_pin i (\<lambda>j. S j + \<delta> j) i \<le> slack s i" using s(2) by blast
  then have pos: "0 < slack s i" by (simp add: add_pin_def)
  note u = pin_inv_unpin [OF s(1) pos]
  have "\<forall>j. S j + \<delta> j \<le> slack (unpin_slot i s) j" using s(2) u(2) add_pin_le by metis
  then show "wpU (MapUnpinBuffer i) (after F G S (\<lambda>_. \<delta>)) s"
    using u(1,3) by (simp add: wpU_def spare_def)
qed


lemma bal_lookup_pin_miss:
  assumes miss: "\<And>S s. spare F G (\<lambda>i. S i + \<delta> i) s \<Longrightarrow> MapCacheHash s (r, f, b) = None \<Longrightarrow> wpU m (after F G S \<delta>') s"
    and "\<And>i. bal F G (add_pin i \<delta>) (k i) \<delta>'"
  shows "bal F G \<delta> (bindU (MapCacheLookup r f b) (\<lambda>found.
           case found of None \<Rightarrow> m | Some i \<Rightarrow> bindU (MapPinBuffer i a) (\<lambda>_. k i))) \<delta>'"
proof (rule balI)
  fix S and s :: "'a map_buf_scheme"
  assume s: "spare F G (\<lambda>i. S i + \<delta> i) s"
  show "wpU (bindU (MapCacheLookup r f b) (\<lambda>found.
          case found of None \<Rightarrow> m | Some i \<Rightarrow> bindU (MapPinBuffer i a) (\<lambda>_. k i))) (after F G S \<delta>') s"
  proof (cases "MapCacheHash s (r, f, b)")
    case None
    then show ?thesis using miss [OF s] by (simp add: wp MapCacheLookup_def)
  next
    case (Some i)
    then have i: "i < num_slots s" using s cache_ok_hash [of s r f b i] by (auto simp: spare_def pin_inv_def)
    have "wpU (bindU (MapPinBuffer i a) (\<lambda>_. k i)) (after F G S \<delta>') s"
      using s by (intro wpU_bindI [OF pin_wp [OF s i]])
        (auto intro: spare_drop balD [OF assms(2)] simp flip: spare_add_pin)
    then show ?thesis using Some by (simp add: wp MapCacheLookup_def)
  qed
qed

lemma bal_lookup_pin:
  assumes "bal F G \<delta> m \<delta>'" and "\<And>i. bal F G (add_pin i \<delta>) (k i) \<delta>'"
  shows "bal F G \<delta> (bindU (MapCacheLookup r f b) (\<lambda>found.
           case found of None \<Rightarrow> m | Some i \<Rightarrow> bindU (MapPinBuffer i a) (\<lambda>_. k i))) \<delta>'"
  by (rule bal_lookup_pin_miss [OF balD [OF assms(1)] assms(2)])

subsection \<open>Taking over a victim\<close>

definition adopt_buf :: "RelFileLocator \<Rightarrow> ForkNumber \<Rightarrow> BlockNumber \<Rightarrow> MapBufferDesc \<Rightarrow> MapBufferDesc" where
  "adopt_buf r f b x = x\<lparr>pending_bits := replicate MAP_PENDING_BITMAP_WORDS 0, page_number := Some b,
     buf_rnode := r, buf_forknum := f, buf_page_lsn := 0, buf_state := buf_state x OR MAPBUF_USAGECOUNT_ONE\<rparr>"

definition adopt_slot ::
  "RelFileLocator \<Rightarrow> ForkNumber \<Rightarrow> BlockNumber \<Rightarrow> nat \<Rightarrow> 'x map_buf_scheme \<Rightarrow> 'x map_buf_scheme" where
  "adopt_slot r f b i s =
     (let x = MapBuffers s ! i; h = (MapCacheHash s)((r, f, b) \<mapsto> i) in
      upd_buf i (adopt_buf r f b)
        (s\<lparr>MapCacheHash := (case page_number x of
              None \<Rightarrow> h | Some old \<Rightarrow> h((buf_rnode x, buf_forknum x, old) := None))\<rparr>))"

lemma adopt_victim_run:
  assumes "cache_ok s" "i < num_slots s" "MapCacheHash s (r, f, b) = None" "pending_count (MapBuffers s ! i) = 0"
  shows "adopt_victim c r f b i s = bindU (fill_page c r f b i) (\<lambda>_. returnU (Some i)) (adopt_slot r f b i s)"
proof (cases "page_number (MapBuffers s ! i)")
  case None
  then show ?thesis using assms
    by (simp add: adopt_victim_def adopt_slot_def adopt_buf_def Let_def getB_def runU MapCacheInsert_def bindU_assoc
        MapBufferUpdateStateBits_def upd_buf_def)
next
  case (Some old)
  let ?x = "MapBuffers s ! i"
  have "MapCacheHash s (buf_rnode ?x, buf_forknum ?x, old) = Some i"
    using cache_ok_hash [OF assms(1)] assms(2) Some by (simp add: buf_has_tag_def)
  moreover from this have "(buf_rnode ?x, buf_forknum ?x, old) \<noteq> (r, f, b)" using assms(3) by auto
  ultimately show ?thesis using assms Some
    by (simp add: adopt_victim_def adopt_slot_def adopt_buf_def Let_def getB_def runU MapCacheInsert_def bindU_assoc
        MapCacheDelete_def MapBufferUpdateStateBits_def upd_buf_def)
qed

lemma usage_or_one: "us st \<le> 5 \<Longrightarrow> us (st OR MAPBUF_USAGECOUNT_ONE) \<le> 5"
  and rc_or_one: "rc (st OR MAPBUF_USAGECOUNT_ONE) = rc st"
proof -
  have d: "drop_bit 9 (st OR MAPBUF_USAGECOUNT_ONE) = drop_bit 9 st OR 1" "take_bit 9 (st OR MAPBUF_USAGECOUNT_ONE) = take_bit 9 st"
    by (simp_all add: MAPBUF_USAGECOUNT_ONE_def drop_bit_or take_bit_or)
  have "unat (take_bit 9 (st OR MAPBUF_USAGECOUNT_ONE)) = unat (take_bit 9 st)" using d(2) by simp
  then show "rc (st OR MAPBUF_USAGECOUNT_ONE) = rc st" by (simp add: rc_def take_bit_eq_mod unat_mod)
  have u: "us w = unat (take_bit 5 (drop_bit 9 w))" for w
    by (simp add: us_def take_bit_eq_mod drop_bit_eq_div unat_mod unat_div)
  have "us (st OR MAPBUF_USAGECOUNT_ONE) = unat (take_bit 5 (drop_bit 9 st) OR 1)"
    unfolding u d by (simp add: take_bit_or)
  also have "\<dots> = us st OR 1" by (simp add: u unsigned_or_eq)
  finally have e: "us (st OR MAPBUF_USAGECOUNT_ONE) = us st OR 1" .
  show "us (st OR MAPBUF_USAGECOUNT_ONE) \<le> 5" if le: "us st \<le> 5"
  proof -
    have "us st \<in> {0, 1, 2, 3, 4, 5}" using le by auto
    then show ?thesis unfolding e by auto
  qed
qed


lemma adopt_buf_simps [simp]:
  "buf_has_tag (adopt_buf r f b x) r' f' b' \<longleftrightarrow> (r', f', b') = (r, f, b)"
  "length (pending_bits (adopt_buf r f b x)) = MAP_PENDING_BITMAP_WORDS"
  "pending_count (adopt_buf r f b x) = pending_count x" "rc (buf_state (adopt_buf r f b x)) = rc (buf_state x)"
  by (auto simp: adopt_buf_def buf_has_tag_def rc_or_one)

lemma pending_at_adopt: "k < 2048 \<Longrightarrow> \<not> pending_at (adopt_buf r f b x) k"
  by (simp add: pending_at_def adopt_buf_def pending_word_bits)

lemma adopt_slot_nth:
  "MapBuffers (adopt_slot r f b i s) ! j =
     (if j = i \<and> i < num_slots s then adopt_buf r f b (MapBuffers s ! i) else MapBuffers s ! j)"
  by (simp add: adopt_slot_def Let_def nth_upd_buf)

lemma adopt_slot_simps [simp]:
  "num_slots (adopt_slot r f b i s) = num_slots s" "MyBackend (adopt_slot r f b i s) = MyBackend s"
  by (simp_all add: adopt_slot_def Let_def)

lemma adopt_slot_cache:
  assumes ok: "cache_ok s" and i: "i < num_slots s" and free: "MapCacheHash s (r, f, b) = None"
  shows "cache_ok (adopt_slot r f b i s)"
proof -
  let ?x = "MapBuffers s ! i" and ?t = "adopt_slot r f b i s"
  have old: "buf_has_tag ?x r' f' b' \<longleftrightarrow> MapCacheHash s (r', f', b') = Some i" for r' f' b'
    using cache_ok_hash [OF ok] i by simp
  have hash: "MapCacheHash ?t T = (if T = (r, f, b) then Some i else if MapCacheHash s T = Some i then None else MapCacheHash s T)" for T
  proof -
    obtain r' f' b' where T: "T = (r', f', b')" by (cases T)
    have "MapCacheHash s T = Some i \<longleftrightarrow> page_number ?x = Some b' \<and> buf_forknum ?x = f' \<and> buf_rnode ?x = r'"
      using old [of r' f' b'] T by (auto simp: buf_has_tag_def)
    moreover have "MapCacheHash s (buf_rnode ?x, buf_forknum ?x, p) = Some i" if "page_number ?x = Some p" for p
      using old [of "buf_rnode ?x" "buf_forknum ?x" p] that by (simp add: buf_has_tag_def)
    ultimately show ?thesis using T free
      by (auto simp: adopt_slot_def Let_def upd_buf_def split: option.splits)
  qed
  have "MapCacheHash ?t (r', f', b') = Some j \<longleftrightarrow> j < num_slots ?t \<and> buf_has_tag (MapBuffers ?t ! j) r' f' b'"
    for r' f' b' j
    unfolding hash adopt_slot_nth using i free cache_ok_hash [OF ok, of r' f' b' j] by auto
  then show ?thesis using ok i by (auto simp: cache_ok_def adopt_slot_nth)
qed

lemma adopt_slot_claims:
  assumes ok: "claims_ok es s" and i: "i < num_slots s" and none: "pending_count (MapBuffers s ! i) = 0"
  shows "claims_ok es (adopt_slot r f b i s)"
proof -
  let ?t = "adopt_slot r f b i s"
  have "count_ok (MapBuffers s ! i)" using ok i by (simp add: claims_ok_alt)
  then have idle: "\<not> pending_at (MapBuffers s ! i) k" if "k < 2048" for k
    using none that by (auto simp: count_ok_def)
  have away: "inf_slot_id e \<noteq> i" if "e \<in> set es" for e
    using ok i idle that entry_ok_idx [of s e] by (auto simp: claims_ok_alt claim_of_def image_iff)
  have "entry_ok ?t e" if "e \<in> set es" for e
    using ok that away by (simp add: claims_ok_alt entry_ok_def adopt_slot_nth)
  moreover have "pending_at (MapBuffers ?t ! j) k = pending_at (MapBuffers s ! j) k" if "k < 2048" for j k
    using idle pending_at_adopt that i by (simp add: adopt_slot_nth)
  moreover from this have "count_ok (MapBuffers ?t ! j) = count_ok (MapBuffers s ! j)" for j
    unfolding count_ok_def by (simp add: adopt_slot_nth cong: conj_cong)
  ultimately show ?thesis using ok by (simp add: claims_ok_alt)
qed

lemma adopt_slot_inv:
  assumes s: "pin_inv F G s" and i: "i < num_slots s" and none: "pending_count (MapBuffers s ! i) = 0"
    and free: "MapCacheHash s (r, f, b) = None"
  shows "pin_inv F G (adopt_slot r f b i s)" "slack (adopt_slot r f b i s) = slack s"
proof -
  have "us (buf_state (adopt_buf r f b (MapBuffers s ! i))) \<le> 5"
    using s i by (simp add: pin_inv_def adopt_buf_def usage_or_one)
  then show "pin_inv F G (adopt_slot r f b i s)"
    using s i adopt_slot_cache [OF _ i free] adopt_slot_claims [OF _ i none]
    by (auto simp: pin_inv_def adopt_slot_nth)
  show "slack (adopt_slot r f b i s) = slack s" by (simp add: slack_def fun_eq_iff)
qed

lemma adopt_victim_wp:
  assumes s: "spare F G (\<lambda>j. S j + add_pin i \<delta> j) s" and i: "i < num_slots s" and free: "MapCacheHash s (r, f, b) = None"
  shows "wpU (adopt_victim c r f b i) (after F G S (case_option \<delta> (\<lambda>i. add_pin i \<delta>))) s"
proof (cases "pending_count (MapBuffers s ! i) = 0")
  case True
  have c: "cache_ok s" using s by (simp add: spare_def pin_inv_def)
  have "spare F G (\<lambda>j. S j + add_pin i \<delta> j) (adopt_slot r f b i s)"
    using s adopt_slot_inv [OF conjunct1 i True free, of F G] by (auto simp: spare_def)
  moreover have "bal F G (add_pin i \<delta>) (bindU (fill_page c r f b i) (\<lambda>_. returnU (Some i)))
      (case_option \<delta> (\<lambda>i. add_pin i \<delta>))"
    by (rule bal_bind [OF bal_leaves [OF leaves_fill_page] bal_return]) simp
  ultimately have "wpU (bindU (fill_page c r f b i) (\<lambda>_. returnU (Some i)))
      (after F G S (case_option \<delta> (\<lambda>i. add_pin i \<delta>))) (adopt_slot r f b i s)"
    by (intro balD)
  then show ?thesis by (simp add: wpU_def adopt_victim_run [OF c i free True])
next
  case False
  have "bal F G (add_pin i \<delta>) (bindU (MapUnpinBuffer i) (\<lambda>_. returnU None)) (case_option \<delta> (\<lambda>i. add_pin i \<delta>))"
    by (rule bal_bind [OF bal_unpin bal_return]) simp
  then show ?thesis using False balD [OF _ s]
    by (simp add: adopt_victim_def getB_def wp del: wpU_bindU) (simp add: wpU_def runU)
qed


lemma wpU_getU_bind: "wpU (bindU (getU g) k) Q s = wpU (k (g s)) Q s"
  by (simp add: wp)

lemma wpU_bound: "wpU MapClockGetBuffer (\<lambda>r t. case r of Inl e \<Rightarrow> True | Inr i \<Rightarrow> i < num_slots s) s"
  by (rule wpU_I) (auto dest: MapClockGetBuffer_bound split: sum.splits)

lemma take_victim_wp:
  assumes s: "spare F G (\<lambda>j. S j + \<delta> j) s" and free: "MapCacheHash s (r, f, b) = None"
  shows "wpU (take_victim c r f b) (after F G S (case_option \<delta> (\<lambda>i. add_pin i \<delta>))) s"
proof -
  let ?Q = "after F G S (case_option \<delta> (\<lambda>i. add_pin i \<delta>)) :: um_error + nat option \<Rightarrow> 'a map_buf_scheme \<Rightarrow> bool"
  define ready where "ready i t \<longleftrightarrow> i < num_slots t \<and> MapCacheHash t (r, f, b) = None \<and>
      spare F G (\<lambda>j. S j + add_pin i \<delta> j) t" for i and t :: "'a map_buf_scheme"
  let ?body = "\<lambda>i. bindU (getB i) (\<lambda>x.
       if buf_has_tag x r f b then returnU (Some i)
       else if MAPBUF_GET_REFCOUNT (buf_state x) \<noteq> 1
       then bindU (MapUnpinBuffer i) (\<lambda>_. returnU None)
       else if buf_state x AND MAPBUF_DIRTY \<noteq> 0
       then
         bindU (MapFlushBuffer i) (\<lambda>_.
         bindU (getB i) (\<lambda>b'.
           if buf_has_tag b' r f b then returnU (Some i)
           else if MAPBUF_GET_REFCOUNT (buf_state b') \<noteq> 1 \<or> buf_state b' AND MAPBUF_DIRTY \<noteq> 0
           then bindU (MapUnpinBuffer i) (\<lambda>_. returnU None)
           else adopt_victim c r f b i))
       else adopt_victim c r f b i)"
  have same: "ready i t \<Longrightarrow> pin_same t u \<Longrightarrow> ready i u" for i t u
    by (auto simp: ready_def pin_same_slots spare_same) (simp add: pin_same_def)
  have keep: "ready i t \<Longrightarrow> wpU (returnU (Some i)) ?Q t" for i t by (simp add: wp ready_def)
  have adopt: "ready i t \<Longrightarrow> wpU (adopt_victim c r f b i) ?Q t" for i t
    unfolding ready_def by (intro adopt_victim_wp) auto
  have "bal F G (add_pin i \<delta>) (bindU (MapUnpinBuffer i) (\<lambda>_. returnU None :: ('a map_buf_scheme, nat option) um))
      (case_option \<delta> (\<lambda>i. add_pin i \<delta>))" for i
    by (rule bal_bind [OF bal_unpin bal_return]) simp
  then have give: "ready i t \<Longrightarrow> wpU (bindU (MapUnpinBuffer i) (\<lambda>_. returnU None)) ?Q t" for i t
    unfolding ready_def by (intro balD) auto
  have flush: "wpU (bindU (MapFlushBuffer i) k) ?Q t" if "ready i t" "\<And>u. ready i u \<Longrightarrow> wpU (k ()) ?Q u" for i t k
  proof (rule wpU_bindI [OF leaves_wpU [OF leaves_MapFlushBuffer, where s = t]])
    show "pin_same t u \<Longrightarrow> ?Q (Inl e) u" for e u using same [OF that(1)] by (auto simp: ready_def dest: spare_drop)
    show "pin_same t u \<Longrightarrow> wpU (k x) ?Q u" for x u using same [OF that(1)] that(2) by simp
  qed
  have body: "wpU (?body i) ?Q t" if "ready i t" for i t
    using keep [OF that] give [OF that] adopt [OF that]
    by (auto simp: getB_def wpU_getU_bind intro!: flush [OF that] keep give adopt)
  show ?thesis unfolding take_victim_def
  proof (rule wpU_bindI [OF wpU_conj [OF leaves_wpU [OF leaves_MapClockGetBuffer_pin, where s = s] wpU_bound]])
    fix i t assume t: "pin_same s t \<and> (case Inr i of Inr j \<Rightarrow> j < num_slots s | Inl (_ :: um_error) \<Rightarrow> True)"
    then have t2: "i < num_slots t" "spare F G (\<lambda>j. S j + \<delta> j) t" "MapCacheHash t (r, f, b) = None"
      using spare_same [OF _ s] free pin_same_slots [of s t] by (auto simp: pin_same_def)
    have "ready i (pin_slot i False t)" if "spare F G (add_pin i (\<lambda>j. S j + \<delta> j)) (pin_slot i False t)"
      using that t2 by (simp add: ready_def pin_slot_def spare_add_pin)
    then show "wpU (bindU (MapPinBuffer i False) (\<lambda>_. ?body i)) ?Q t"
      using t2(2) by (intro wpU_bindI [OF pin_wp [OF t2(2,1)]]) (auto intro: body dest: spare_drop)
  qed (auto dest: spare_drop spare_same [OF _ s])
qed


subsection \<open>Reading a page\<close>

lemmas bal_rules = bal_bind bal_if bal_when bal_option bal_prod bal_throw bal_unpin bal_lookup_pin

lemma bal_getB: "(\<And>x. bal F G \<delta> (k x) \<delta>') \<Longrightarrow> bal F G \<delta> (bindU (getB i) k) \<delta>'"
  unfolding getB_def by (rule bal_get)

lemma bal_unpin_then:
  "bal F G \<delta> (k ()) \<delta>' \<Longrightarrow> bal F G (add_pin i \<delta>) (bindU (MapUnpinBuffer i) k) \<delta>'"
  by (rule bal_bind [OF bal_unpin]) simp

lemma bal_MapReadBufferLoop: "bal F G \<delta> (MapReadBufferLoop n c r f b) (\<lambda>i. add_pin i \<delta>)"
proof (induction n)
  case (Suc n)
  show ?case unfolding MapReadBufferLoop.simps
  proof (rule bal_lookup_pin_miss)
    fix S and s :: "'a map_buf_scheme"
    assume s: "spare F G (\<lambda>i. S i + \<delta> i) s" "MapCacheHash s (r, f, b) = None"
    show "wpU (bindU (take_victim c r f b) (\<lambda>x. case x of Some i \<Rightarrow> returnU i | None \<Rightarrow> MapReadBufferLoop n c r f b))
        (after F G S (\<lambda>i. add_pin i \<delta>)) s"
      by (rule wpU_bindI [OF take_victim_wp [OF s]]) (auto simp: wp intro: balD [OF Suc] split: option.splits)
  qed (intro bal_getB bal_if bal_return bal_unpin_then Suc, simp)
qed (simp add: bal_throw)

lemma bal_MapReadBuffer: "bal F G \<delta> (MapReadBuffer c r f b) (\<lambda>i. add_pin i \<delta>)"
  unfolding MapReadBuffer_def by (intro bal_if bal_throw bal_get bal_MapReadBufferLoop)

lemma bal_read_then:
  "(\<And>i. bal F G (add_pin i \<delta>) (k i) \<delta>') \<Longrightarrow> bal F G \<delta> (bindU (MapReadBuffer c r f b) k) \<delta>'"
  by (rule bal_bind [OF bal_MapReadBuffer])

lemma bal_skip:
  "leaves pin_same m \<Longrightarrow> (\<And>x. bal F G \<delta> (k x) \<delta>') \<Longrightarrow> bal F G \<delta> (bindU m k) \<delta>'"
  by (rule bal_bind [OF bal_leaves])


subsection \<open>Claiming and releasing an entry\<close>

lemma MapInflightBufferTryClaim_run:
  "MapInflightBufferTryClaim r f b i k s =
     (if buf_has_tag (MapBuffers s ! i) r f b \<and> \<not> pending_at (MapBuffers s ! i) k
      then (Inr True, upd_buf i (claim_bit k) s) else (Inr False, s))"
  by (simp add: MapInflightBufferTryClaim_def getB_def runU Let_def pending_at_iff claim_bit_def [abs_def])

lemma MapInflightBufferRelease_run:
  "MapInflightBufferRelease i k s =
     MapUnpinBuffer i (if pending_at (MapBuffers s ! i) k then upd_buf i (release_bit k) s else s)"
  by (simp add: MapInflightBufferRelease_def getB_def runU Let_def pending_at_iff release_bit_def [abs_def])

lemma slack_bound: "pin_inv F G s \<Longrightarrow> 0 < slack s i \<Longrightarrow> i < num_slots s"
  by (metis diff_is_0_eq leI less_nat_zero_code pin_inv_def slack_def zero_le)

lemma bal_lift: "(\<And>x. y = Inr x \<Longrightarrow> bal F G \<delta> (k x) \<delta>') \<Longrightarrow> bal F G \<delta> (bindU (liftU y) k) \<delta>'"
  by (rule balI, cases y) (auto simp: wp spare_drop dest: balD)

lemma find_index_Some: "find_index P xs = Some i \<Longrightarrow> i < length xs \<and> P (xs ! i)"
  by (induction xs arbitrary: i) (auto split: if_splits)

lemma find_index_None: "find_index P xs = None \<longleftrightarrow> (\<forall>x\<in>set xs. \<not> P x)"
  by (induction xs) auto

definition set_entries :: "MapInflightLocalEntry list \<Rightarrow> 'x map_buf_scheme \<Rightarrow> 'x map_buf_scheme" where
  "set_entries es = upd_backend (\<lambda>me. me\<lparr>MapInflightLocalEntries := es\<rparr>)"

lemma pin_inv_claim:
  assumes inv: "pin_inv F G s" and e: "entry_ok s e" and pin: "0 < slack s (inf_slot_id e)"
    and free: "\<not> pending_at (MapBuffers s ! inf_slot_id e) (inf_entry_idx e)"
  defines "t \<equiv> set_entries (my_entries s @ [e]) (upd_buf (inf_slot_id e) (claim_bit (inf_entry_idx e)) s)"
  shows "pin_inv F G t" "slack s = add_pin (inf_slot_id e) (slack t)"
proof -
  have "claims_ok (e # my_entries s @ G) (upd_buf (inf_slot_id e) (claim_bit (inf_entry_idx e)) s)"
    using inv e free by (intro claims_ok_claim) (simp_all add: pin_inv_def)
  then have "claims_ok (my_entries t @ G) t"
    using claims_ok_mset [of "(my_entries s @ [e]) @ G" "e # my_entries s @ G" t] by (simp add: t_def set_entries_def)
  moreover have "cache_ok t"
    unfolding t_def set_entries_def using inv by (simp add: pin_inv_def cache_ok_upd_buf)
  ultimately show "pin_inv F G t" using inv pin
    by (auto simp: t_def set_entries_def pin_inv_def nth_upd_buf slack_def)
  show "slack s = add_pin (inf_slot_id e) (slack t)"
    using pin by (auto simp: t_def set_entries_def slack_def add_pin_def fun_eq_iff)
qed

lemma pin_inv_release:
  assumes inv: "pin_inv F G s" and es: "mset (my_entries s) = add_mset e (mset es)"
  defines "t \<equiv> set_entries es (upd_buf (inf_slot_id e) (release_bit (inf_entry_idx e)) s)"
  shows "pin_inv F G t" "slack t = add_pin (inf_slot_id e) (slack s)"
    "pending_at (MapBuffers s ! inf_slot_id e) (inf_entry_idx e)"
proof -
  have "claims_ok (e # es @ G) s" "cache_ok s"
    using inv es claims_ok_mset [of "my_entries s @ G" "e # es @ G" s] by (simp_all add: pin_inv_def)
  note rel = claims_ok_release [OF this]
  have own: "own_count (my_entries s) i = own_count (e # es) i" for i
    using own_count_mset [of "my_entries s" "e # es"] es by simp
  have "cache_ok t"
    unfolding t_def set_entries_def using inv by (simp add: pin_inv_def cache_ok_upd_buf)
  moreover have "own_count es i \<le> private_pins s i" for i
    using inv own [of i] by (auto simp: pin_inv_def intro: order_trans [rotated])
  ultimately show "pin_inv F G t" using inv rel(1) by (auto simp: t_def set_entries_def pin_inv_def nth_upd_buf)
  have le: "own_count (my_entries s) (inf_slot_id e) \<le> private_pins s (inf_slot_id e)"
    using inv by (simp add: pin_inv_def)
  show "slack t = add_pin (inf_slot_id e) (slack s)"
    using own le by (auto simp: t_def set_entries_def slack_def add_pin_def fun_eq_iff)
  show "pending_at (MapBuffers s ! inf_slot_id e) (inf_entry_idx e)" by (rule rel(2))
qed

lemma MapInflightRelease_found:
  assumes inv: "pin_inv F G s" and found: "MapInflightLocalFind r f l (my_entries s) = Some idx"
  shows "\<exists>t. MapInflightRelease r f l s = (Inr (), t) \<and> pin_inv F G t \<and> slack t = slack s \<and>
     num_slots t = num_slots s \<and> my_entries t = drop_swap idx (my_entries s)"
proof -
  let ?es = "my_entries s"
  let ?e = "?es ! idx" and ?es' = "drop_swap idx ?es"
  let ?t = "set_entries ?es' (upd_buf (inf_slot_id ?e) (release_bit (inf_entry_idx ?e)) s)"
  have "idx < length ?es" using find_index_Some found unfolding MapInflightLocalFind_def by blast
  then have es: "mset ?es = add_mset ?e (mset ?es')" by (simp add: mset_drop_swap)
  note t = pin_inv_release [OF inv es]
  have run: "MapInflightRelease r f l s = MapUnpinBuffer (inf_slot_id ?e) ?t"
    using found t(3)
    by (simp add: MapInflightRelease_def local_find_def runU MapInflightBufferRelease_run MapInflightLocalForget_def
          set_entries_def upd_buf_upd_backend) (simp add: upd_backend_def MapInflightLocalForget_def)
  have pos: "0 < slack ?t (inf_slot_id ?e)" using t(2) by (simp add: add_pin_def)
  note u = pin_inv_unpin [OF t(1) pos]
  have "add_pin (inf_slot_id ?e) (slack s) = add_pin (inf_slot_id ?e) (slack (unpin_slot (inf_slot_id ?e) ?t))"
    using t(2) u(2) by simp
  then have "slack (unpin_slot (inf_slot_id ?e) ?t) = slack s" by (simp add: add_pin_inject)
  then show ?thesis using u(1,3) run
    by (simp add: unpin_slot_def unpin_private_def set_entries_def)
qed

lemma bal_MapInflightRelease: "bal F G \<delta> (MapInflightRelease r f l) (\<lambda>_. \<delta>)"
proof (rule balI)
  fix S and s :: "'a map_buf_scheme"
  assume s: "spare F G (\<lambda>i. S i + \<delta> i) s"
  show "wpU (MapInflightRelease r f l) (after F G S (\<lambda>_. \<delta>)) s"
  proof (cases "MapInflightLocalFind r f l (my_entries s)")
    case None
    then show ?thesis using s by (simp add: MapInflightRelease_def local_find_def wp)
  next
    case (Some idx)
    then show ?thesis using s MapInflightRelease_found [of F G s r f l] by (auto simp: wpU_def spare_def)
  qed
qed

lemma claim_wp:
  assumes s: "spare F G (\<lambda>j. S j + add_pin i \<delta> j) s" and dec: "MapInflightDecode f l = Inr (b, k)"
  shows "wpU (bindU (MapInflightBufferTryClaim r f b i k) (\<lambda>claimed.
           if \<not> claimed then bindU (MapUnpinBuffer i) (\<lambda>_. returnU False)
           else
             bindU (modifyU (upd_backend (MapInflightLocalRememberPrepared r f l p i k))) (\<lambda>_. returnU True)))
         (after F G S (\<lambda>_. \<delta>)) s"
proof (cases "buf_has_tag (MapBuffers s ! i) r f b \<and> \<not> pending_at (MapBuffers s ! i) k")
  case False
  have "bal F G (add_pin i \<delta>) (bindU (MapUnpinBuffer i) (\<lambda>_. returnU False)) (\<lambda>_. \<delta>)"
    by (intro bal_unpin_then bal_return) simp
  then have "wpU (bindU (MapUnpinBuffer i) (\<lambda>_. returnU False)) (after F G S (\<lambda>_. \<delta>)) s"
    by (rule balD [OF _ s])
  moreover have "MapInflightBufferTryClaim r f b i k s = (Inr False, s)"
    using False by (simp only: MapInflightBufferTryClaim_run if_False)
  ultimately show ?thesis by (simp add: wpU_def bindU_Inr [of _ s False s])
next
  case True
  let ?e = "\<lparr>inf_rnode = r, inf_forknum = f, inf_lblkno = l, inf_pblkno = p, inf_slot_id = i, inf_entry_idx = k\<rparr>"
  have le: "add_pin i (\<lambda>j. S j + \<delta> j) j \<le> slack s j" and inv: "pin_inv F G s" for j
    using s unfolding spare_add_pin by (simp_all add: spare_def)
  have pos: "0 < slack s i" using le [of i] by (simp add: add_pin_def)
  have e: "entry_ok s ?e" using True dec slack_bound [OF inv pos] by (simp add: entry_ok_def)
  note c = pin_inv_claim [OF inv e, simplified, OF pos conjunct2 [OF True]]
  have "\<forall>j. S j + \<delta> j \<le> slack (set_entries (my_entries s @ [?e]) (upd_buf i (claim_bit k) s)) j"
    using le unfolding c(2) by (subst add_pin_le [symmetric]) (rule allI)
  moreover have "MapInflightBufferTryClaim r f b i k s = (Inr True, upd_buf i (claim_bit k) s)"
    using True by (simp add: MapInflightBufferTryClaim_run)
  ultimately show ?thesis using c(1)
    by (simp add: wpU_def bindU_Inr [of _ s True] runU spare_def set_entries_def upd_backend_def
        MapInflightLocalRememberPrepared_def)
qed

lemma bal_MapInflightTryClaim: "bal F G \<delta> (MapInflightTryClaim c r f l) (\<lambda>_. \<delta>)"
proof -
  have claim: "bal F G \<delta> (bindU (MapReadBuffer c r f b) (\<lambda>i.
         bindU (MapInflightBufferTryClaim r f b i k) (\<lambda>claimed.
           if \<not> claimed then bindU (MapUnpinBuffer i) (\<lambda>_. returnU False)
           else
             bindU (modifyU (upd_backend (MapInflightLocalRememberPrepared r f l InvalidBlockNumber i k)))
               (\<lambda>_. returnU True)))) (\<lambda>_. \<delta>)"
    if "MapInflightDecode f l = Inr (b, k)" for b k
    by (rule bal_read_then, rule balI) (rule claim_wp [OF _ that])
  show ?thesis unfolding MapInflightTryClaim_def
    by (intro bal_skip leaves_local_find bal_if bal_return bal_lift bal_prod claim) simp_all
qed

lemma bal_MapInflightBitIsSet: "bal F G \<delta> (MapInflightBitIsSet r f l) (\<lambda>_. \<delta>)"
  unfolding MapInflightBitIsSet_def
  by (intro bal_skip psk.leaves_rules bal_prod bal_lookup_pin bal_return bal_getB bal_unpin_then) simp_all


subsection \<open>Lookups, reservations, publication and truncation\<close>

definition held :: "(nat \<times> BlockNumber) option \<Rightarrow> (nat \<Rightarrow> nat) \<Rightarrow> nat \<Rightarrow> nat" where
  "held cur \<delta> = (case cur of None \<Rightarrow> \<delta> | Some (i, _) \<Rightarrow> add_pin i \<delta>)"

lemma bal_liftR: "bal F G \<delta> (liftU y) (\<lambda>_. \<delta>)"
  by (intro bal_leaves psk.leaves_rules)

lemma bal_MapTryLookupCachedEntry: "bal F G \<delta> (MapTryLookupCachedEntry r f b k a) (\<lambda>_. \<delta>)"
  unfolding MapTryLookupCachedEntry_def
  by (intro bal_lookup_pin bal_return bal_getB bal_if bal_unpin_then bal_skip leaves_page_entry) simp_all

lemma bal_MapTryLookup: "bal F G \<delta> (MapTryLookup c r f l) (\<lambda>_. \<delta>)"
proof -
  have split: "bal F G \<delta> m \<delta>' \<Longrightarrow> bal F G \<delta> n \<delta>' \<Longrightarrow> (\<And>p. bal F G \<delta> (h p) \<delta>') \<Longrightarrow>
      bal F G \<delta> (case x of MAP_CACHED_LOOKUP_MISS \<Rightarrow> m | MAP_CACHED_LOOKUP_UNMAPPED \<Rightarrow> n
        | MAP_CACHED_LOOKUP_MAPPED p \<Rightarrow> h p) \<delta>'" for m n h x and \<delta>' :: "'z \<Rightarrow> nat \<Rightarrow> nat"
    by (cases x) simp_all
  have cached: "bal F G \<delta> (MapTryLookupCachedPblknoInternal r f l True) (\<lambda>_. \<delta>)"
    unfolding MapTryLookupCachedPblknoInternal_def
    by (intro bal_if bal_return bal_lift bal_prod bal_MapTryLookupCachedEntry) simp_all
  show ?thesis unfolding MapTryLookup_def
    by (intro bal_if bal_throw bal_bind [OF cached] split bal_return bal_lift bal_prod bal_read_then bal_getB
        bal_skip leaves_page_entry bal_unpin_then) simp_all
qed

lemma bal_unpin_page: "bal F G (held cur \<delta>) (unpin_page cur) (\<lambda>_. \<delta>)"
  unfolding unpin_page_def held_def by (auto split: option.splits intro: bal_return bal_unpin)

lemma bal_switch_page: "bal F G (held cur \<delta>) (switch_page c r f b cur) (\<lambda>i. add_pin i \<delta>)"
  unfolding switch_page_def held_def
  by (auto split: option.splits intro!: bal_MapReadBuffer bal_if bal_return bal_unpin_then)

lemma bal_run_loop: "bal F G (held cur \<delta>) (run_loop n c r f l rem st ex k cur) (\<lambda>_. \<delta>)"
proof (induction n arbitrary: l rem st ex k cur)
  case 0
  show ?case by (auto intro!: bal_bind [OF bal_unpin_page] bal_return)
next
  case (Suc n)
  note next_page = Suc [where cur = "Some (i, b)" for i b, unfolded held_def option.case prod.case]
  show ?case unfolding run_loop.simps Let_def
    by (intro bal_if bal_bind [OF bal_unpin_page] bal_return bal_lift bal_prod bal_bind [OF bal_switch_page]
        bal_get bal_unpin_then next_page) simp_all
qed

lemma bal_MapTryLookupPblkRun: "bal F G \<delta> (MapTryLookupPblkRun c r f l n) (\<lambda>_. \<delta>)"
proof -
  have "bal F G \<delta> (run_loop (unat n) c r f l n 0 InvalidBlockNumber 0 None) (\<lambda>_. \<delta>)"
    using bal_run_loop [of F G None \<delta>] by (simp add: held_def)
  then show ?thesis unfolding MapTryLookupPblkRun_def
    by (intro bal_if bal_throw bal_skip bal_return pin_rules) simp_all
qed

lemma bal_MapTryReserveFresh: "bal F G \<delta> (MapTryReserveFreshPblknoInternal busy c r f l nw) (\<lambda>_. \<delta>)"
proof -
  have rel: "bal F G \<epsilon> (MapInflightRelease r f l) (\<lambda>_. \<epsilon>)" for \<epsilon> by (rule bal_MapInflightRelease)
  have "bal F G \<delta> (catchU (reserve_from_entry r f l nw busy) (MapInflightRelease r f l)) (\<lambda>_. \<delta>)"
    by (intro bal_catch bal_leaves leaves_reserve_from_entry rel)
  then show ?thesis unfolding MapTryReserveFreshPblknoInternal_def
    by (intro bal_if bal_return bal_skip pin_rules bal_bind [OF bal_MapInflightTryClaim] bal_bind [of F G \<delta> _ "\<lambda>_. \<delta>"]
        bal_when rel) simp_all
qed


lemma bal_MapReserveNextPblkno: "bal F G \<delta> (MapReserveNextPblkno busy c r f l nw) (\<lambda>_. \<delta>)"
  unfolding MapReserveNextPblkno_def
  by (intro bal_skip leaves_MapInflightLookupOwnedPblk bal_if bal_return bal_bind [OF bal_MapTryReserveFresh]
      bal_leaves) simp_all

lemma bal_MapReserveFreshPblkno: "bal F G \<delta> (MapReserveFreshPblkno g ok c r f l) (\<lambda>_. \<delta>)"
  unfolding MapReserveFreshPblkno_def
  by (intro bal_bind [OF bal_MapReserveNextPblkno] bal_skip pin_rules pin_leaves bal_return) simp_all

lemma bal_MapSetMapping: "bal F G \<delta> (MapSetMapping c r f l p lsn) (\<lambda>_. \<delta>)"
  unfolding MapSetMapping_def
  by (intro bal_lift bal_prod bal_read_then bal_skip pin_rules pin_leaves bal_unpin)

lemma bal_truncate_loop: "bal F G \<delta> (truncate_loop ps x c r f lsn) (\<lambda>_. \<delta>)"
proof (induction ps)
  case (Cons p ps)
  show ?case unfolding truncate_loop.simps Let_def
    by (intro bal_lift bal_skip pin_rules pin_leaves bal_if bal_return bal_read_then bal_unpin_then Cons) simp_all
qed (simp add: bal_return)

lemma bal_MapTruncate: "bal F G \<delta> (MapTruncate c r f n lsn) (\<lambda>_. \<delta>)"
  unfolding MapTruncate_def
  by (intro bal_if bal_return bal_throw bal_skip pin_rules bal_option bal_truncate_loop) simp_all

lemma bal_physical_count_loop:
  "bal F G (held cur \<delta>) (physical_count_loop ps c r f n m k cur) (\<lambda>(_, cur'). held cur' \<delta>)"
proof (induction ps arbitrary: k cur)
  case (Cons p ps)
  note next_page = Cons [where cur = "Some (i, b)" for i b, unfolded held_def option.case prod.case]
  show ?case unfolding physical_count_loop.simps Let_def
    by (intro bal_lift bal_if bal_return bal_bind [OF bal_switch_page] bal_get)
      (use next_page in \<open>simp_all add: held_def\<close>)
qed (simp add: bal_return)

lemma bal_MapGetPhysicalBlockCount: "bal F G \<delta> (MapGetPhysicalBlockCount c r f n) (\<lambda>_. \<delta>)"
proof -
  have loop: "bal F G \<delta> (physical_count_loop ps c r f n m k None) (\<lambda>(_, cur'). held cur' \<delta>)" for ps m k
    using bal_physical_count_loop [of F G None \<delta>] by (simp add: held_def)
  show ?thesis unfolding MapGetPhysicalBlockCount_def
    by (intro bal_if bal_return bal_skip pin_rules bal_bind [OF loop])
      (auto intro!: bal_bind [OF bal_unpin_page] bal_return bal_throw)
qed

subsection \<open>Leaving a backend\<close>


end
