(* ===== verification/MapSystem.thy ===== *)
theory MapSystem
  imports MapClaims
begin

text \<open>
  Several backends over one shared MAP cache. A system state is the list of the backends' private
  records, the write barriers each of them holds, and the shared state; a step runs one operation of
  \<^verbatim>\<open>map.c\<close>, \<^verbatim>\<open>mapbuf.c\<close>, \<^verbatim>\<open>mapinflight.c\<close> or \<^verbatim>\<open>mapflush.c\<close> as one of the backends, whether it succeeds or
  fails, or lets a backend leave. In every reachable state the reference counts are exactly the pins,
  the pending bits are exactly the claims, and no logical block is claimed twice.
\<close>

subsection \<open>Write barriers\<close>

lemma claims_ok_barrier:
  "pin_inv F G s \<Longrightarrow> entry_ok s e \<Longrightarrow> \<not> pending_at (MapBuffers s ! inf_slot_id e) (inf_entry_idx e) \<Longrightarrow>
   pin_inv F (e # G) (upd_buf (inf_slot_id e) (claim_bit (inf_entry_idx e)) s)"
  using claims_ok_claim [of "my_entries s @ G" s e]
    claims_ok_mset [of "e # my_entries s @ G" "my_entries s @ e # G" "upd_buf (inf_slot_id e) (claim_bit (inf_entry_idx e)) s"]
  by (auto simp: pin_inv_def nth_upd_buf cache_ok_upd_buf)

lemma claims_ok_unbarrier:
  assumes "pin_inv F (e # G) s"
  shows "pin_inv F G (upd_buf (inf_slot_id e) (release_bit (inf_entry_idx e)) s)"
    and "pending_at (MapBuffers s ! inf_slot_id e) (inf_entry_idx e)"
proof -
  have "claims_ok (e # my_entries s @ G) s" "cache_ok s"
    using assms claims_ok_mset [of "e # my_entries s @ G" "my_entries s @ e # G" s] by (simp_all add: pin_inv_def)
  note rel = claims_ok_release [OF this]
  show "pin_inv F G (upd_buf (inf_slot_id e) (release_bit (inf_entry_idx e)) s)"
    using assms rel(1) by (auto simp: pin_inv_def nth_upd_buf cache_ok_upd_buf)
  show "pending_at (MapBuffers s ! inf_slot_id e) (inf_entry_idx e)" by (rule rel(2))
qed

lemma slack_upd_buf [simp]: "slack (upd_buf i g s) = slack s"
  by (simp add: slack_def fun_eq_iff)

text \<open>The claim a barrier stands for.\<close>

definition barrier_entry ::
  "RelFileLocator \<Rightarrow> ForkNumber \<Rightarrow> BlockNumber \<Rightarrow> MapInflightBarrier \<Rightarrow> MapInflightLocalEntry" where
  "barrier_entry r f l bar = \<lparr>inf_rnode = r, inf_forknum = f, inf_lblkno = l, inf_pblkno = InvalidBlockNumber,
     inf_slot_id = bar_slot_id bar, inf_entry_idx = bar_entry_idx bar\<rparr>"

lemma MapInflightTryClaimBarrier_wp:
  assumes s: "spare F G S s"
  shows "wpU (MapInflightTryClaimBarrier c r f l) (\<lambda>x t. case x of
      Inr (Some bar) \<Rightarrow> spare F (barrier_entry r f l bar # G) (add_pin (bar_slot_id bar) S) t
    | _ \<Rightarrow> spare F G S t) s" (is "wpU _ ?Q s")
proof -
  have claim: "wpU (bindU (MapInflightBufferTryClaim r f b i k) (\<lambda>claimed.
           if \<not> claimed then bindU (MapUnpinBuffer i) (\<lambda>_. returnU None)
           else returnU (Some \<lparr>bar_slot_id = i, bar_entry_idx = k\<rparr>))) ?Q t"
    if t: "spare F G (\<lambda>j. S j + add_pin i (\<lambda>_. 0) j) t" and dec: "MapInflightDecode f l = Inr (b, k)"
    for i b k and t :: "'a map_buf_scheme"
  proof (cases "buf_has_tag (MapBuffers t ! i) r f b \<and> \<not> pending_at (MapBuffers t ! i) k")
    case False
    have "wpU (bindU (MapUnpinBuffer i) (\<lambda>_. returnU None)) ?Q t"
      by (rule wpU_bindI [OF balD [OF bal_unpin t]]) (auto simp: wp)
    moreover have "MapInflightBufferTryClaim r f b i k t = (Inr False, t)"
      using False by (simp only: MapInflightBufferTryClaim_run if_False)
    ultimately show ?thesis by (simp add: wpU_def bindU_Inr [of _ t False t])
  next
    case True
    let ?bar = "\<lparr>bar_slot_id = i, bar_entry_idx = k\<rparr>"
    let ?e = "barrier_entry r f l ?bar"
    have inv: "pin_inv F G t" and le: "\<forall>j. add_pin i S j \<le> slack t j"
      using t unfolding spare_add_pin by (simp_all add: spare_def)
    have "add_pin i S i \<le> slack t i" using le by blast
    then have pos: "0 < slack t i" by (simp add: add_pin_def)
    have e: "entry_ok t ?e" using True dec slack_bound [OF inv pos] by (simp add: entry_ok_def barrier_entry_def)
    have "pin_inv F (?e # G) (upd_buf i (claim_bit k) t)"
      using claims_ok_barrier [OF inv e] True by (simp add: barrier_entry_def)
    moreover have "MapInflightBufferTryClaim r f b i k t = (Inr True, upd_buf i (claim_bit k) t)"
      using True by (simp add: MapInflightBufferTryClaim_run)
    ultimately show ?thesis using le by (simp add: wpU_def bindU_Inr [of _ t True] runU spare_def)
  qed
  have read: "wpU (bindU (MapReadBuffer c r f b) (\<lambda>i. bindU (MapInflightBufferTryClaim r f b i k) (\<lambda>claimed.
           if \<not> claimed then bindU (MapUnpinBuffer i) (\<lambda>_. returnU None)
           else returnU (Some \<lparr>bar_slot_id = i, bar_entry_idx = k\<rparr>)))) ?Q t"
    if "MapInflightDecode f l = Inr (b, k)" "spare F G S t" for b k and t :: "'a map_buf_scheme"
    by (rule wpU_bindI [OF balD [OF bal_MapReadBuffer, of F G S "\<lambda>_. 0"]]) (use that claim in auto)
  show ?thesis unfolding MapInflightTryClaimBarrier_def local_find_def
    using s by (cases "MapInflightDecode f l") (auto simp: wp intro: read)
qed


lemma MapInflightReleaseBarrier_wp:
  assumes s: "spare F (e # G) (add_pin (inf_slot_id e) S) s"
    and e: "claim_of e = (bar_slot_id bar, bar_entry_idx bar)"
  shows "wpU (MapInflightReleaseBarrier (Some bar)) (\<lambda>x t. x = Inr () \<and> spare F G S t) s"
proof -
  let ?t = "upd_buf (inf_slot_id e) (release_bit (inf_entry_idx e)) s"
  have inv: "pin_inv F (e # G) s" and le: "\<forall>j. add_pin (inf_slot_id e) S j \<le> slack s j"
    using s by (simp_all add: spare_def)
  note rel = claims_ok_unbarrier [OF inv]
  have "add_pin (inf_slot_id e) S (inf_slot_id e) \<le> slack s (inf_slot_id e)" using le by blast
  then have pos: "0 < slack ?t (inf_slot_id e)" by (simp add: add_pin_def)
  note u = pin_inv_unpin [OF rel(1) pos]
  have "\<forall>j. S j \<le> slack (unpin_slot (inf_slot_id e) ?t) j"
    using le u(2) by (simp add: add_pin_le)
  then show ?thesis using e rel(2) u(1,3)
    by (simp add: MapInflightReleaseBarrier_def MapInflightBufferRelease_run wpU_def claim_of_def spare_def)
qed

subsection \<open>A backend leaves\<close>

definition exit_ok :: "(nat \<Rightarrow> nat) \<Rightarrow> MapInflightLocalEntry list \<Rightarrow> nat \<Rightarrow> 'x map_buf_scheme \<Rightarrow> bool" where
  "exit_ok F G n s \<longleftrightarrow> pin_inv F G s \<and> num_slots s = n"

lemma MapInflightCleanupLoop_run:
  assumes "exit_ok F G n s" and "length (my_entries s) = k"
  shows "\<exists>t. MapInflightCleanupLoop k s = (Inr (), t) \<and> exit_ok F G n t \<and> my_entries t = []"
  using assms
proof (induction k arbitrary: s)
  case 0
  then show ?case by (simp add: runU)
next
  case (Suc k)
  then obtain e es where es: "my_entries s = e # es" by (cases "my_entries s") auto
  then have "MapInflightLocalFind (inf_rnode e) (inf_forknum e) (inf_lblkno e) (my_entries s) = Some 0"
    by (simp add: MapInflightLocalFind_def inf_matches_def)
  then obtain t where t: "MapInflightRelease (inf_rnode e) (inf_forknum e) (inf_lblkno e) s = (Inr (), t)"
      "exit_ok F G n t" "my_entries t = drop_swap 0 (my_entries s)"
    using MapInflightRelease_found Suc.prems(1) unfolding exit_ok_def by metis
  have "length (my_entries t) = k" using t(3) Suc.prems(2) by (simp add: drop_swap_def)
  then show ?case using Suc.IH [OF t(2)] es t(1) by (simp add: runU bindU_Inr [of _ s "()" t])
qed

lemma unpin_run:
  assumes "exit_ok F G n s" "my_entries s = []" "private_pins s i = Suc k"
  shows "\<exists>t. MapUnpinBuffer i s = (Inr (), t) \<and> exit_ok F G n t \<and> my_entries t = [] \<and>
     private_pins t = (private_pins s)(i := k)"
proof -
  have inv: "pin_inv F G s" and pos: "0 < slack s i" using assms by (simp_all add: exit_ok_def slack_def)
  show ?thesis using pin_inv_unpin [OF inv pos] assms
    by (simp add: exit_ok_def unpin_slot_def unpin_private_def fun_eq_iff)
qed

lemma unpin_all_run:
  assumes "exit_ok F G n s" "my_entries s = []"
  shows "\<exists>t. unpin_all i s = (Inr (), t) \<and> exit_ok F G n t \<and> my_entries t = [] \<and>
     private_pins t = (private_pins s)(i := 0)"
proof -
  have "\<exists>t. forU xs (\<lambda>_. MapUnpinBuffer i) s = (Inr (), t) \<and> exit_ok F G n t \<and> my_entries t = [] \<and>
     private_pins t = (private_pins s)(i := 0)"
    if "exit_ok F G n s" "my_entries s = []" "length xs = private_pins s i" for s :: "'a map_buf_scheme" and xs :: "nat list"
    using that
  proof (induction xs arbitrary: s)
    case Nil
    then show ?case by (simp add: runU fun_upd_idem)
  next
    case (Cons x xs)
    then obtain t where t: "MapUnpinBuffer i s = (Inr (), t)" "exit_ok F G n t" "my_entries t = []"
        "private_pins t = (private_pins s)(i := length xs)"
      using unpin_run [of F G n s i "length xs"] by auto
    then show ?case using Cons.IH [OF t(2,3)] by (auto simp: bindU_Inr [of _ s "()" t] fun_eq_iff)
  qed
  from this [OF assms, of "[0..<private_pins s i]"] show ?thesis by (simp add: unpin_all_def runU)
qed

lemma unpin_every_run:
  assumes "exit_ok F G n s" "my_entries s = []"
  shows "\<exists>t. forU is unpin_all s = (Inr (), t) \<and> exit_ok F G n t \<and> my_entries t = [] \<and>
     private_pins t = (\<lambda>i. if i \<in> set is then 0 else private_pins s i)"
  using assms
proof (induction "is" arbitrary: s)
  case (Cons i "is")
  obtain t where t: "unpin_all i s = (Inr (), t)" "exit_ok F G n t" "my_entries t = []"
      "private_pins t = (private_pins s)(i := 0)"
    using unpin_all_run [OF Cons.prems] by blast
  then show ?case using Cons.IH [OF t(2,3)] by (auto simp: bindU_Inr [of _ s "()" t] fun_eq_iff)
qed (simp add: runU)

lemma MapAbortBufferIO_ok: "fst (MapAbortBufferIO s) = Inr ()"
  by (simp add: MapAbortBufferIO_def MapTerminateBufferIO_def getB_def runU split: option.splits)

lemma MapResetAll_ok: "MapResetAllTruncatePreloads s = (Inr (), t) \<Longrightarrow> pin_same s t"
  and MapResetAll_total: "fst (MapResetAllTruncatePreloads s) = Inr ()"
proof -
  have "leaves pin_same MapResetAllTruncatePreloads"
    unfolding MapResetAllTruncatePreloads_def by (intro pin_rules pin_leaves)
  then show "MapResetAllTruncatePreloads s = (Inr (), t) \<Longrightarrow> pin_same s t" by (rule leavesD)
  show "fst (MapResetAllTruncatePreloads s) = Inr ()"
    by (simp add: MapResetAllTruncatePreloads_def all_forks_def upd_preload_def runU)
qed

lemma MapBackendExitCleanup_run:
  assumes "pin_inv F G s"
  shows "\<exists>t. MapBackendExitCleanup s = (Inr (), t) \<and> pin_inv F G t \<and> num_slots t = num_slots s \<and>
     my_entries t = [] \<and> private_pins t = (\<lambda>_. 0)"
proof -
  let ?n = "num_slots s"
  obtain s1 where 1: "MapAbortBufferIO s = (Inr (), s1)" by (metis MapAbortBufferIO_ok prod.collapse)
  then have "pin_same s s1" using leavesD [OF leaves_MapAbortBufferIO] by blast
  then have ok1: "exit_ok F G ?n s1" using assms by (simp add: exit_ok_def pin_same_inv(1) pin_same_slots)
  obtain s2 where 2: "MapInflightCleanupOwned s1 = (Inr (), s2)" "exit_ok F G ?n s2" "my_entries s2 = []"
    using MapInflightCleanupLoop_run [OF ok1 refl] by (auto simp: MapInflightCleanupOwned_def runU)
  obtain s3 where 3: "forU [0..<?n] unpin_all s2 = (Inr (), s3)" "exit_ok F G ?n s3" "my_entries s3 = []"
      "private_pins s3 = (\<lambda>i. if i \<in> set [0..<?n] then 0 else private_pins s2 i)"
    using unpin_every_run [OF 2(2,3)] by blast
  then have pins: "private_pins s3 = (\<lambda>_. 0)" using 2(2) by (auto simp: exit_ok_def pin_inv_def fun_eq_iff)
  obtain t where t: "MapResetAllTruncatePreloads s3 = (Inr (), t)" by (metis MapResetAll_total prod.collapse)
  note same = MapResetAll_ok [OF t]
  have "MapBackendExitCleanup s = (Inr (), t)"
    using 1 2(1,2) 3(1) t by (simp add: MapBackendExitCleanup_def bindU_Inr [of _ s "()" s1] bindU_Inr [of _ s1 "()" s2]
        bindU_Inr [of _ s2 "()" s3] runU exit_ok_def)
  moreover have "private_pins t = (\<lambda>_. 0)" "map claim_key (my_entries t) = []"
    using same pins 3(3) by (simp_all add: pin_same_def)
  ultimately show ?thesis
    using pin_same_inv(1) [OF same] pin_same_slots [OF same] 3(2) by (simp add: exit_ok_def)
qed


subsection \<open>The system\<close>

text \<open>A backend is its private record and the claims of the write barriers it holds.\<close>

type_synonym backend_claims = "map_backend \<times> MapInflightLocalEntry list"

datatype map_op =
    OP_LOOKUP nat RelFileLocator ForkNumber BlockNumber
  | OP_LOOKUP_RUN nat RelFileLocator ForkNumber BlockNumber BlockNumber
  | OP_PHYSICAL_COUNT nat RelFileLocator ForkNumber BlockNumber
  | OP_RESERVE bool nat RelFileLocator ForkNumber BlockNumber bool
  | OP_RESERVE_FRESH MapPreallocGucs bool nat RelFileLocator ForkNumber BlockNumber
  | OP_RELEASE RelFileLocator ForkNumber BlockNumber
  | OP_BIT_IS_SET RelFileLocator ForkNumber BlockNumber
  | OP_SET_MAPPING nat RelFileLocator ForkNumber BlockNumber BlockNumber XLogRecPtr
  | OP_TRUNCATE nat RelFileLocator ForkNumber BlockNumber XLogRecPtr
  | OP_BGWRITER_FLUSH int
  | OP_CHECKPOINT
  | OP_CHECKPOINT_RELATION RelFileLocator
  | OP_ABORT_IO

definition ignoring :: "('s, 'a) um \<Rightarrow> ('s, unit) um" where
  "ignoring m = bindU m (\<lambda>_. returnU ())"

primrec exec_op :: "map_op \<Rightarrow> ('x map_buf_scheme, unit) um" where
  "exec_op (OP_LOOKUP c r f l) = ignoring (MapTryLookup c r f l)"
| "exec_op (OP_LOOKUP_RUN c r f l n) = ignoring (MapTryLookupPblkRun c r f l n)"
| "exec_op (OP_PHYSICAL_COUNT c r f n) = ignoring (MapGetPhysicalBlockCount c r f n)"
| "exec_op (OP_RESERVE busy c r f l nw) = ignoring (MapReserveNextPblkno busy c r f l nw)"
| "exec_op (OP_RESERVE_FRESH g ok c r f l) = ignoring (MapReserveFreshPblkno g ok c r f l)"
| "exec_op (OP_RELEASE r f l) = MapInflightRelease r f l"
| "exec_op (OP_BIT_IS_SET r f l) = ignoring (MapInflightBitIsSet r f l)"
| "exec_op (OP_SET_MAPPING c r f l p lsn) = MapSetMapping c r f l p lsn"
| "exec_op (OP_TRUNCATE c r f n lsn) = MapTruncate c r f n lsn"
| "exec_op (OP_BGWRITER_FLUSH n) = ignoring (MapBgWriterFlush n)"
| "exec_op OP_CHECKPOINT = MapCheckpoint"
| "exec_op (OP_CHECKPOINT_RELATION r) = MapCheckpointRelation r"
| "exec_op OP_ABORT_IO = MapAbortBufferIO"

abbreviation run_as :: "map_backend \<Rightarrow> 'x map_buf_scheme \<Rightarrow> 'x map_buf_scheme" where
  "run_as me s \<equiv> upd_backend (\<lambda>_. me) s"

inductive sys_step :: "backend_claims list \<times> 'x map_buf_scheme \<Rightarrow> backend_claims list \<times> 'x map_buf_scheme \<Rightarrow> bool" where
  op: "exec_op op (run_as me s) = (r, t) \<Longrightarrow>
    sys_step (ps @ (me, cs) # qs, s) (ps @ (MyBackend t, cs) # qs, t)"
| barrier: "MapInflightTryClaimBarrier c r f l (run_as me s) = (Inr (Some bar), t) \<Longrightarrow>
    sys_step (ps @ (me, cs) # qs, s) (ps @ (MyBackend t, barrier_entry r f l bar # cs) # qs, t)"
| barrier_busy: "MapInflightTryClaimBarrier c r f l (run_as me s) = (x, t) \<Longrightarrow> \<nexists>bar. x = Inr (Some bar) \<Longrightarrow>
    sys_step (ps @ (me, cs) # qs, s) (ps @ (MyBackend t, cs) # qs, t)"
| unbarrier: "MapInflightReleaseBarrier (Some \<lparr>bar_slot_id = inf_slot_id e, bar_entry_idx = inf_entry_idx e\<rparr>)
      (run_as me s) = (x, t) \<Longrightarrow>
    sys_step (ps @ (me, cs @ e # ds) # qs, s) (ps @ (MyBackend t, cs @ ds) # qs, t)"
| leave: "MapBackendExitCleanup (run_as me s) = (x, t) \<Longrightarrow>
    sys_step (ps @ (me, []) # qs, s) (ps @ (MyBackend t, []) # qs, t)"

inductive sys_reach :: "nat \<Rightarrow> nat \<Rightarrow> backend_claims list \<times> 'x map_buf_scheme \<Rightarrow> bool" for map_buffers n_backends where
  init: "MapShmemInit map_buffers map_superblocks s0 = (Inr (), s) \<Longrightarrow>
    sys_reach map_buffers n_backends (replicate n_backends (MapBackendInit, []), s)"
| step: "sys_reach map_buffers n_backends x \<Longrightarrow> sys_step x y \<Longrightarrow> sys_reach map_buffers n_backends y"

definition all_claims :: "backend_claims list \<Rightarrow> MapInflightLocalEntry list" where
  "all_claims ps = concat (map (\<lambda>(me, cs). MapInflightLocalEntries me @ cs) ps)"

definition all_pins :: "backend_claims list \<Rightarrow> nat \<Rightarrow> nat" where
  "all_pins ps i = sum_list (map (\<lambda>(me, cs). MapPrivateRefCount me i) ps)"

definition backed :: "backend_claims \<Rightarrow> bool" where
  "backed x \<longleftrightarrow> (\<forall>i. own_count (MapInflightLocalEntries (fst x) @ snd x) i \<le> MapPrivateRefCount (fst x) i)"

definition sys_ok :: "backend_claims list \<times> 'x map_buf_scheme \<Rightarrow> bool" where
  "sys_ok x \<longleftrightarrow> (case x of (ps, s) \<Rightarrow>
     cache_ok s \<and> claims_ok (all_claims ps) s \<and>
     (\<forall>i<num_slots s. rc (buf_state (MapBuffers s ! i)) = all_pins ps i \<and> us (buf_state (MapBuffers s ! i)) \<le> 5) \<and>
     (\<forall>i\<ge>num_slots s. all_pins ps i = 0) \<and> (\<forall>x\<in>set ps. backed x))"

lemma all_simps [simp]:
  "all_claims (ps @ qs) = all_claims ps @ all_claims qs"
  "all_claims ((me, cs) # ps) = MapInflightLocalEntries me @ cs @ all_claims ps" "all_claims [] = []"
  "all_pins (ps @ qs) i = all_pins ps i + all_pins qs i"
  "all_pins ((me, cs) # ps) i = MapPrivateRefCount me i + all_pins ps i" "all_pins [] i = 0"
  by (simp_all add: all_claims_def all_pins_def)

lemma sys_ok_split:
  "sys_ok (ps @ (me, cs) # qs, s) \<longleftrightarrow>
     spare (all_pins (ps @ qs)) (cs @ all_claims (ps @ qs)) (own_count cs) (run_as me s) \<and>
     (\<forall>x\<in>set (ps @ qs). backed x)"
proof -
  have "mset (all_claims (ps @ (me, cs) # qs)) = mset (MapInflightLocalEntries me @ cs @ all_claims (ps @ qs))"
    by simp
  from claims_ok_mset [OF this, of s]
  have claims: "claims_ok (all_claims (ps @ (me, cs) # qs)) s =
      claims_ok (MapInflightLocalEntries me @ cs @ all_claims (ps @ qs)) s" .
  have "backed (me, cs) \<longleftrightarrow> (\<forall>i. own_count (MapInflightLocalEntries me) i \<le> MapPrivateRefCount me i) \<and>
      (\<forall>i. own_count cs i \<le> MapPrivateRefCount me i - own_count (MapInflightLocalEntries me) i)"
    unfolding backed_def by (auto simp: all_conj_distrib [symmetric] le_diff_conv2 add.commute)
      (metis add_leD1 | metis add_leD2 le_diff_conv2)+
  then show ?thesis unfolding sys_ok_def claims prod.case spare_def pin_inv_def slack_def
    by auto
qed


lemma bal_ignoring: "bal F G \<delta> m (\<lambda>_. \<delta>) \<Longrightarrow> bal F G \<delta> (ignoring m) (\<lambda>_. \<delta>)"
  unfolding ignoring_def by (intro bal_bind [of F G \<delta> m "\<lambda>_. \<delta>"] bal_return) simp_all

lemma bal_exec_op: "bal F G \<delta> (exec_op op) (\<lambda>_. \<delta>)"
  by (cases op)
    (auto intro!: bal_ignoring bal_MapTryLookup bal_MapTryLookupPblkRun bal_MapGetPhysicalBlockCount
      bal_MapReserveNextPblkno bal_MapReserveFreshPblkno bal_MapInflightRelease bal_MapInflightBitIsSet
      bal_MapSetMapping bal_MapTruncate bal_leaves [OF leaves_MapBgWriterFlush] bal_leaves [OF leaves_MapCheckpoint]
      bal_leaves [OF leaves_MapCheckpointRelation] bal_leaves [OF leaves_MapAbortBufferIO])

lemma run_as_self: "run_as (MyBackend t) t = t"
  by (simp add: upd_backend_def)

lemma spare_mset:
  assumes "mset G = mset G'"
  shows "spare F G S s = spare F G' S s"
proof -
  have "claims_ok (my_entries s @ G) s = claims_ok (my_entries s @ G') s"
    by (rule claims_ok_mset) (simp add: assms)
  then show ?thesis by (simp add: spare_def pin_inv_def)
qed

lemma own_count_add_pin: "own_count (e # cs) = add_pin (inf_slot_id e) (own_count cs)"
  by (auto simp: add_pin_def fun_eq_iff)

lemma sys_step_ok: "sys_step x y \<Longrightarrow> sys_ok x \<Longrightarrow> sys_ok y"
proof (induction rule: sys_step.induct)
  case (op op me s r t ps cs qs)
  then have s: "spare (all_pins (ps @ qs)) (cs @ all_claims (ps @ qs)) (\<lambda>i. own_count cs i + 0) (run_as me s)"
    by (simp add: sys_ok_split)
  have "spare (all_pins (ps @ qs)) (cs @ all_claims (ps @ qs)) (own_count cs) t"
    using wpU_runD [OF balD [OF bal_exec_op s] op(1)] by (auto simp: after_def split: sum.splits)
  then show ?case using op(2) by (simp add: sys_ok_split run_as_self)
next
  case (barrier c r f l me s bar t ps cs qs)
  then have s: "spare (all_pins (ps @ qs)) (cs @ all_claims (ps @ qs)) (own_count cs) (run_as me s)"
    by (simp add: sys_ok_split)
  show ?case using wpU_runD [OF MapInflightTryClaimBarrier_wp [OF s] barrier(1)] barrier(2)
    by (simp add: sys_ok_split run_as_self own_count_add_pin) (simp add: barrier_entry_def)
next
  case (barrier_busy c r f l me s x t ps cs qs)
  then have s: "spare (all_pins (ps @ qs)) (cs @ all_claims (ps @ qs)) (own_count cs) (run_as me s)"
    by (simp add: sys_ok_split)
  show ?case using wpU_runD [OF MapInflightTryClaimBarrier_wp [OF s] barrier_busy(1)] barrier_busy(2,3)
    by (auto simp: sys_ok_split run_as_self split: sum.splits option.splits)
next
  case (unbarrier e me s x t ps cs ds qs)
  have "spare (all_pins (ps @ qs)) ((cs @ e # ds) @ all_claims (ps @ qs)) (own_count (cs @ e # ds)) (run_as me s)"
    using unbarrier(2) by (simp add: sys_ok_split del: append_assoc)
  moreover have "own_count (cs @ e # ds) = own_count (e # cs @ ds)" by (rule own_count_mset) simp
  moreover have "mset ((cs @ e # ds) @ all_claims (ps @ qs)) = mset (e # (cs @ ds) @ all_claims (ps @ qs))" by simp
  ultimately have s: "spare (all_pins (ps @ qs)) (e # (cs @ ds) @ all_claims (ps @ qs))
      (add_pin (inf_slot_id e) (own_count (cs @ ds))) (run_as me s)"
    using spare_mset by (metis own_count_add_pin)
  have "spare (all_pins (ps @ qs)) ((cs @ ds) @ all_claims (ps @ qs)) (own_count (cs @ ds)) t"
    using wpU_runD [OF MapInflightReleaseBarrier_wp [OF s] unbarrier(1)] by (simp add: claim_of_def)
  then show ?case using unbarrier(2) by (simp add: sys_ok_split run_as_self)
next
  case (leave me s x t ps qs)
  then have "pin_inv (all_pins (ps @ qs)) (all_claims (ps @ qs)) (run_as me s)"
    by (simp add: sys_ok_split spare_def)
  from MapBackendExitCleanup_run [OF this]
  have "pin_inv (all_pins (ps @ qs)) (all_claims (ps @ qs)) t" using leave(1) by auto
  then show ?case using leave(2) by (simp add: sys_ok_split spare_def run_as_self)
qed

lemma MapShmemInit_ok:
  assumes "MapShmemInit nb ns s0 = (Inr (), s)"
  shows "sys_ok (replicate k (MapBackendInit, []), s)"
proof -
  have bufs: "MapBuffers s = map (init_buf nb) [0..<nb]" and hash: "MapCacheHash s = Map.empty"
    using assms by (auto simp: MapShmemInit_def MapSuperTableShmemInit_def Let_def runU)
  have none: "all_claims (replicate k (MapBackendInit, [])) = []" "all_pins (replicate k (MapBackendInit, [])) i = 0" for i
    by (simp_all add: all_claims_def all_pins_def MapBackendInit_def sum_list_replicate map_replicate_const
        concat_eq_Nil_conv)
  have "\<not> pending_at (init_buf nb i) j" if "j < 2048" for i j
    using that by (simp add: pending_at_def init_buf_def pending_word_bits)
  then have idle: "{j. j < 2048 \<and> pending_at (init_buf nb i) j} = {}" for i by auto
  show ?thesis unfolding sys_ok_def prod.case
  proof (intro conjI)
    show "cache_ok s" by (auto simp: cache_ok_def bufs hash init_buf_def buf_has_tag_def)
    show "claims_ok (all_claims (replicate k (MapBackendInit, []))) s"
      using idle by (auto simp: claims_ok_def none bufs init_buf_def)
    show "\<forall>i<num_slots s. rc (buf_state (MapBuffers s ! i)) = all_pins (replicate k (MapBackendInit, [])) i \<and>
        us (buf_state (MapBuffers s ! i)) \<le> 5"
      by (simp add: bufs none init_buf_def rc_def us_def)
    show "\<forall>i\<ge>num_slots s. all_pins (replicate k (MapBackendInit, [])) i = 0" by (simp add: none)
  qed (auto simp: backed_def MapBackendInit_def)
qed

lemma sys_reach_ok: "sys_reach nb k x \<Longrightarrow> sys_ok x"
  by (induction rule: sys_reach.induct) (auto intro: MapShmemInit_ok sys_step_ok)


subsection \<open>A first page in an empty cache\<close>

lemma fork_missing:
  assumes "ctx_segs s c f = []" "path_inode s (ctx_rloc s c, f, 0) = None"
  shows "umfile_ctx_fork_exists c f UMFILE_EXISTS_DENSE s = (Inr False, s)"
  using assms
  by (simp add: umfile_ctx_fork_exists_def umfile_exists_def runU umfile_fork_has_open_segment_def umfile_openfork_def
      PathNameOpenFile_def bindU_def)

definition demo_empty :: map_buf where
  "demo_empty = run_as MapBackendInit (snd (MapShmemInit 1 0 (demo_buf\<lparr>um_dir := []\<rparr>)))"

lemma demo_empty_fields:
  "MapBuffers demo_empty = [init_buf 1 0]" "MapCacheHash demo_empty = Map.empty" "MyBackend demo_empty = MapBackendInit"
  "first_free_buffer demo_empty = FREENEXT_SLOT 0" "mapwriter_procno demo_empty = None" "um_dir demo_empty = []"
  "ctx_segs demo_empty c UMBRA_METADATA_FORKNUM = []"
  by (simp_all add: demo_empty_def upd_backend_def MapShmemInit_def MapSuperTableShmemInit_def Let_def runU demo_buf_def map_sb.defs
      map_buf.defs demo_sb_def map_super.defs demo_super_def demo_super0_def um_fs.defs demo_fs_def ctx_segs_def)

lemma demo_decode: "MapInflightDecode MAIN_FORKNUM 0 = Inr (3, 0)"
  by (simp add: MapInflightDecode_nat)

lemma demo_barrier:
  "fst (MapInflightTryClaimBarrier 0 (locator demo_rloc) MAIN_FORKNUM 0 demo_empty) =
     Inr (Some \<lparr>bar_slot_id = 0, bar_entry_idx = 0\<rparr>)"
proof -
  let ?r = "locator demo_rloc" and ?s1 = "count_alloc (pop_free 0 demo_empty)"
  let ?s2 = "pin_slot 0 False ?s1"
  have clock: "MapClockGetBuffer demo_empty = (Inr 0, ?s1)"
    by (simp add: MapClockGetBuffer_def MapWakeWriter_def bindU_def runU demo_empty_fields MapClockFreeList.simps
        Let_def init_buf_def rc_def us_def)
  have buf: "MapBuffers ?s2 = [(init_buf 1 0)\<lparr>freeNext := FREENEXT_NOT_IN_LIST, buf_state := 1\<rparr>]"
    by (simp add: pin_slot_def pop_free_def upd_buf_def demo_empty_fields init_buf_def pin_word_def)
  have pin: "MapPinBuffer 0 False ?s1 = (Inr (), ?s2)"
    by (simp add: MapPinBuffer_run pop_free_def upd_buf_def demo_empty_fields init_buf_def rc_def)
  have hash: "MapCacheHash ?s2 = Map.empty"
    by (simp add: pin_slot_def pop_free_def count_alloc_def demo_empty_fields)
  have ok: "cache_ok ?s2" by (auto simp: cache_ok_def buf hash buf_has_tag_def init_buf_def)
  let ?s3 = "adopt_slot ?r MAIN_FORKNUM 3 0 ?s2"
  have fs: "um_dir ?s3 = []" "ctx_segs ?s3 c UMBRA_METADATA_FORKNUM = []" for c
    using demo_empty_fields(6,7)
    by (simp_all add: adopt_slot_def Let_def upd_buf_def pin_slot_def upd_backend_def pop_free_def count_alloc_def ctx_segs_def)
  have miss: "umfile_ctx_fork_exists 0 UMBRA_METADATA_FORKNUM UMFILE_EXISTS_DENSE ?s3 = (Inr False, ?s3)"
    by (rule fork_missing) (simp_all add: fs path_inode_def)
  have s3: "MapBuffers ?s3 = [adopt_buf ?r MAIN_FORKNUM 3 (MapBuffers ?s2 ! 0)]"
    by (rule nth_equalityI) (simp_all add: adopt_slot_nth buf)
  obtain s4 where fill: "fill_page 0 ?r MAIN_FORKNUM 3 0 ?s3 = (Inr (), s4)"
      and s4: "MapBuffers s4 = [(adopt_buf ?r MAIN_FORKNUM 3 (MapBuffers ?s2 ! 0))
        \<lparr>buf_state := buf_state (adopt_buf ?r MAIN_FORKNUM 3 (MapBuffers ?s2 ! 0)) OR MAPBUF_NOT_MATERIALIZED\<rparr>]"
    using s3 by (simp add: fill_page_def bindU_def miss set_page_def MapBufferUpdateStateBits_def runU upd_buf_def)
  have adopt: "adopt_victim 0 ?r MAIN_FORKNUM 3 0 ?s2 = (Inr (Some 0), s4)"
    by (subst adopt_victim_run [OF ok]) (simp_all add: buf hash init_buf_def bindU_def fill runU)
  have victim: "take_victim 0 ?r MAIN_FORKNUM 3 demo_empty = (Inr (Some 0), s4)"
    by (simp add: take_victim_def bindU_def clock pin getB_def runU buf)
      (simp add: adopt buf_has_tag_def init_buf_def MAPBUF_GET_REFCOUNT_def mapbuf_bits)
  have read: "MapReadBuffer 0 ?r MAIN_FORKNUM 3 demo_empty = (Inr 0, s4)"
    by (simp add: MapReadBuffer_def MAP_BLOCK_SUPER_def runU MapCacheLookup_def demo_empty_fields bindU_def victim)
  have "pending_at (MapBuffers s4 ! 0) 0 = pending_at (adopt_buf ?r MAIN_FORKNUM 3 (MapBuffers ?s2 ! 0)) 0"
    "buf_has_tag (MapBuffers s4 ! 0) ?r MAIN_FORKNUM 3"
    by (simp_all add: s4 pending_at_def buf_has_tag_def adopt_buf_def)
  then show ?thesis
    by (simp add: MapInflightTryClaimBarrier_def local_find_def runU demo_empty_fields MapBackendInit_def
        MapInflightLocalFind_def demo_decode bindU_def read MapInflightBufferTryClaim_run pending_at_adopt)
qed


lemma demo_claimed:
  obtains me cs t where "sys_reach 1 1 ([(me, cs)], t :: map_buf)"
    "cs = [barrier_entry (locator demo_rloc) MAIN_FORKNUM 0 \<lparr>bar_slot_id = 0, bar_entry_idx = 0\<rparr>]"
    "0 < num_slots t" "pin_inv (\<lambda>_. 0) cs t"
proof -
  let ?s = "snd (MapShmemInit 1 0 (demo_buf\<lparr>um_dir := []\<rparr>))"
  let ?e = "barrier_entry (locator demo_rloc) MAIN_FORKNUM 0 \<lparr>bar_slot_id = 0, bar_entry_idx = 0\<rparr>"
  have "MapShmemInit 1 0 (demo_buf\<lparr>um_dir := []\<rparr>) = (Inr (), ?s)"
    by (simp add: MapShmemInit_def MapSuperTableShmemInit_def Let_def runU)
  then have reach: "sys_reach 1 1 ([] @ (MapBackendInit, []) # [], ?s)"
    using sys_reach.init [of 1 0 _ _ 1] by simp
  obtain t where t: "MapInflightTryClaimBarrier 0 (locator demo_rloc) MAIN_FORKNUM 0 (run_as MapBackendInit ?s) =
      (Inr (Some \<lparr>bar_slot_id = 0, bar_entry_idx = 0\<rparr>), t)"
    using demo_barrier unfolding demo_empty_def by (metis prod.collapse)
  have step: "sys_reach 1 1 ([] @ (MyBackend t, [?e]) # [], t)"
    by (rule sys_reach.step [OF reach sys_step.barrier [OF t]])
  have ok: "pin_inv (all_pins []) (?e # all_claims []) t"
    using sys_reach_ok [OF step] unfolding sys_ok_split by (simp add: spare_def run_as_self)
  moreover have "all_pins [] = (\<lambda>_. 0)" by (simp add: fun_eq_iff)
  ultimately have inv: "pin_inv (\<lambda>_. 0) [?e] t" by simp
  then have "entry_ok t ?e" by (simp add: pin_inv_def claims_ok_def)
  then have "0 < num_slots t" by (simp add: entry_ok_def barrier_entry_def)
  then show ?thesis using that step inv by simp
qed

lemma distinct_map_finer:
  assumes "distinct (map g xs)" and "\<And>x y. x \<in> set xs \<Longrightarrow> y \<in> set xs \<Longrightarrow> f x = f y \<Longrightarrow> g x = g y"
  shows "distinct (map f xs)"
  using assms unfolding distinct_map inj_on_def by blast

lemma sys_ok_distinct:
  assumes "sys_ok (ps, s)"
  shows "distinct (map (\<lambda>e. (inf_rnode e, inf_forknum e, inf_lblkno e)) (all_claims ps))"
proof (rule distinct_map_finer [of claim_of])
  have ok: "claims_ok (all_claims ps) s" "cache_ok s" using assms by (simp_all add: sys_ok_def)
  show "distinct (map claim_of (all_claims ps))" using ok(1) by (simp add: claims_ok_def)
  fix e e' assume e: "e \<in> set (all_claims ps)" "e' \<in> set (all_claims ps)"
    and key: "(inf_rnode e, inf_forknum e, inf_lblkno e) = (inf_rnode e', inf_forknum e', inf_lblkno e')"
  have "entry_ok s e" "entry_ok s e'" using ok(1) e by (simp_all add: claims_ok_def)
  then obtain b where "inf_slot_id e < num_slots s" "inf_slot_id e' < num_slots s" "inf_entry_idx e = inf_entry_idx e'"
      "buf_has_tag (MapBuffers s ! inf_slot_id e) (inf_rnode e) (inf_forknum e) b"
      "buf_has_tag (MapBuffers s ! inf_slot_id e') (inf_rnode e) (inf_forknum e) b"
    using key by (auto simp: entry_ok_def)
  then show "claim_of e = claim_of e'" using cache_ok_unique [OF ok(2)] unfolding claim_of_def by auto
qed

lemma own_count_pos: "e \<in> set es \<Longrightarrow> 0 < own_count es (inf_slot_id e)"
  by (auto simp: own_count_def filter_empty_conv)

lemma backed_pins:
  assumes "\<forall>x\<in>set ps. backed x" and "e \<in> set (all_claims ps)"
  shows "0 < all_pins ps (inf_slot_id e)"
proof -
  obtain me cs where x: "(me, cs) \<in> set ps" "e \<in> set (MapInflightLocalEntries me @ cs)"
    using assms(2) by (auto simp: all_claims_def)
  then have "own_count (MapInflightLocalEntries me @ cs) (inf_slot_id e) \<le> MapPrivateRefCount me (inf_slot_id e)"
    using assms(1) by (auto simp: backed_def)
  moreover have "MapPrivateRefCount me (inf_slot_id e) \<le> all_pins ps (inf_slot_id e)"
    unfolding all_pins_def by (rule member_le_sum_list) (use x(1) in force)+
  ultimately show ?thesis using own_count_pos [OF x(2)] by linarith
qed

lemma sys_ok_held:
  assumes "sys_ok (ps, s)"
  shows "\<forall>e\<in>set (all_claims ps). \<exists>b.
      MapInflightDecode (inf_forknum e) (inf_lblkno e) = Inr (b, inf_entry_idx e) \<and>
      MapCacheHash s (inf_rnode e, inf_forknum e, b) = Some (inf_slot_id e) \<and>
      pending_word (MapBuffers s ! inf_slot_id e) (inf_entry_idx e) AND MapInflightEntryMask (inf_entry_idx e) \<noteq> 0 \<and>
      MAPBUF_GET_REFCOUNT (buf_state (MapBuffers s ! inf_slot_id e)) \<noteq> 0"
proof
  fix e assume e: "e \<in> set (all_claims ps)"
  have ok: "claims_ok (all_claims ps) s" "cache_ok s" using assms by (simp_all add: sys_ok_def)
  then have ent: "entry_ok s e" using e by (simp add: claims_ok_def)
  then obtain b where b: "MapInflightDecode (inf_forknum e) (inf_lblkno e) = Inr (b, inf_entry_idx e)"
      "buf_has_tag (MapBuffers s ! inf_slot_id e) (inf_rnode e) (inf_forknum e) b"
    by (auto simp: entry_ok_def)
  have i: "inf_slot_id e < num_slots s" "inf_entry_idx e < 2048" using entry_ok_idx [OF ent] by simp_all
  have "claim_of e \<in> claim_of ` set (all_claims ps)" using e by simp
  then have "pending_at (MapBuffers s ! inf_slot_id e) (inf_entry_idx e)"
    using ok(1) i by (simp add: claims_ok_def claim_of_def)
  moreover have "rc (buf_state (MapBuffers s ! inf_slot_id e)) = all_pins ps (inf_slot_id e)"
    using assms i by (simp add: sys_ok_def)
  moreover have "0 < all_pins ps (inf_slot_id e)" using assms e by (intro backed_pins) (simp_all add: sys_ok_def)
  ultimately show "\<exists>b. MapInflightDecode (inf_forknum e) (inf_lblkno e) = Inr (b, inf_entry_idx e) \<and>
      MapCacheHash s (inf_rnode e, inf_forknum e, b) = Some (inf_slot_id e) \<and>
      pending_word (MapBuffers s ! inf_slot_id e) (inf_entry_idx e) AND MapInflightEntryMask (inf_entry_idx e) \<noteq> 0 \<and>
      MAPBUF_GET_REFCOUNT (buf_state (MapBuffers s ! inf_slot_id e)) \<noteq> 0"
    using b i cache_ok_hash [OF ok(2)] by (simp add: pending_at_iff)
qed







end
