(* ===== verification/UmbraSmgr.thy ===== *)
theory UmbraSmgr
  imports UmbraWal
begin

text \<open>
  The storage manager \<^verbatim>\<open>src/backend/storage/smgr/umbra.c\<close>: access policy, translation of logical
  to physical blocks, publication of new mappings, and the smgr callbacks built on them.

  An \<^verbatim>\<open>SMgrRelation\<close> is named by its \<open>RelFileLocatorBackend\<close>; the private state that
  \<^verbatim>\<open>umopen\<close> hangs on it is kept in \<open>smgr_private\<close>.  What the surrounding server decides is an
  argument of the operations (\<open>um_env\<close>) or a field of the state (whether WAL may be inserted, which relations
  skip WAL).  The asynchronous read path (\<^verbatim>\<open>umstartreadv\<close>) hands a request to the AIO subsystem
  and is not modelled; \<^verbatim>\<open>umreadv\<close> is its synchronous form.
\<close>

section \<open>State of a relation handle\<close>

datatype UmbraMapPolicy =
    UMBRA_MAP_POLICY_UNKNOWN
  | UMBRA_MAP_POLICY_BYPASS_MAP
  | UMBRA_MAP_POLICY_SKIP_WAL_PENDING_MAP
  | UMBRA_MAP_POLICY_REQUIRE_MAP

record UmbraAccessState =
  policy :: UmbraMapPolicy
  map_available :: bool

record UmbraRelationState =
  file_ctx :: "nat option"
  map_state :: UmbraMapPolicy

text \<open>\<^verbatim>\<open>UmbraAccessLookupState\<close>: the logical size, once it has been looked up.\<close>

type_synonym UmbraAccessLookupState = "BlockNumber option"

datatype UmbraAccessResolveMode =
    UMBRA_ACCESS_RESOLVE_READ | UMBRA_ACCESS_RESOLVE_WRITE | UMBRA_ACCESS_RESOLVE_WRITEBACK

datatype UmbraAccessResolveResult =
    UMBRA_ACCESS_RESOLVED_PBLK BlockNumber | UMBRA_ACCESS_RESOLVED_ZERO | UMBRA_ACCESS_RESOLVED_SKIP

record UmbraMappedBirthResult =
  birth_pblkno :: BlockNumber
  mapping_published :: bool

definition UMBRA_WRITE_BARRIER_WAIT_RETRIES :: nat where
  "UMBRA_WRITE_BARRIER_WAIT_RETRIES = 10000"

record um_smgr = map_wal +
  smgr_private :: "RelFileLocatorBackend \<Rightarrow> UmbraRelationState option"
  smgr_cached_nblocks :: "RelFileLocatorBackend \<Rightarrow> ForkNumber \<Rightarrow> BlockNumber"
  RelFileLocatorSkippingWAL :: "RelFileLocator \<Rightarrow> bool"
  XLogInsertAllowed :: bool
  IsBootstrapProcessingMode :: bool
  IsInitProcessingMode :: bool

text \<open>Settings and the environment: \<open>env_yield n\<close> is what the other backends do while this one sleeps for the
  \<open>n\<close>-th time, \<open>env_rounds\<close> bounds the loops that others can prolong, \<open>env_supported\<close> says whether the file system
  can preallocate.\<close>

record 's um_env =
  env_rounds :: nat
  env_yield :: "nat \<Rightarrow> 's \<Rightarrow> 's"
  env_gucs :: MapPreallocGucs
  env_supported :: bool
  zero_damaged_pages :: bool
  IsBinaryUpgrade :: bool
  io_max_combine_limit :: nat

text \<open>\<^verbatim>\<open>START_CRIT_SECTION\<close> \dots \<^verbatim>\<open>END_CRIT_SECTION\<close>: an error inside is a PANIC.\<close>

definition critU :: "bool \<Rightarrow> ('s, 'a) um \<Rightarrow> ('s, 'a) um" where
  [um_defs]: "critU b m = (\<lambda>s. case m s of
       (Inl (lev, e), t) \<Rightarrow> (Inl (if b \<and> lev = ERROR \<and> e \<noteq> E_WAIT then PANIC else lev, e), t)
     | (Inr x, t) \<Rightarrow> (Inr x, t))"

definition um_state_lookup ::
  "RelFileLocatorBackend \<Rightarrow> ('x um_smgr_scheme, UmbraRelationState option) um" where
  "um_state_lookup reln = getU (\<lambda>s. smgr_private s reln)"

definition set_private ::
  "RelFileLocatorBackend \<Rightarrow> UmbraRelationState option \<Rightarrow> ('x um_smgr_scheme, unit) um" where
  "set_private reln st = modifyU (\<lambda>s. s\<lparr>smgr_private := (smgr_private s)(reln := st)\<rparr>)"

definition um_state_acquire ::
  "RelFileLocatorBackend \<Rightarrow> ('x um_smgr_scheme, UmbraRelationState) um" where
  "um_state_acquire reln =
     bindU (um_state_lookup reln) (\<lambda>found.
       case found of
         None \<Rightarrow>
           bindU (umfile_ctx_acquire reln) (\<lambda>c.
           let st = \<lparr>file_ctx = Some c, map_state = UMBRA_MAP_POLICY_UNKNOWN\<rparr> in
           bindU (set_private reln (Some st)) (\<lambda>_. returnU st))
       | Some st \<Rightarrow>
           if file_ctx st = None
           then bindU (umfile_ctx_acquire reln) (\<lambda>c.
                bindU (set_private reln (Some (st\<lparr>file_ctx := Some c\<rparr>))) (\<lambda>_.
                returnU (st\<lparr>file_ctx := Some c\<rparr>)))
           else returnU st)"

definition um_ctx_acquire :: "RelFileLocatorBackend \<Rightarrow> ('x um_smgr_scheme, nat) um" where
  "um_ctx_acquire reln =
     bindU (um_state_acquire reln) (\<lambda>st.
       case file_ctx st of None \<Rightarrow> throwU (PANIC, E_INTERNAL) | Some c \<Rightarrow> returnU c)"

definition um_ctx_lookup :: "RelFileLocatorBackend \<Rightarrow> ('x um_smgr_scheme, nat option) um" where
  "um_ctx_lookup reln =
     bindU (um_state_lookup reln) (\<lambda>found.
       returnU (case found of None \<Rightarrow> None | Some st \<Rightarrow> file_ctx st))"

definition um_map_state_cached :: "RelFileLocatorBackend \<Rightarrow> ('x um_smgr_scheme, UmbraMapPolicy) um" where
  "um_map_state_cached reln =
     bindU (um_state_lookup reln) (\<lambda>found.
       returnU (case found of None \<Rightarrow> UMBRA_MAP_POLICY_UNKNOWN | Some st \<Rightarrow> map_state st))"

definition um_set_cached_map_state ::
  "RelFileLocatorBackend \<Rightarrow> UmbraMapPolicy \<Rightarrow> ('x um_smgr_scheme, unit) um" where
  "um_set_cached_map_state reln st' =
     bindU (um_state_acquire reln) (\<lambda>st. set_private reln (Some (st\<lparr>map_state := st'\<rparr>)))"

definition um_state_destroy :: "RelFileLocatorBackend \<Rightarrow> ('x um_smgr_scheme, unit) um" where
  "um_state_destroy reln = set_private reln None"

definition SmgrIsTemp :: "RelFileLocatorBackend \<Rightarrow> bool" where
  "SmgrIsTemp reln \<longleftrightarrow> RelFileLocatorBackendIsTemp reln"

section \<open>The metadata fork\<close>

definition UmMetadataExists :: "RelFileLocatorBackend \<Rightarrow> ('x um_smgr_scheme, bool) um" where
  "UmMetadataExists reln =
     bindU (um_ctx_acquire reln) (\<lambda>c. umfile_exists c UMBRA_METADATA_FORKNUM UMFILE_EXISTS_DENSE)"

definition UmMetadataOpenOrCreate ::
  "RelFileLocatorBackend \<Rightarrow> bool \<Rightarrow> ('x um_smgr_scheme, bool \<times> bool) um" where
  "UmMetadataOpenOrCreate reln isRedo =
     bindU (um_ctx_acquire reln) (\<lambda>c. umfile_open_or_create c UMBRA_METADATA_FORKNUM isRedo)"

definition UmMetadataNblocks :: "RelFileLocatorBackend \<Rightarrow> ('x um_smgr_scheme, BlockNumber) um" where
  "UmMetadataNblocks reln =
     bindU (um_ctx_acquire reln) (\<lambda>c. umfile_nblocks c UMBRA_METADATA_FORKNUM UMFILE_NBLOCKS_DENSE)"

definition UmMetadataRead ::
  "'s um_env \<Rightarrow> RelFileLocatorBackend \<Rightarrow> BlockNumber \<Rightarrow> ('x um_smgr_scheme, block list) um" where
  "UmMetadataRead env reln blkno =
     bindU (um_ctx_acquire reln) (\<lambda>c.
     umfile_readv c UMBRA_METADATA_FORKNUM blkno 1 (zero_damaged_pages env))"

definition UmMetadataWrite ::
  "RelFileLocatorBackend \<Rightarrow> BlockNumber \<Rightarrow> block \<Rightarrow> bool \<Rightarrow> ('x um_smgr_scheme, unit) um" where
  "UmMetadataWrite reln blkno buffer skipFsync =
     bindU (um_ctx_acquire reln) (\<lambda>c.
     bindU (umfile_ctx_write c UMBRA_METADATA_FORKNUM blkno buffer) (\<lambda>_.
     umfile_ctx_register_dirty c UMBRA_METADATA_FORKNUM blkno skipFsync
       (RelFileLocatorBackendIsTemp reln)))"

definition UmMetadataExtend ::
  "RelFileLocatorBackend \<Rightarrow> BlockNumber \<Rightarrow> block \<Rightarrow> bool \<Rightarrow> ('x um_smgr_scheme, unit) um" where
  "UmMetadataExtend reln blkno buffer skipFsync =
     bindU (um_ctx_acquire reln) (\<lambda>c. umfile_extend c UMBRA_METADATA_FORKNUM blkno buffer skipFsync)"

definition umimmedsync :: "RelFileLocatorBackend \<Rightarrow> ForkNumber \<Rightarrow> ('x um_smgr_scheme, unit) um" where
  "umimmedsync reln f =
     bindU (um_ctx_acquire reln) (\<lambda>c.
     bindU (whenU (f = UMBRA_METADATA_FORKNUM) (MapCheckpointRelation (locator reln))) (\<lambda>_.
     umfile_immedsync c f))"

definition UmMetadataImmediateSync :: "RelFileLocatorBackend \<Rightarrow> ('x um_smgr_scheme, unit) um" where
  "UmMetadataImmediateSync reln = umimmedsync reln UMBRA_METADATA_FORKNUM"

definition UmMetadataRegisterSync :: "RelFileLocatorBackend \<Rightarrow> ('x um_smgr_scheme, unit) um" where
  "UmMetadataRegisterSync reln =
     bindU (um_ctx_acquire reln) (\<lambda>c. umfile_registersync c UMBRA_METADATA_FORKNUM)"

definition UmMetadataUnlink ::
  "'s um_env \<Rightarrow> RelFileLocatorBackend \<Rightarrow> bool \<Rightarrow> ('x um_smgr_scheme, unit) um" where
  "UmMetadataUnlink env rlocator isRedo =
     umfile_unlink rlocator UMBRA_METADATA_FORKNUM isRedo (IsBinaryUpgrade env)"

section \<open>Access policy\<close>

definition UmbraForkUsesMapTranslation :: "ForkNumber \<Rightarrow> bool" where
  "UmbraForkUsesMapTranslation f \<longleftrightarrow>
     f = MAIN_FORKNUM \<or> f = FSM_FORKNUM \<or> f = VISIBILITYMAP_FORKNUM"

definition UmbraForkIsAuxiliaryMapped :: "ForkNumber \<Rightarrow> bool" where
  "UmbraForkIsAuxiliaryMapped f \<longleftrightarrow> f = FSM_FORKNUM \<or> f = VISIBILITYMAP_FORKNUM"

definition um_fork_uses_map_translation :: "ForkNumber \<Rightarrow> bool" where
  "um_fork_uses_map_translation f = UmbraForkUsesMapTranslation f"

definition um_fork_uses_wal_owned_firstborn :: "ForkNumber \<Rightarrow> bool" where
  "um_fork_uses_wal_owned_firstborn f \<longleftrightarrow>
     UmbraForkUsesMapTranslation f \<and> \<not> UmbraForkIsAuxiliaryMapped f"

definition um_mapped_exists_from_super ::
  "RelFileLocatorBackend \<Rightarrow> ForkNumber \<Rightarrow> ('x um_smgr_scheme, bool) um" where
  "um_mapped_exists_from_super reln f =
     bindU (um_ctx_acquire reln) (\<lambda>c.
     bindU (UmMetadataExists reln) (\<lambda>ex.
       if \<not> ex then returnU False else MapSBlockForkExists c (locator reln) f))"

definition um_open_map_state :: "RelFileLocatorBackend \<Rightarrow> ('x um_smgr_scheme, UmbraMapPolicy) um" where
  "um_open_map_state reln =
     bindU (um_ctx_acquire reln) (\<lambda>c.
       if RelFileLocatorBackendIsTemp reln then returnU UMBRA_MAP_POLICY_BYPASS_MAP
       else
         bindU (UmMetadataExists reln) (\<lambda>ex.
           if \<not> ex then returnU UMBRA_MAP_POLICY_BYPASS_MAP
           else
             bindU (MapSBlockIsSkipWalPending c (locator reln)) (\<lambda>pending.
             returnU (if pending then UMBRA_MAP_POLICY_SKIP_WAL_PENDING_MAP
                      else UMBRA_MAP_POLICY_REQUIRE_MAP))))"

definition um_state_uses_map :: "UmbraMapPolicy \<Rightarrow> bool" where
  "um_state_uses_map st \<longleftrightarrow> st = UMBRA_MAP_POLICY_REQUIRE_MAP"

definition um_state_requires_durable_sync :: "UmbraMapPolicy \<Rightarrow> bool" where
  "um_state_requires_durable_sync st \<longleftrightarrow>
     st = UMBRA_MAP_POLICY_REQUIRE_MAP \<or> st = UMBRA_MAP_POLICY_SKIP_WAL_PENDING_MAP"

definition um_relation_requires_durable_sync ::
  "RelFileLocatorBackend \<Rightarrow> ('x um_smgr_scheme, bool) um" where
  "um_relation_requires_durable_sync reln =
     bindU (um_map_state_cached reln) (\<lambda>st.
       if um_state_requires_durable_sync st then returnU True else UmMetadataExists reln)"

definition um_map_policy_for_access ::
  "RelFileLocatorBackend \<Rightarrow> ForkNumber \<Rightarrow> ('x um_smgr_scheme, UmbraMapPolicy) um" where
  "um_map_policy_for_access reln f =
     (if \<not> um_fork_uses_map_translation f then returnU UMBRA_MAP_POLICY_BYPASS_MAP
      else um_map_state_cached reln)"

definition um_classify_access ::
  "RelFileLocatorBackend \<Rightarrow> ForkNumber \<Rightarrow> ('x um_smgr_scheme, UmbraAccessState) um" where
  "um_classify_access reln f =
     bindU (um_map_policy_for_access reln f) (\<lambda>p.
     returnU \<lparr>policy = p, map_available = um_state_uses_map p\<rparr>)"

text \<open>The report computes the address of the MAP page only for its message.\<close>

definition um_report_unmapped_map_entry ::
  "RelFileLocatorBackend \<Rightarrow> ForkNumber \<Rightarrow> UmbraAccessState \<Rightarrow> BlockNumber \<Rightarrow> ('x um_smgr_scheme, 'a) um" where
  "um_report_unmapped_map_entry reln f access lblkno =
     bindU (um_ctx_acquire reln) (\<lambda>c.
     bindU (MapSBlockTryGetLogicalNblocks c (locator reln) f) (\<lambda>_.
       if \<not> UmbraForkUsesMapTranslation f then throwU (ERROR, E_UNSUPPORTED_FORK)
       else throwU (ERROR, E_DATA_CORRUPTED)))"

definition umsetmapstate :: "RelFileLocatorBackend \<Rightarrow> UmbraMapPolicy \<Rightarrow> ('x um_smgr_scheme, unit) um" where
  "umsetmapstate reln st = um_set_cached_map_state reln st"

section \<open>Opening, closing, creating\<close>

definition umopen :: "RelFileLocatorBackend \<Rightarrow> ('x um_smgr_scheme, unit) um" where
  "umopen reln =
     bindU (um_ctx_acquire reln) (\<lambda>_.
     bindU (um_map_state_cached reln) (\<lambda>st.
       if st \<noteq> UMBRA_MAP_POLICY_UNKNOWN then returnU ()
       else bindU (um_open_map_state reln) (\<lambda>st'. um_set_cached_map_state reln st')))"

definition umclose :: "RelFileLocatorBackend \<Rightarrow> ForkNumber \<Rightarrow> ('x um_smgr_scheme, unit) um" where
  "umclose reln f =
     bindU (um_ctx_lookup reln) (\<lambda>c.
       case c of None \<Rightarrow> returnU () | Some c \<Rightarrow> umfile_ctx_close_fork c f)"

definition umdestroy :: "RelFileLocatorBackend \<Rightarrow> ('x um_smgr_scheme, unit) um" where
  "umdestroy reln = bindU (umfile_ctx_forget reln) (\<lambda>_. um_state_destroy reln)"

definition uminit :: "('x um_smgr_scheme, unit) um" where
  "uminit = modifyU (\<lambda>s. s\<lparr>MyBackend := MapBackendInit\<rparr>)"

definition umbeforeshmemexitcleanup :: "('x um_smgr_scheme, unit) um" where
  "umbeforeshmemexitcleanup = MapBackendExitCleanup"

definition ummapcreate :: "RelFileLocatorBackend \<Rightarrow> ('x um_smgr_scheme, unit) um" where
  "ummapcreate reln =
     bindU (um_ctx_acquire reln) (\<lambda>c.
     bindU (UmMetadataOpenOrCreate reln True) (\<lambda>(_, newly_created).
       if \<not> newly_created then returnU ()
       else
         bindU (MapSBlockInit c (locator reln) InvalidXLogRecPtr) (\<lambda>_.
         whenU (\<not> SmgrIsTemp reln) (UmMetadataRegisterSync reln))))"

definition umisinternalfork :: "ForkNumber \<Rightarrow> bool" where
  "umisinternalfork f \<longleftrightarrow> f = UMBRA_METADATA_FORKNUM"

definition umcreatedballowswallog :: bool where
  "umcreatedballowswallog = False"

definition umcreaterelationmetadata :: "RelFileLocatorBackend \<Rightarrow> ('x um_smgr_scheme, unit) um" where
  "umcreaterelationmetadata reln = ummapcreate reln"

definition uminitnewrelation :: "RelFileLocatorBackend \<Rightarrow> bool \<Rightarrow> ('x um_smgr_scheme, unit) um" where
  "uminitnewrelation reln needs_wal =
     bindU (umsetmapstate reln (if needs_wal then UMBRA_MAP_POLICY_REQUIRE_MAP
                                else UMBRA_MAP_POLICY_BYPASS_MAP)) (\<lambda>_.
     whenU needs_wal (umcreaterelationmetadata reln))"

definition umredocreatefork ::
  "RelFileLocatorBackend \<Rightarrow> ForkNumber \<Rightarrow> XLogRecPtr \<Rightarrow> ('x um_smgr_scheme, unit) um" where
  "umredocreatefork reln f lsn =
     bindU (um_ctx_acquire reln) (\<lambda>c.
       if f = MAIN_FORKNUM
       then bindU (umsetmapstate reln UMBRA_MAP_POLICY_REQUIRE_MAP) (\<lambda>_. umcreaterelationmetadata reln)
       else if \<not> UmbraForkUsesMapTranslation f
       then umsetmapstate reln UMBRA_MAP_POLICY_BYPASS_MAP
       else
         bindU (umsetmapstate reln UMBRA_MAP_POLICY_REQUIRE_MAP) (\<lambda>_.
         bindU (UmMetadataExists reln) (\<lambda>ex.
         bindU (whenU (\<not> ex) (umcreaterelationmetadata reln)) (\<lambda>_.
         whenU (UmbraForkIsAuxiliaryMapped f)
           (MapSBlockSetLogicalNblocks c (locator reln) f 0 lsn)))))"

definition umcheckpointdatabasetablespaces :: "Oid \<Rightarrow> Oid list \<Rightarrow> ('x um_smgr_scheme, unit) um" where
  "umcheckpointdatabasetablespaces dbid tablespace_ids =
     MapCheckpointDatabaseTablespaces dbid tablespace_ids"

definition uminvalidatedatabasetablespaces :: "Oid \<Rightarrow> Oid list \<Rightarrow> ('x um_smgr_scheme, unit) um" where
  "uminvalidatedatabasetablespaces dbid tablespace_ids =
     MapInvalidateDatabaseTablespaces dbid tablespace_ids"

primrec copy_metadata_loop ::
  "nat list \<Rightarrow> 's um_env \<Rightarrow> RelFileLocatorBackend \<Rightarrow> RelFileLocatorBackend \<Rightarrow> BlockNumber \<Rightarrow>
   ('x um_smgr_scheme, unit) um" where
  "copy_metadata_loop [] env src dst dst_nblocks = returnU ()"
| "copy_metadata_loop (i # is) env src dst dst_nblocks =
     (let blkno = of_nat i in
      bindU (UmMetadataRead env src blkno) (\<lambda>pagebuf.
      bindU (if blkno < dst_nblocks then UmMetadataWrite dst blkno (hd pagebuf) True
             else UmMetadataExtend dst blkno (hd pagebuf) True) (\<lambda>_.
      copy_metadata_loop is env src dst dst_nblocks)))"

definition umcopyrelationmetadata ::
  "'s um_env \<Rightarrow> RelFileLocatorBackend \<Rightarrow> RelFileLocatorBackend \<Rightarrow> bool \<Rightarrow> ('x um_smgr_scheme, unit) um" where
  "umcopyrelationmetadata env src dst permanent =
     (if \<not> permanent then returnU ()
      else
        bindU (UmMetadataExists src) (\<lambda>ex.
          if \<not> ex then returnU ()
          else
            bindU (ummapcreate dst) (\<lambda>_.
            bindU (UmMetadataNblocks src) (\<lambda>src_nblocks.
            bindU (UmMetadataNblocks dst) (\<lambda>dst_nblocks.
            bindU (copy_metadata_loop [0..<unat src_nblocks] env src dst dst_nblocks) (\<lambda>_.
            UmMetadataImmediateSync dst))))))"

definition umsyncrelationmetadata :: "RelFileLocatorBackend \<Rightarrow> ('x um_smgr_scheme, unit) um" where
  "umsyncrelationmetadata reln =
     bindU (UmMetadataExists reln) (\<lambda>ex. if \<not> ex then returnU () else UmMetadataImmediateSync reln)"

definition umunlinkrelationmetadata ::
  "'s um_env \<Rightarrow> RelFileLocatorBackend \<Rightarrow> bool \<Rightarrow> ('x um_smgr_scheme, unit) um" where
  "umunlinkrelationmetadata env rlocator isRedo =
     bindU (MapInvalidateRelation (locator rlocator)) (\<lambda>_. UmMetadataUnlink env rlocator isRedo)"

section \<open>Publishing a reserved range\<close>

definition um_ensure_datafork_batch_ready_for_access ::
  "'s um_env \<Rightarrow> RelFileLocatorBackend \<Rightarrow> ForkNumber \<Rightarrow> UmbraAccessState \<Rightarrow> BlockNumber \<Rightarrow> bool \<Rightarrow>
   ('x um_smgr_scheme, unit) um" where
  "um_ensure_datafork_batch_ready_for_access env reln f access pblkno skipFsync =
     bindU (um_ctx_acquire reln) (\<lambda>c.
       if \<not> map_available access then returnU ()
       else if pblkno = InvalidBlockNumber then returnU ()
       else if pblkno + 1 = 0 then throwU (ERROR, E_PROGRAM_LIMIT)
       else bindU (MapSBlockEnsurePhysicalNblocks (env_rounds env) c (locator reln) f (pblkno + 1) skipFsync)
              (\<lambda>_. returnU ()))"

text \<open>The running maximum of the loop; \<open>InvalidBlockNumber\<close> in the list counts as the largest number.\<close>

definition range_max :: "BlockNumber list \<Rightarrow> BlockNumber" where
  "range_max pblknos =
     foldl (\<lambda>m pblk. if m = InvalidBlockNumber \<or> pblk > m then pblk else m) InvalidBlockNumber pblknos"

primrec set_mapping_range ::
  "BlockNumber list \<Rightarrow> nat \<Rightarrow> RelFileLocator \<Rightarrow> ForkNumber \<Rightarrow> BlockNumber \<Rightarrow> XLogRecPtr \<Rightarrow>
   ('x map_buf_scheme, unit) um" where
  "set_mapping_range [] c rnode f lblk lsn = returnU ()"
| "set_mapping_range (pblk # pblks) c rnode f lblk lsn =
     bindU (MapSetMapping c rnode f lblk pblk lsn) (\<lambda>_.
     set_mapping_range pblks c rnode f (lblk + 1) lsn)"

definition release_range ::
  "RelFileLocator \<Rightarrow> ForkNumber \<Rightarrow> BlockNumber \<Rightarrow> nat \<Rightarrow> ('x map_buf_scheme, unit) um" where
  "release_range rnode f firstblock n =
     forU [0..<n] (\<lambda>i. MapInflightRelease rnode f (firstblock + of_nat i))"

definition UmApplyReservedRangeRemap ::
  "'s um_env \<Rightarrow> RelFileLocatorBackend \<Rightarrow> ForkNumber \<Rightarrow> BlockNumber \<Rightarrow> BlockNumber list \<Rightarrow> XLogRecPtr \<Rightarrow> bool \<Rightarrow>
   ('x um_smgr_scheme, unit) um" where
  "UmApplyReservedRangeRemap env reln f firstblock pblknos lsn skipFsync =
     bindU (um_ctx_acquire reln) (\<lambda>c.
       let nblocks = of_nat (length pblknos);
           max_lblkno = firstblock + nblocks - 1;
           max_pblkno = range_max pblknos;
           rnode = locator reln
       in
       if max_lblkno < firstblock then throwU (ERROR, E_PROGRAM_LIMIT)
       else
         bindU (whenU (max_pblkno \<noteq> InvalidBlockNumber)
                  (bindU (MapSBlockEnsurePhysicalNblocks (env_rounds env) c rnode f (max_pblkno + 1) skipFsync)
                     (\<lambda>_. returnU ()))) (\<lambda>_.
         bindU (set_mapping_range pblknos c rnode f firstblock lsn) (\<lambda>_.
         bindU (whenU (max_pblkno \<noteq> InvalidBlockNumber)
                  (bindU (MapSBlockBumpNextFreePhysBlock c rnode f (max_pblkno + 1) lsn) (\<lambda>_.
                   bindU (MapSBlockBumpPhysicalNblocks c rnode f (max_pblkno + 1) lsn) (\<lambda>_.
                   release_range rnode f firstblock (length pblknos))))) (\<lambda>_.
         MapSBlockBumpLogicalNblocks c rnode f (max_lblkno + 1) lsn))))"

definition umapplyreservedrange ::
  "'s um_env \<Rightarrow> RelFileLocatorBackend \<Rightarrow> ForkNumber \<Rightarrow> BlockNumber \<Rightarrow> BlockNumber list \<Rightarrow> XLogRecPtr \<Rightarrow> bool \<Rightarrow>
   ('x um_smgr_scheme, bool) um" where
  "umapplyreservedrange env reln f firstblock pblknos lsn skipFsync =
     bindU (UmApplyReservedRangeRemap env reln f firstblock pblknos lsn skipFsync) (\<lambda>_. returnU True)"

text \<open>\<^verbatim>\<open>MyProc->delayChkptFlags\<close>: set the start flag unless it is set, and clear it again if it was set
  here.\<close>

definition delay_chkpt :: "('x um_smgr_scheme, 'a) um \<Rightarrow> ('x um_smgr_scheme, 'a) um" where
  "delay_chkpt m =
     bindU (getU delayChkptStart) (\<lambda>was.
     bindU (modifyU (\<lambda>s. s\<lparr>delayChkptStart := True\<rparr>)) (\<lambda>_.
     bindU m (\<lambda>x.
     bindU (whenU (\<not> was) (modifyU (\<lambda>s. s\<lparr>delayChkptStart := False\<rparr>))) (\<lambda>_.
     returnU x))))"

definition wal_insert_enabled :: "'x um_smgr_scheme \<Rightarrow> bool" where
  "wal_insert_enabled s \<longleftrightarrow>
     XLogInsertAllowed s \<and> \<not> IsBootstrapProcessingMode s \<and> \<not> IsInitProcessingMode s"

section \<open>Leaving the skip-WAL state\<close>

primrec collect_dense_forks ::
  "ForkNumber list \<Rightarrow> nat \<Rightarrow> ('x um_smgr_scheme, (ForkNumber \<times> BlockNumber) list) um" where
  "collect_dense_forks [] c = returnU []"
| "collect_dense_forks (f # fs) c =
     (if \<not> UmbraForkUsesMapTranslation f then collect_dense_forks fs c
      else
        bindU (umfile_exists c f UMFILE_EXISTS_DENSE) (\<lambda>ex.
          if \<not> ex then collect_dense_forks fs c
          else
            bindU (umfile_nblocks c f UMFILE_NBLOCKS_DENSE) (\<lambda>nblocks.
            bindU (collect_dense_forks fs c) (\<lambda>rest. returnU ((f, nblocks) # rest)))))"

definition apply_dense_fork ::
  "nat \<Rightarrow> RelFileLocator \<Rightarrow> XLogRecPtr \<Rightarrow> ForkNumber \<times> BlockNumber \<Rightarrow> ('x map_buf_scheme, unit) um" where
  "apply_dense_fork c rnode map_lsn = (\<lambda>(f, nblocks).
     let fork_lsn = (if nblocks > 0 then map_lsn else InvalidXLogRecPtr) in
     bindU (set_mapping_range (map of_nat [0..<unat nblocks]) c rnode f 0 fork_lsn) (\<lambda>_.
     bindU (whenU (nblocks > 0)
              (bindU (MapSBlockBumpNextFreePhysBlock c rnode f nblocks fork_lsn) (\<lambda>_.
               MapSBlockBumpPhysicalNblocks c rnode f nblocks fork_lsn))) (\<lambda>_.
     MapSBlockSetLogicalNblocks c rnode f nblocks fork_lsn)))"

definition UmRebuildMapAndSuperblockForSkipWAL ::
  "RelFileLocatorBackend \<Rightarrow> ('x um_smgr_scheme, unit) um" where
  "UmRebuildMapAndSuperblockForSkipWAL reln =
     bindU (um_ctx_acquire reln) (\<lambda>c.
     bindU (MapInvalidateRelation (locator reln)) (\<lambda>_.
     bindU (collect_dense_forks [MAIN_FORKNUM, FSM_FORKNUM, VISIBILITYMAP_FORKNUM] c) (\<lambda>apply_entries.
     bindU (getU wal_insert_enabled) (\<lambda>enabled.
       let wal_entries = filter (\<lambda>(f, nblocks). nblocks > 0) apply_entries;
           rnode = locator reln
       in
       if wal_entries \<noteq> [] \<and> enabled
       then
         critU True (delay_chkpt (
           bindU (log_umbra_skip_wal_dense_map rnode wal_entries) (\<lambda>map_lsn.
           forU apply_entries (apply_dense_fork c rnode map_lsn))))
       else forU apply_entries (apply_dense_fork c rnode InvalidXLogRecPtr)))))"

definition ummarkskipwalpending :: "RelFileLocatorBackend \<Rightarrow> ('x um_smgr_scheme, unit) um" where
  "ummarkskipwalpending reln =
     bindU (um_ctx_acquire reln) (\<lambda>c.
     bindU (UmMetadataExists reln) (\<lambda>ex.
     bindU (whenU (\<not> ex) (ummapcreate reln)) (\<lambda>_.
     bindU (MapSBlockSetSkipWalPending c (locator reln) True InvalidXLogRecPtr) (\<lambda>_.
     um_set_cached_map_state reln UMBRA_MAP_POLICY_SKIP_WAL_PENDING_MAP))))"

definition umclearskipwalpending :: "RelFileLocatorBackend \<Rightarrow> ('x um_smgr_scheme, unit) um" where
  "umclearskipwalpending reln =
     bindU (um_ctx_acquire reln) (\<lambda>c.
     bindU (UmMetadataExists reln) (\<lambda>ex.
       if \<not> ex then returnU ()
       else
         bindU (MapSBlockSetSkipWalPending c (locator reln) False InvalidXLogRecPtr) (\<lambda>_.
         bindU (um_set_cached_map_state reln UMBRA_MAP_POLICY_REQUIRE_MAP) (\<lambda>_.
         umimmedsync reln UMBRA_METADATA_FORKNUM))))"

section \<open>Logical size and resolution of a block\<close>

definition umnblocks_for_access ::
  "RelFileLocatorBackend \<Rightarrow> ForkNumber \<Rightarrow> UmbraAccessState \<Rightarrow> ('x um_smgr_scheme, BlockNumber) um" where
  "umnblocks_for_access reln f access =
     bindU (um_ctx_acquire reln) (\<lambda>c.
       if \<not> map_available access then umfile_nblocks c f UMFILE_NBLOCKS_DENSE
       else
         bindU (MapSBlockTryGetLogicalNblocks c (locator reln) f) (\<lambda>got.
           case got of Some nblocks \<Rightarrow> returnU nblocks | None \<Rightarrow> throwU (ERROR, E_DATA_CORRUPTED)))"

definition umnblocks :: "RelFileLocatorBackend \<Rightarrow> ForkNumber \<Rightarrow> ('x um_smgr_scheme, BlockNumber) um" where
  "umnblocks reln f = bindU (um_classify_access reln f) (\<lambda>access. umnblocks_for_access reln f access)"

definition umnblocks_cached :: "RelFileLocatorBackend \<Rightarrow> ForkNumber \<Rightarrow> ('x um_smgr_scheme, BlockNumber) um" where
  "umnblocks_cached reln f = getU (\<lambda>s. smgr_cached_nblocks s reln f)"

text \<open>The size a caller has looked up before, or the one found now; \<open>Some\<close> of it is the new lookup state.\<close>

definition lookup_nblocks ::
  "RelFileLocatorBackend \<Rightarrow> ForkNumber \<Rightarrow> UmbraAccessState \<Rightarrow> UmbraAccessLookupState \<Rightarrow>
   ('x um_smgr_scheme, BlockNumber) um" where
  "lookup_nblocks reln f access ls =
     (case ls of Some n \<Rightarrow> returnU n | None \<Rightarrow> umnblocks_for_access reln f access)"

definition um_lblk_precedes_logical_eof_for_access ::
  "RelFileLocatorBackend \<Rightarrow> ForkNumber \<Rightarrow> UmbraAccessState \<Rightarrow> UmbraAccessLookupState \<Rightarrow> BlockNumber \<Rightarrow>
   ('x um_smgr_scheme, bool \<times> UmbraAccessLookupState) um" where
  "um_lblk_precedes_logical_eof_for_access reln f access ls lblkno =
     (if \<not> map_available access \<or> \<not> um_fork_uses_map_translation f then returnU (False, ls)
      else bindU (lookup_nblocks reln f access ls) (\<lambda>n. returnU (lblkno < n, Some n)))"

definition um_is_stale_post_truncate_lblk_with_eof :: "ForkNumber \<Rightarrow> BlockNumber \<Rightarrow> BlockNumber \<Rightarrow> bool" where
  "um_is_stale_post_truncate_lblk_with_eof f logical_nblocks lblkno \<longleftrightarrow>
     um_fork_uses_map_translation f \<and> logical_nblocks \<noteq> InvalidBlockNumber \<and> lblkno \<ge> logical_nblocks"

definition um_is_stale_post_truncate_lblk_for_access ::
  "RelFileLocatorBackend \<Rightarrow> ForkNumber \<Rightarrow> UmbraAccessState \<Rightarrow> UmbraAccessLookupState \<Rightarrow> BlockNumber \<Rightarrow>
   ('x um_smgr_scheme, bool \<times> UmbraAccessLookupState) um" where
  "um_is_stale_post_truncate_lblk_for_access reln f access ls lblkno =
     bindU (getU InRecovery) (\<lambda>rec.
       if \<not> map_available access \<or> \<not> um_fork_uses_map_translation f \<or>
          (rec \<and> \<not> UmbraForkIsAuxiliaryMapped f)
       then returnU (False, ls)
       else bindU (lookup_nblocks reln f access ls) (\<lambda>n.
              returnU (um_is_stale_post_truncate_lblk_with_eof f n lblkno, Some n)))"

definition um_is_logical_unmaterialized_for_access ::
  "RelFileLocatorBackend \<Rightarrow> ForkNumber \<Rightarrow> UmbraAccessState \<Rightarrow> BlockNumber \<Rightarrow> ('x um_smgr_scheme, bool) um" where
  "um_is_logical_unmaterialized_for_access reln f access lblkno =
     bindU (um_ctx_acquire reln) (\<lambda>c.
     bindU (um_lblk_precedes_logical_eof_for_access reln f access None lblkno) (\<lambda>(before, _).
       if \<not> before then returnU False
       else bindU (MapTryLookup c (locator reln) f lblkno) (\<lambda>got. returnU (got = None))))"

definition um_reserve_fresh_pblkno_for_access ::
  "'s um_env \<Rightarrow> RelFileLocatorBackend \<Rightarrow> ForkNumber \<Rightarrow> UmbraAccessState \<Rightarrow> BlockNumber \<Rightarrow>
   ('x um_smgr_scheme, BlockNumber) um" where
  "um_reserve_fresh_pblkno_for_access env reln f access lblkno =
     bindU (um_ctx_acquire reln) (\<lambda>c.
       if \<not> map_available access then returnU lblkno
       else
         bindU (MapReserveFreshPblkno (env_gucs env) (env_supported env) c (locator reln) f lblkno) (\<lambda>got.
           case got of Some p \<Rightarrow> returnU p | None \<Rightarrow> throwU (ERROR, E_INTERNAL)))"

definition um_resolve_lblk_for_read ::
  "RelFileLocatorBackend \<Rightarrow> ForkNumber \<Rightarrow> UmbraAccessState \<Rightarrow> UmbraAccessLookupState \<Rightarrow> BlockNumber \<Rightarrow>
   ('x um_smgr_scheme, UmbraAccessResolveResult \<times> UmbraAccessLookupState) um" where
  "um_resolve_lblk_for_read reln f access ls lblkno =
     bindU (lookup_nblocks reln f access ls) (\<lambda>n.
     bindU (getU InRecovery) (\<lambda>rec.
       if rec \<and> UmbraForkIsAuxiliaryMapped f \<and> n \<noteq> InvalidBlockNumber \<and>
          um_is_stale_post_truncate_lblk_with_eof f n lblkno
       then returnU (UMBRA_ACCESS_RESOLVED_ZERO, Some n)
       else if n \<noteq> InvalidBlockNumber \<and> lblkno < n
       then returnU (UMBRA_ACCESS_RESOLVED_ZERO, Some n)
       else um_report_unmapped_map_entry reln f access lblkno))"

definition um_resolve_lblk_for_write ::
  "RelFileLocatorBackend \<Rightarrow> ForkNumber \<Rightarrow> UmbraAccessState \<Rightarrow> UmbraAccessLookupState \<Rightarrow> BlockNumber \<Rightarrow>
   ('x um_smgr_scheme, UmbraAccessResolveResult \<times> UmbraAccessLookupState) um" where
  "um_resolve_lblk_for_write reln f access ls lblkno = um_report_unmapped_map_entry reln f access lblkno"

definition um_resolve_lblk_for_writeback ::
  "RelFileLocatorBackend \<Rightarrow> ForkNumber \<Rightarrow> UmbraAccessState \<Rightarrow> UmbraAccessLookupState \<Rightarrow> BlockNumber \<Rightarrow>
   ('x um_smgr_scheme, UmbraAccessResolveResult \<times> UmbraAccessLookupState) um" where
  "um_resolve_lblk_for_writeback reln f access ls lblkno =
     bindU (um_lblk_precedes_logical_eof_for_access reln f access ls lblkno) (\<lambda>(before, ls).
       if before
       then bindU (MapInflightLookupOwnedPblk (locator reln) f lblkno) (\<lambda>got.
              returnU (case got of Some p \<Rightarrow> (UMBRA_ACCESS_RESOLVED_PBLK p, ls)
                       | None \<Rightarrow> (UMBRA_ACCESS_RESOLVED_SKIP, ls)))
       else
         bindU (um_is_stale_post_truncate_lblk_for_access reln f access ls lblkno) (\<lambda>(stale, ls).
           if stale then returnU (UMBRA_ACCESS_RESOLVED_SKIP, ls)
           else um_report_unmapped_map_entry reln f access lblkno))"

definition um_resolve_lblk_for_access ::
  "RelFileLocatorBackend \<Rightarrow> ForkNumber \<Rightarrow> UmbraAccessState \<Rightarrow> UmbraAccessLookupState \<Rightarrow> BlockNumber \<Rightarrow>
   UmbraAccessResolveMode \<Rightarrow> ('x um_smgr_scheme, UmbraAccessResolveResult \<times> UmbraAccessLookupState) um" where
  "um_resolve_lblk_for_access reln f access ls lblkno mode =
     bindU (um_ctx_acquire reln) (\<lambda>c.
       if \<not> map_available access then returnU (UMBRA_ACCESS_RESOLVED_PBLK lblkno, ls)
       else
         bindU (MapTryLookup c (locator reln) f lblkno) (\<lambda>got.
           case got of
             Some pblkno \<Rightarrow> returnU (UMBRA_ACCESS_RESOLVED_PBLK pblkno, ls)
           | None \<Rightarrow>
               (case mode of
                  UMBRA_ACCESS_RESOLVE_READ \<Rightarrow> um_resolve_lblk_for_read reln f access ls lblkno
                | UMBRA_ACCESS_RESOLVE_WRITE \<Rightarrow> um_resolve_lblk_for_write reln f access ls lblkno
                | UMBRA_ACCESS_RESOLVE_WRITEBACK \<Rightarrow> um_resolve_lblk_for_writeback reln f access ls lblkno)))"

text \<open>The length of the run, its first physical block (meaningful when the length is not 0), and the lookup
  state.\<close>

definition um_resolve_mapped_read_run ::
  "RelFileLocatorBackend \<Rightarrow> ForkNumber \<Rightarrow> UmbraAccessState \<Rightarrow> UmbraAccessLookupState \<Rightarrow> BlockNumber \<Rightarrow>
   BlockNumber \<Rightarrow> ('x um_smgr_scheme, BlockNumber \<times> BlockNumber \<times> UmbraAccessLookupState) um" where
  "um_resolve_mapped_read_run reln f access ls blocknum maxblocks =
     bindU (um_ctx_acquire reln) (\<lambda>c.
     bindU (MapTryLookupPblkRun c (locator reln) f blocknum maxblocks) (\<lambda>(run_blocks, start_pblk).
       if run_blocks > 0 then returnU (run_blocks, start_pblk, ls)
       else
         bindU (um_resolve_lblk_for_access reln f access ls blocknum UMBRA_ACCESS_RESOLVE_READ) (\<lambda>(r, ls).
         returnU (case r of UMBRA_ACCESS_RESOLVED_PBLK pblk \<Rightarrow> (1, pblk, ls) | _ \<Rightarrow> (0, start_pblk, ls)))))"

section \<open>Births\<close>

text \<open>The loop of \<^verbatim>\<open>um_materialize_pblk_zero_runs\<close>: \<open>run_start\<close> and \<open>run_blocks\<close> are the pending run.\<close>

primrec zero_runs ::
  "BlockNumber list \<Rightarrow> BlockNumber \<Rightarrow> nat \<Rightarrow> nat \<Rightarrow> ForkNumber \<Rightarrow> bool \<Rightarrow> ('x um_fs_scheme, unit) um" where
  "zero_runs [] run_start run_blocks c f skipFsync =
     whenU (run_blocks > 0) (umfile_zeroextend c f run_start run_blocks skipFsync)"
| "zero_runs (pblk # pblks) run_start run_blocks c f skipFsync =
     (if run_blocks = 0 then zero_runs pblks pblk 1 c f skipFsync
      else if pblk = run_start + of_nat run_blocks
      then zero_runs pblks run_start (Suc run_blocks) c f skipFsync
      else
        bindU (umfile_zeroextend c f run_start run_blocks skipFsync) (\<lambda>_.
        zero_runs pblks pblk 1 c f skipFsync))"

definition um_materialize_pblk_zero_runs ::
  "nat \<Rightarrow> ForkNumber \<Rightarrow> BlockNumber list \<Rightarrow> bool \<Rightarrow> ('x um_fs_scheme, unit) um" where
  "um_materialize_pblk_zero_runs c f pblknos skipFsync =
     zero_runs pblknos InvalidBlockNumber 0 c f skipFsync"

definition um_pblk_run_is_contiguous :: "BlockNumber list \<Rightarrow> bool" where
  "um_pblk_run_is_contiguous pblknos \<longleftrightarrow>
     list_all (\<lambda>i. pblknos ! i = pblknos ! 0 + of_nat i) [1..<length pblknos]"

text \<open>Whether some block of the range already has a mapping or is being remapped by this backend.\<close>

primrec range_has_owner ::
  "nat \<Rightarrow> nat \<Rightarrow> RelFileLocator \<Rightarrow> ForkNumber \<Rightarrow> BlockNumber \<Rightarrow> ('x map_buf_scheme, bool) um" where
  "range_has_owner 0 c rnode f lblk = returnU False"
| "range_has_owner (Suc n) c rnode f lblk =
     bindU (MapTryLookup c rnode f lblk) (\<lambda>got.
       if got \<noteq> None then returnU True
       else
         bindU (MapInflightLookupOwnedPblk rnode f lblk) (\<lambda>own.
           if own \<noteq> None then returnU True else range_has_owner n c rnode f (lblk + 1)))"

text \<open>Reservation of \<open>n\<close> more blocks; \<open>got\<close> are the ones reserved so far, given up when one is refused.  An
  error leaves them reserved.\<close>

primrec reserve_range ::
  "nat \<Rightarrow> 's um_env \<Rightarrow> nat \<Rightarrow> RelFileLocator \<Rightarrow> ForkNumber \<Rightarrow> BlockNumber \<Rightarrow> BlockNumber list \<Rightarrow>
   ('x map_buf_scheme, BlockNumber list option) um" where
  "reserve_range 0 env c rnode f blocknum got = returnU (Some got)"
| "reserve_range (Suc n) env c rnode f blocknum got =
     bindU (MapReserveFreshPblkno (env_gucs env) (env_supported env) c rnode f
              (blocknum + of_nat (length got))) (\<lambda>r.
       case r of
         None \<Rightarrow> bindU (release_range rnode f blocknum (length got)) (\<lambda>_. returnU None)
       | Some p \<Rightarrow> reserve_range n env c rnode f blocknum (got @ [p]))"

definition UINT16_MAX :: nat where "UINT16_MAX = 65535"

definition range_entries :: "BlockNumber \<Rightarrow> BlockNumber list \<Rightarrow> (BlockNumber \<times> BlockNumber) list" where
  "range_entries blocknum pblknos =
     zip (map (\<lambda>i. blocknum + of_nat i) [0..<length pblknos]) pblknos"

definition log_range ::
  "RelFileLocator \<Rightarrow> ForkNumber \<Rightarrow> BlockNumber \<Rightarrow> BlockNumber list \<Rightarrow> ('x map_wal_scheme, XLogRecPtr) um" where
  "log_range rnode f blocknum chunk =
     (if um_pblk_run_is_contiguous chunk
      then log_umbra_range_remap_compact rnode f blocknum (chunk ! 0) (of_nat (length chunk))
      else log_umbra_range_remap rnode f (range_entries blocknum chunk))"

definition publish_chunk ::
  "'s um_env \<Rightarrow> RelFileLocatorBackend \<Rightarrow> nat \<Rightarrow> ForkNumber \<Rightarrow> bool \<Rightarrow> BlockNumber \<Rightarrow> BlockNumber list \<Rightarrow> bool \<Rightarrow>
   ('x um_smgr_scheme, unit) um" where
  "publish_chunk env reln c f skipFsync blocknum chunk enabled =
     (let apply = (\<lambda>map_lsn.
            bindU (um_materialize_pblk_zero_runs c f chunk skipFsync) (\<lambda>_.
            UmApplyReservedRangeRemap env reln f blocknum chunk map_lsn skipFsync))
      in
      if enabled
      then critU True (delay_chkpt (bindU (log_range (locator reln) f blocknum chunk) apply))
      else apply InvalidXLogRecPtr)"

text \<open>\<open>n\<close> bounds the number of chunks; the number of blocks is enough.\<close>

primrec publish_chunks ::
  "nat \<Rightarrow> 's um_env \<Rightarrow> RelFileLocatorBackend \<Rightarrow> nat \<Rightarrow> ForkNumber \<Rightarrow> bool \<Rightarrow> BlockNumber \<Rightarrow> BlockNumber list \<Rightarrow>
   bool \<Rightarrow> ('x um_smgr_scheme, unit) um" where
  "publish_chunks 0 env reln c f skipFsync blocknum pblknos enabled = returnU ()"
| "publish_chunks (Suc n) env reln c f skipFsync blocknum pblknos enabled =
     (if pblknos = [] then returnU ()
      else
        let chunk = take UINT16_MAX pblknos in
        bindU (publish_chunk env reln c f skipFsync blocknum chunk enabled) (\<lambda>_.
        publish_chunks n env reln c f skipFsync (blocknum + of_nat (length chunk))
          (drop UINT16_MAX pblknos) enabled))"

definition um_try_pure_firstborn_range_remap_zeroextend ::
  "'s um_env \<Rightarrow> RelFileLocatorBackend \<Rightarrow> ForkNumber \<Rightarrow> UmbraAccessState \<Rightarrow> BlockNumber \<Rightarrow> nat \<Rightarrow> bool \<Rightarrow>
   ('x um_smgr_scheme, bool) um" where
  "um_try_pure_firstborn_range_remap_zeroextend env reln f access blocknum nblocks skipFsync =
     bindU (um_ctx_acquire reln) (\<lambda>c.
     bindU (getU InRecovery) (\<lambda>rec.
       if rec \<or> nblocks < 2 then returnU False
       else
         bindU (range_has_owner nblocks c (locator reln) f blocknum) (\<lambda>owned.
           if owned then returnU False
           else
             bindU (reserve_range nblocks env c (locator reln) f blocknum []) (\<lambda>got.
               case got of
                 None \<Rightarrow> returnU False
               | Some pblknos \<Rightarrow>
                   bindU (getU wal_insert_enabled) (\<lambda>enabled.
                   bindU (catchU (publish_chunks nblocks env reln c f skipFsync blocknum pblknos enabled)
                            (release_range (locator reln) f blocknum nblocks)) (\<lambda>_.
                   returnU True))))))"

definition UmWalOwnedFirstbornAvailable ::
  "RelFileLocatorBackend \<Rightarrow> ForkNumber \<Rightarrow> BlockNumber \<Rightarrow> ('x um_smgr_scheme, bool) um" where
  "UmWalOwnedFirstbornAvailable reln f lblkno =
     bindU (um_classify_access reln f) (\<lambda>access.
     getU (\<lambda>s. policy access = UMBRA_MAP_POLICY_REQUIRE_MAP \<and> XLogInsertAllowed s \<and>
       \<not> IsBootstrapProcessingMode s \<and> \<not> IsInitProcessingMode s \<and> um_fork_uses_wal_owned_firstborn f))"

definition um_publish_mapped_birth ::
  "'x um_smgr_scheme um_env \<Rightarrow> RelFileLocatorBackend \<Rightarrow> ForkNumber \<Rightarrow> UmbraAccessState \<Rightarrow> BlockNumber \<Rightarrow> bool \<Rightarrow>
   ('x um_smgr_scheme, UmbraMappedBirthResult) um" where
  "um_publish_mapped_birth env reln f access lblkno allow_wal_owned_firstborn =
     bindU (um_ctx_acquire reln) (\<lambda>c.
     bindU (getU InRecovery) (\<lambda>rec.
       if rec \<and> um_fork_uses_wal_owned_firstborn f then throwU (PANIC, E_INTERNAL)
       else
         bindU (MapGetNewPbkno (env_rounds env) (env_yield env) (env_gucs env) (env_supported env) c
                  (locator reln) f lblkno) (\<lambda>(old_pblkno, pblkno).
         let rnode = locator reln;
             publish = (\<lambda>map_lsn.
               bindU (MapSetMapping c rnode f lblkno pblkno map_lsn) (\<lambda>_.
               MapSBlockBumpNextFreePhysBlock c rnode f (pblkno + 1) map_lsn));
             finish = (\<lambda>_.
               bindU (MapInflightRelease rnode f lblkno) (\<lambda>_.
               returnU \<lparr>birth_pblkno = pblkno, mapping_published = True\<rparr>))
         in
         if rec
         then bindU (getU XLogReplayRecPtr) (\<lambda>map_lsn. bindU (publish map_lsn) finish)
         else
           bindU (getU wal_insert_enabled) (\<lambda>enabled.
           bindU (if allow_wal_owned_firstborn \<and> enabled then UmWalOwnedFirstbornAvailable reln f lblkno
                  else returnU False) (\<lambda>wal_owns_firstborn.
             if wal_owns_firstborn
             then returnU \<lparr>birth_pblkno = pblkno, mapping_published = False\<rparr>
             else if enabled
             then
               bindU (critU True (delay_chkpt (
                        bindU (log_umbra_map_set rnode f lblkno old_pblkno pblkno) publish))) finish
             else bindU (publish InvalidXLogRecPtr) finish)))))"

section \<open>MAP facts for WAL and replay\<close>

definition umphysicalblock ::
  "RelFileLocatorBackend \<Rightarrow> ForkNumber \<Rightarrow> BlockNumber \<Rightarrow> ('x um_smgr_scheme, BlockNumber) um" where
  "umphysicalblock reln f lblkno =
     bindU (um_ctx_acquire reln) (\<lambda>c.
     bindU (um_classify_access reln f) (\<lambda>access.
       if \<not> map_available access then returnU lblkno
       else
         bindU (MapTryLookup c (locator reln) f lblkno) (\<lambda>got.
           case got of Some p \<Rightarrow> returnU p | None \<Rightarrow> um_report_unmapped_map_entry reln f access lblkno)))"

text \<open>The pair of the old and the new physical block.\<close>

definition UmMapGetNewPbkno ::
  "'x um_smgr_scheme um_env \<Rightarrow> RelFileLocatorBackend \<Rightarrow> ForkNumber \<Rightarrow> BlockNumber \<Rightarrow>
   ('x um_smgr_scheme, BlockNumber \<times> BlockNumber) um" where
  "UmMapGetNewPbkno env reln f lblkno =
     bindU (um_ctx_acquire reln) (\<lambda>c.
     bindU (um_classify_access reln f) (\<lambda>access.
       if \<not> map_available access then returnU (lblkno, lblkno)
       else MapGetNewPbkno (env_rounds env) (env_yield env) (env_gucs env) (env_supported env) c
              (locator reln) f lblkno))"

definition UmMapReserveFreshPbkno ::
  "'s um_env \<Rightarrow> RelFileLocatorBackend \<Rightarrow> ForkNumber \<Rightarrow> BlockNumber \<Rightarrow> ('x um_smgr_scheme, BlockNumber) um" where
  "UmMapReserveFreshPbkno env reln f lblkno =
     bindU (um_classify_access reln f) (\<lambda>access.
     um_reserve_fresh_pblkno_for_access env reln f access lblkno)"

definition UmMapAccessAvailable ::
  "RelFileLocatorBackend \<Rightarrow> ForkNumber \<Rightarrow> ('x um_smgr_scheme, bool) um" where
  "UmMapAccessAvailable reln f =
     bindU (um_classify_access reln f) (\<lambda>access. returnU (map_available access))"

definition UmWalOwnedRemapAvailable ::
  "RelFileLocatorBackend \<Rightarrow> ForkNumber \<Rightarrow> ('x um_smgr_scheme, bool) um" where
  "UmWalOwnedRemapAvailable reln f =
     bindU (um_classify_access reln f) (\<lambda>access. returnU (policy access = UMBRA_MAP_POLICY_REQUIRE_MAP))"

definition UmMapTryLookupPblkno ::
  "RelFileLocatorBackend \<Rightarrow> ForkNumber \<Rightarrow> BlockNumber \<Rightarrow> ('x um_smgr_scheme, BlockNumber option) um" where
  "UmMapTryLookupPblkno reln f lblkno =
     bindU (um_ctx_acquire reln) (\<lambda>c.
     bindU (um_classify_access reln f) (\<lambda>access.
       if \<not> map_available access then returnU (Some lblkno)
       else MapTryLookup c (locator reln) f lblkno))"

definition UmMapIsLogicalUnmaterialized ::
  "RelFileLocatorBackend \<Rightarrow> ForkNumber \<Rightarrow> BlockNumber \<Rightarrow> ('x um_smgr_scheme, bool) um" where
  "UmMapIsLogicalUnmaterialized reln f lblkno =
     bindU (um_classify_access reln f) (\<lambda>access.
     um_is_logical_unmaterialized_for_access reln f access lblkno)"

definition UmMapSetMapping ::
  "RelFileLocatorBackend \<Rightarrow> ForkNumber \<Rightarrow> BlockNumber \<Rightarrow> BlockNumber \<Rightarrow> XLogRecPtr \<Rightarrow>
   ('x um_smgr_scheme, unit) um" where
  "UmMapSetMapping reln f lblkno new_pblkno map_lsn =
     bindU (um_ctx_acquire reln) (\<lambda>c.
     bindU (um_classify_access reln f) (\<lambda>access.
       if \<not> map_available access then returnU ()
       else MapSetMapping c (locator reln) f lblkno new_pblkno map_lsn))"

definition UmCheckpointWritePblk ::
  "RelFileLocatorBackend \<Rightarrow> ForkNumber \<Rightarrow> BlockNumber \<Rightarrow> block \<Rightarrow> BlockNumber \<Rightarrow> ('x um_smgr_scheme, unit) um" where
  "UmCheckpointWritePblk reln f lblkno buffer checkpoint_pblk =
     bindU (um_ctx_acquire reln) (\<lambda>c.
       if checkpoint_pblk = InvalidBlockNumber then throwU (ERROR, E_INTERNAL)
       else
         bindU (um_classify_access reln f) (\<lambda>access.
           if \<not> map_available access then throwU (ERROR, E_INTERNAL)
           else
             bindU (umfile_ctx_block_exists c f checkpoint_pblk) (\<lambda>ex.
             bindU (whenU (\<not> ex) (umfile_zeroextend c f checkpoint_pblk 1 True)) (\<lambda>_.
             umfile_writev c f checkpoint_pblk [buffer] False))))"

section \<open>Creating, unlinking and extending forks\<close>

definition umcreate :: "RelFileLocatorBackend \<Rightarrow> ForkNumber \<Rightarrow> bool \<Rightarrow> ('x um_smgr_scheme, unit) um" where
  "umcreate reln f isRedo =
     bindU (um_ctx_acquire reln) (\<lambda>c.
     bindU (umfile_open_or_create c f isRedo) (\<lambda>(ok, created).
       if \<not> ok then throwU (ERROR, E_FILE_ACCESS)
       else if \<not> (created \<and> UmbraForkIsAuxiliaryMapped f) then returnU ()
       else
         bindU (UmMetadataExists reln) (\<lambda>ex.
           if \<not> ex then returnU ()
           else
             bindU (getU (\<lambda>s. if InRecovery s then XLogReplayRecPtr s else XLogWriteRecPtr s)) (\<lambda>map_lsn.
             MapSBlockSetLogicalNblocks c (locator reln) f 0 map_lsn))))"

definition umexists :: "RelFileLocatorBackend \<Rightarrow> ForkNumber \<Rightarrow> ('x um_smgr_scheme, bool) um" where
  "umexists reln f =
     bindU (um_ctx_acquire reln) (\<lambda>c.
       if \<not> um_fork_uses_map_translation f then umfile_exists c f UMFILE_EXISTS_DENSE
       else
         bindU (um_map_policy_for_access reln f) (\<lambda>p.
           if p \<noteq> UMBRA_MAP_POLICY_REQUIRE_MAP then umfile_exists c f UMFILE_EXISTS_DENSE
           else um_mapped_exists_from_super reln f))"

definition umunlink ::
  "'s um_env \<Rightarrow> RelFileLocatorBackend \<Rightarrow> ForkNumber \<Rightarrow> bool \<Rightarrow> ('x um_smgr_scheme, unit) um" where
  "umunlink env rlocator f isRedo =
     (if f = InvalidForkNumber
      then
        bindU (MapInvalidateRelation (locator rlocator)) (\<lambda>_.
        bindU (umfile_unlink rlocator MAIN_FORKNUM isRedo (IsBinaryUpgrade env)) (\<lambda>_.
        bindU (UmMetadataUnlink env rlocator isRedo) (\<lambda>_.
        forU [FSM_FORKNUM, VISIBILITYMAP_FORKNUM, INIT_FORKNUM]
          (\<lambda>other. umfile_unlink rlocator other isRedo (IsBinaryUpgrade env)))))
      else
        bindU (whenU (f = UMBRA_METADATA_FORKNUM) (MapInvalidateRelation (locator rlocator))) (\<lambda>_.
        umfile_unlink rlocator f isRedo (IsBinaryUpgrade env)))"

text \<open>The per-block path of \<^verbatim>\<open>umzeroextend\<close>; the result is the largest physical block used.\<close>

primrec zeroextend_blocks ::
  "nat \<Rightarrow> 'x um_smgr_scheme um_env \<Rightarrow> RelFileLocatorBackend \<Rightarrow> nat \<Rightarrow> ForkNumber \<Rightarrow> UmbraAccessState \<Rightarrow> bool \<Rightarrow>
   BlockNumber \<Rightarrow> BlockNumber \<Rightarrow> BlockNumber \<Rightarrow> nat \<Rightarrow> ('x um_smgr_scheme, BlockNumber) um" where
  "zeroextend_blocks 0 env reln c f access skipFsync lblk max_pblkno run_start run_len =
     bindU (whenU (run_len > 0) (umfile_zeroextend c f run_start run_len skipFsync)) (\<lambda>_.
     returnU max_pblkno)"
| "zeroextend_blocks (Suc n) env reln c f access skipFsync lblk max_pblkno run_start run_len =
     bindU (MapTryLookup c (locator reln) f lblk) (\<lambda>got.
     bindU (case got of Some p \<Rightarrow> returnU p
            | None \<Rightarrow> bindU (um_publish_mapped_birth env reln f access lblk False)
                        (\<lambda>birth. returnU (birth_pblkno birth))) (\<lambda>pblk.
     let max' = (if max_pblkno = InvalidBlockNumber \<or> pblk > max_pblkno then pblk else max_pblkno) in
       if run_len = 0
       then zeroextend_blocks n env reln c f access skipFsync (lblk + 1) max' pblk 1
       else if pblk = run_start + of_nat run_len
       then zeroextend_blocks n env reln c f access skipFsync (lblk + 1) max' run_start (Suc run_len)
       else
         bindU (umfile_zeroextend c f run_start run_len skipFsync) (\<lambda>_.
         zeroextend_blocks n env reln c f access skipFsync (lblk + 1) max' pblk 1)))"

definition umzeroextend ::
  "'x um_smgr_scheme um_env \<Rightarrow> RelFileLocatorBackend \<Rightarrow> ForkNumber \<Rightarrow> BlockNumber \<Rightarrow> int \<Rightarrow> bool \<Rightarrow>
   ('x um_smgr_scheme, unit) um" where
  "umzeroextend env reln f blocknum nblocks skipFsync =
     bindU (um_ctx_acquire reln) (\<lambda>c.
       if nblocks \<le> 0 then returnU ()
       else
         bindU (um_classify_access reln f) (\<lambda>access.
           if \<not> map_available access then umfile_zeroextend c f blocknum (nat nblocks) skipFsync
           else
             bindU (um_try_pure_firstborn_range_remap_zeroextend env reln f access blocknum (nat nblocks)
                      skipFsync) (\<lambda>applied.
               if applied then returnU ()
               else
                 bindU (zeroextend_blocks (nat nblocks) env reln c f access skipFsync blocknum
                          InvalidBlockNumber InvalidBlockNumber 0) (\<lambda>max_pblkno.
                 bindU (whenU (max_pblkno \<noteq> InvalidBlockNumber)
                          (MapSBlockBumpPhysicalNblocks c (locator reln) f (max_pblkno + 1)
                             InvalidXLogRecPtr)) (\<lambda>_.
                 MapSBlockBumpLogicalNblocks c (locator reln) f (blocknum + of_int nblocks)
                   InvalidXLogRecPtr)))))"

text \<open>The number of gap blocks is converted to a 32-bit signed integer: \<open>sint\<close>.\<close>

definition umextend ::
  "'x um_smgr_scheme um_env \<Rightarrow> RelFileLocatorBackend \<Rightarrow> ForkNumber \<Rightarrow> BlockNumber \<Rightarrow> block \<Rightarrow> bool \<Rightarrow>
   ('x um_smgr_scheme, unit) um" where
  "umextend env reln f blocknum buffer skipFsync =
     bindU (um_ctx_acquire reln) (\<lambda>c.
     bindU (um_classify_access reln f) (\<lambda>access.
       if \<not> map_available access then umfile_extend c f blocknum buffer skipFsync
       else
         let rnode = locator reln in
         bindU (umnblocks_for_access reln f access) (\<lambda>logical_nblocks.
         bindU (MapSBlockTryGetPhysicalNblocks c rnode f) (\<lambda>phys.
         bindU (whenU (blocknum > logical_nblocks)
                  (umzeroextend env reln f logical_nblocks (sint (blocknum - logical_nblocks)) skipFsync)) (\<lambda>_.
         bindU (MapTryLookup c rnode f blocknum) (\<lambda>got.
         bindU (case got of Some p \<Rightarrow> returnU (p, False)
                | None \<Rightarrow> bindU (um_publish_mapped_birth env reln f access blocknum True)
                            (\<lambda>birth. returnU (birth_pblkno birth, mapping_published birth)))
           (\<lambda>(pblkno, mapping_committed).
         let materialized_nblocks = (case phys of None \<Rightarrow> 0 | Some n \<Rightarrow> n);
             extends = pblkno \<ge> materialized_nblocks
         in
         bindU (if extends then umfile_extend c f pblkno buffer skipFsync
                else umfile_writev c f pblkno [buffer] skipFsync) (\<lambda>_.
         bindU (whenU mapping_committed
                  (MapSBlockBumpLogicalNblocks c rnode f (blocknum + 1) InvalidXLogRecPtr)) (\<lambda>_.
         whenU (extends \<and> pblkno \<noteq> InvalidBlockNumber)
           (MapSBlockBumpPhysicalNblocks c rnode f (pblkno + 1) InvalidXLogRecPtr))))))))))"

section \<open>Reads\<close>

primrec prefetch_blocks ::
  "nat \<Rightarrow> RelFileLocatorBackend \<Rightarrow> nat \<Rightarrow> ForkNumber \<Rightarrow> UmbraAccessState \<Rightarrow> UmbraAccessLookupState \<Rightarrow> BlockNumber \<Rightarrow>
   ('x um_smgr_scheme, bool) um" where
  "prefetch_blocks 0 reln c f access ls lblk = returnU True"
| "prefetch_blocks (Suc n) reln c f access ls lblk =
     bindU (um_resolve_lblk_for_access reln f access ls lblk UMBRA_ACCESS_RESOLVE_READ) (\<lambda>(r, ls).
       case r of
         UMBRA_ACCESS_RESOLVED_PBLK pblk \<Rightarrow>
           bindU (umfile_prefetch c f pblk 1) (\<lambda>ok.
             if \<not> ok then returnU False else prefetch_blocks n reln c f access ls (lblk + 1))
       | _ \<Rightarrow> prefetch_blocks n reln c f access ls (lblk + 1))"

definition umprefetch ::
  "RelFileLocatorBackend \<Rightarrow> ForkNumber \<Rightarrow> BlockNumber \<Rightarrow> int \<Rightarrow> ('x um_smgr_scheme, bool) um" where
  "umprefetch reln f blocknum nblocks =
     bindU (um_ctx_acquire reln) (\<lambda>c.
     bindU (um_classify_access reln f) (\<lambda>access.
       if \<not> map_available access then umfile_prefetch c f blocknum nblocks
       else prefetch_blocks (nat nblocks) reln c f access None blocknum))"

definition ummaxcombine ::
  "'s um_env \<Rightarrow> RelFileLocatorBackend \<Rightarrow> ForkNumber \<Rightarrow> BlockNumber \<Rightarrow> ('x um_smgr_scheme, u32) um" where
  "ummaxcombine env reln f blocknum =
     bindU (um_classify_access reln f) (\<lambda>access.
     bindU (getU InRecovery) (\<lambda>rec.
       if \<not> map_available access then returnU (of_nat (umfile_maxcombine f blocknum))
       else if rec \<and> UmbraForkIsAuxiliaryMapped f then returnU 1
       else
         bindU (um_resolve_mapped_read_run reln f access None blocknum
                  (min (of_nat (io_max_combine_limit env)) (of_nat (umfile_maxcombine f blocknum))))
           (\<lambda>(run_blocks, _). returnU (max 1 run_blocks))))"

text \<open>The loop of \<^verbatim>\<open>umreadv\<close> over the blocks still to be read; each round fills at least one buffer.\<close>

primrec readv_loop ::
  "nat \<Rightarrow> 's um_env \<Rightarrow> RelFileLocatorBackend \<Rightarrow> nat \<Rightarrow> ForkNumber \<Rightarrow> UmbraAccessState \<Rightarrow> bool \<Rightarrow>
   UmbraAccessLookupState \<Rightarrow> BlockNumber \<Rightarrow> BlockNumber \<Rightarrow> ('x um_smgr_scheme, block list) um" where
  "readv_loop 0 env reln c f access aux_recovery_read ls lblk remaining = returnU []"
| "readv_loop (Suc n) env reln c f access aux_recovery_read ls lblk remaining =
     (if remaining = 0 then returnU []
      else
        bindU (um_resolve_mapped_read_run reln f access ls lblk
                 (if aux_recovery_read then 1 else remaining)) (\<lambda>(run_blocks, pblk, ls).
          if run_blocks = 0
          then
            bindU (readv_loop n env reln c f access aux_recovery_read ls (lblk + 1) (remaining - 1)) (\<lambda>bs.
            returnU (zero_block # bs))
          else
            bindU (whenU aux_recovery_read
                     (um_ensure_datafork_batch_ready_for_access env reln f access pblk True)) (\<lambda>_.
            bindU (umfile_readv c f pblk (unat run_blocks) (zero_damaged_pages env)) (\<lambda>bs.
            bindU (readv_loop n env reln c f access aux_recovery_read ls (lblk + run_blocks)
                     (remaining - run_blocks)) (\<lambda>bs'.
            returnU (bs @ bs'))))))"

definition umreadv ::
  "'s um_env \<Rightarrow> RelFileLocatorBackend \<Rightarrow> ForkNumber \<Rightarrow> BlockNumber \<Rightarrow> BlockNumber \<Rightarrow>
   ('x um_smgr_scheme, block list) um" where
  "umreadv env reln f blocknum nblocks =
     bindU (um_ctx_acquire reln) (\<lambda>c.
     bindU (um_classify_access reln f) (\<lambda>access.
       if \<not> map_available access then umfile_readv c f blocknum (unat nblocks) (zero_damaged_pages env)
       else
         bindU (getU InRecovery) (\<lambda>rec.
         readv_loop (unat nblocks) env reln c f access (rec \<and> UmbraForkIsAuxiliaryMapped f) None
           blocknum nblocks)))"

section \<open>Writes\<close>

text \<open>Each failed attempt to claim the barrier sleeps; after \<open>UMBRA_WRITE_BARRIER_WAIT_RETRIES\<close> of them the
  write gives up.\<close>

primrec claim_barrier_loop ::
  "nat \<Rightarrow> 'x um_smgr_scheme um_env \<Rightarrow> nat \<Rightarrow> RelFileLocator \<Rightarrow> ForkNumber \<Rightarrow> BlockNumber \<Rightarrow> nat \<Rightarrow>
   ('x um_smgr_scheme, MapInflightBarrier) um" where
  "claim_barrier_loop 0 env c rnode f lblkno wait_retries = throwU (ERROR, E_LOCK_NOT_AVAILABLE)"
| "claim_barrier_loop (Suc n) env c rnode f lblkno wait_retries =
     bindU (MapInflightTryClaimBarrier c rnode f lblkno) (\<lambda>got.
       case got of
         Some b \<Rightarrow> returnU b
       | None \<Rightarrow>
           bindU (modifyU (env_yield env wait_retries)) (\<lambda>_.
           claim_barrier_loop n env c rnode f lblkno (Suc wait_retries)))"

definition um_claim_write_barrier ::
  "'x um_smgr_scheme um_env \<Rightarrow> RelFileLocatorBackend \<Rightarrow> ForkNumber \<Rightarrow> nat \<Rightarrow> BlockNumber \<Rightarrow>
   ('x um_smgr_scheme, MapInflightBarrier) um" where
  "um_claim_write_barrier env reln f c lblkno =
     claim_barrier_loop UMBRA_WRITE_BARRIER_WAIT_RETRIES env c (locator reln) f lblkno 0"

definition um_release_write_barriers :: "MapInflightBarrier list \<Rightarrow> ('x map_buf_scheme, unit) um" where
  "um_release_write_barriers barriers = forU barriers (\<lambda>b. MapInflightReleaseBarrier (Some b))"

text \<open>The \<^verbatim>\<open>PG_CATCH\<close> block of \<^verbatim>\<open>umwritev\<close> releases the barriers that are valid when the error is
  raised.  The model attaches it to every call that can raise, with the barriers valid there: the pending one
  and those of the run.\<close>

definition guarded ::
  "MapInflightBarrier option \<Rightarrow> MapInflightBarrier list \<Rightarrow> ('x map_buf_scheme, 'a) um \<Rightarrow> ('x map_buf_scheme, 'a) um" where
  "guarded pending run m =
     catchU m (bindU (MapInflightReleaseBarrier pending) (\<lambda>_. um_release_write_barriers run))"

primrec release_run ::
  "MapInflightBarrier option \<Rightarrow> MapInflightBarrier list \<Rightarrow> ('x map_buf_scheme, unit) um" where
  "release_run pending [] = returnU ()"
| "release_run pending (b # bs) =
     bindU (guarded pending (b # bs) (MapInflightReleaseBarrier (Some b))) (\<lambda>_. release_run pending bs)"

text \<open>A run is the list of its barriers and buffers.\<close>

definition um_flush_write_barrier_run ::
  "nat \<Rightarrow> ForkNumber \<Rightarrow> BlockNumber \<Rightarrow> MapInflightBarrier option \<Rightarrow> (MapInflightBarrier \<times> block) list \<Rightarrow> bool \<Rightarrow>
   ('x map_buf_scheme, unit) um" where
  "um_flush_write_barrier_run c f run_start_pblk pending run skipFsync =
     (if run = [] then returnU ()
      else
        bindU (guarded pending (map fst run) (umfile_writev c f run_start_pblk (map snd run) skipFsync)) (\<lambda>_.
        release_run pending (map fst run)))"

definition can_extend_run :: "BlockNumber \<Rightarrow> nat \<Rightarrow> BlockNumber \<Rightarrow> bool" where
  "can_extend_run run_start_pblk run_blocks pblk \<longleftrightarrow>
     run_blocks > 0 \<and> pblk = run_start_pblk + of_nat run_blocks \<and> run_blocks < PG_IOV_MAX \<and>
     seg_off run_start_pblk + run_blocks < RELSEG_SIZE"

text \<open>The loop of \<^verbatim>\<open>umwritev\<close>: the buffers still to be written, the current run, how many physical blocks
  are materialised and the largest one this call extended to, which is the result.\<close>

primrec writev_loop ::
  "block list \<Rightarrow> 'x um_smgr_scheme um_env \<Rightarrow> RelFileLocatorBackend \<Rightarrow> nat \<Rightarrow> ForkNumber \<Rightarrow> UmbraAccessState \<Rightarrow> bool \<Rightarrow>
   BlockNumber \<Rightarrow> BlockNumber \<Rightarrow> (MapInflightBarrier \<times> block) list \<Rightarrow> BlockNumber \<Rightarrow> BlockNumber \<Rightarrow>
   ('x um_smgr_scheme, BlockNumber) um" where
  "writev_loop [] env reln c f access skipFsync lblk run_start run materialized max_extended =
     bindU (um_flush_write_barrier_run c f run_start None run skipFsync) (\<lambda>_. returnU max_extended)"
| "writev_loop (buffer # buffers) env reln c f access skipFsync lblk run_start run materialized max_extended =
     bindU (guarded None (map fst run) (um_claim_write_barrier env reln f c lblk)) (\<lambda>barrier.
     bindU (guarded (Some barrier) (map fst run)
              (um_resolve_lblk_for_access reln f access None lblk UMBRA_ACCESS_RESOLVE_WRITE)) (\<lambda>(r, _).
       case r of
         UMBRA_ACCESS_RESOLVED_PBLK pblk \<Rightarrow>
           if pblk < materialized
           then
             if run = []
             then writev_loop buffers env reln c f access skipFsync (lblk + 1) pblk [(barrier, buffer)]
                    materialized max_extended
             else if \<not> can_extend_run run_start (length run) pblk
             then
               bindU (um_flush_write_barrier_run c f run_start (Some barrier) run skipFsync) (\<lambda>_.
               writev_loop buffers env reln c f access skipFsync (lblk + 1) pblk [(barrier, buffer)]
                 materialized max_extended)
             else writev_loop buffers env reln c f access skipFsync (lblk + 1) run_start
                    (run @ [(barrier, buffer)]) materialized max_extended
           else
             bindU (um_flush_write_barrier_run c f run_start (Some barrier) run skipFsync) (\<lambda>_.
             bindU (guarded (Some barrier) [] (umfile_extend c f pblk buffer skipFsync)) (\<lambda>_.
             bindU (guarded (Some barrier) [] (MapInflightReleaseBarrier (Some barrier))) (\<lambda>_.
             writev_loop buffers env reln c f access skipFsync (lblk + 1) InvalidBlockNumber []
               (if materialized < pblk + 1 then pblk + 1 else materialized)
               (if max_extended = InvalidBlockNumber \<or> pblk > max_extended then pblk else max_extended))))
       | _ \<Rightarrow> throwU (PANIC, E_INTERNAL)))"

definition umwritev ::
  "'x um_smgr_scheme um_env \<Rightarrow> RelFileLocatorBackend \<Rightarrow> ForkNumber \<Rightarrow> BlockNumber \<Rightarrow> block list \<Rightarrow> bool \<Rightarrow>
   ('x um_smgr_scheme, unit) um" where
  "umwritev env reln f blocknum buffers skipFsync =
     bindU (um_ctx_acquire reln) (\<lambda>c.
     bindU (um_classify_access reln f) (\<lambda>access.
       if \<not> map_available access then umfile_writev c f blocknum buffers skipFsync
       else
         bindU (MapSBlockTryGetPhysicalNblocks c (locator reln) f) (\<lambda>phys.
         bindU (writev_loop buffers env reln c f access skipFsync blocknum InvalidBlockNumber []
                  (case phys of None \<Rightarrow> 0 | Some n \<Rightarrow> n) InvalidBlockNumber) (\<lambda>max_extended.
         bindU (whenU (max_extended \<noteq> InvalidBlockNumber)
                  (MapSBlockBumpPhysicalNblocks c (locator reln) f (max_extended + 1) InvalidXLogRecPtr)) (\<lambda>_.
         whenU (buffers \<noteq> [])
           (bindU (umnblocks_for_access reln f access) (\<lambda>_. returnU ())))))))"

primrec writeback_loop ::
  "nat \<Rightarrow> RelFileLocatorBackend \<Rightarrow> nat \<Rightarrow> ForkNumber \<Rightarrow> UmbraAccessState \<Rightarrow> UmbraAccessLookupState \<Rightarrow> BlockNumber \<Rightarrow>
   BlockNumber \<Rightarrow> BlockNumber \<Rightarrow> ('x um_smgr_scheme, unit) um" where
  "writeback_loop 0 reln c f access ls lblk run_start run_blocks =
     whenU (run_blocks > 0) (umfile_writeback c f run_start run_blocks)"
| "writeback_loop (Suc n) reln c f access ls lblk run_start run_blocks =
     bindU (um_resolve_lblk_for_access reln f access ls lblk UMBRA_ACCESS_RESOLVE_WRITEBACK) (\<lambda>(r, ls).
       case r of
         UMBRA_ACCESS_RESOLVED_PBLK pblk \<Rightarrow>
           if run_blocks = 0 then writeback_loop n reln c f access ls (lblk + 1) pblk 1
           else if pblk = run_start + run_blocks
           then writeback_loop n reln c f access ls (lblk + 1) run_start (run_blocks + 1)
           else
             bindU (umfile_writeback c f run_start run_blocks) (\<lambda>_.
             writeback_loop n reln c f access ls (lblk + 1) pblk 1)
       | UMBRA_ACCESS_RESOLVED_SKIP \<Rightarrow>
           bindU (whenU (run_blocks > 0) (umfile_writeback c f run_start run_blocks)) (\<lambda>_.
           writeback_loop n reln c f access ls (lblk + 1) InvalidBlockNumber 0)
       | UMBRA_ACCESS_RESOLVED_ZERO \<Rightarrow> throwU (PANIC, E_INTERNAL))"

definition umwriteback ::
  "RelFileLocatorBackend \<Rightarrow> ForkNumber \<Rightarrow> BlockNumber \<Rightarrow> BlockNumber \<Rightarrow> ('x um_smgr_scheme, unit) um" where
  "umwriteback reln f blocknum nblocks =
     bindU (um_ctx_acquire reln) (\<lambda>c.
     bindU (um_classify_access reln f) (\<lambda>access.
       if \<not> map_available access then umfile_writeback c f blocknum nblocks
       else writeback_loop (unat nblocks) reln c f access None blocknum InvalidBlockNumber 0))"

section \<open>Truncation and sync\<close>

definition truncates_map :: "ForkNumber \<Rightarrow> UmbraAccessState \<Rightarrow> bool" where
  "truncates_map f access \<longleftrightarrow>
     um_fork_uses_map_translation f \<and>
     (policy access = UMBRA_MAP_POLICY_REQUIRE_MAP \<or> map_available access)"

definition umpretruncate ::
  "RelFileLocatorBackend \<Rightarrow> ForkNumber \<Rightarrow> BlockNumber \<Rightarrow> ('x um_smgr_scheme, unit) um" where
  "umpretruncate reln f nblocks =
     bindU (um_ctx_acquire reln) (\<lambda>c.
     bindU (um_classify_access reln f) (\<lambda>access.
     whenU (truncates_map f access) (MapPreloadTruncatePages c (locator reln) f nblocks)))"

definition umtruncate ::
  "RelFileLocatorBackend \<Rightarrow> ForkNumber \<Rightarrow> BlockNumber \<Rightarrow> BlockNumber \<Rightarrow> ('x um_smgr_scheme, unit) um" where
  "umtruncate reln f old_blocks nblocks =
     bindU (um_ctx_acquire reln) (\<lambda>c.
     bindU (um_classify_access reln f) (\<lambda>access.
       if truncates_map f access
       then
         bindU (getU (\<lambda>s. if InRecovery s then XLogReplayRecPtr s else XLogWriteRecPtr s)) (\<lambda>map_lsn.
         bindU (MapTruncate c (locator reln) f nblocks map_lsn) (\<lambda>_.
         bindU (MapSBlockSetLogicalNblocks c (locator reln) f nblocks map_lsn) (\<lambda>_.
         MapReleasePreloadedTruncatePages (locator reln) f)))
       else umfile_truncate c f old_blocks nblocks))"

definition umregistersync :: "RelFileLocatorBackend \<Rightarrow> ForkNumber \<Rightarrow> ('x um_smgr_scheme, unit) um" where
  "umregistersync reln f = bindU (um_ctx_acquire reln) (\<lambda>c. umfile_registersync c f)"

definition umpreparependingsync :: "RelFileLocatorBackend \<Rightarrow> ('x um_smgr_scheme, bool) um" where
  "umpreparependingsync reln =
     bindU (getU (\<lambda>s. RelFileLocatorSkippingWAL s (locator reln))) (\<lambda>skipping.
     bindU (whenU skipping (UmRebuildMapAndSuperblockForSkipWAL reln)) (\<lambda>_.
     um_relation_requires_durable_sync reln))"

definition umneedsrecoveryfsmvacuum :: "RelFileLocatorBackend \<Rightarrow> bool" where
  "umneedsrecoveryfsmvacuum reln = False"

definition umfd ::
  "RelFileLocatorBackend \<Rightarrow> ForkNumber \<Rightarrow> BlockNumber \<Rightarrow> ('x um_smgr_scheme, nat \<times> u32) um" where
  "umfd reln f blocknum = bindU (um_ctx_acquire reln) (\<lambda>c. umfile_fd c f blocknum)"

text \<open>A file tag names a file of the permanent relation, so its path has the invalid backend number.\<close>

definition um_filetag_path :: "FileTag \<Rightarrow> seg_path" where
  "um_filetag_path ftag =
     (case ftag of (rnode, f, segno) \<Rightarrow> (\<lparr>locator = rnode, backend = -1\<rparr>, f, segno))"

text \<open>0 for success and -1 for failure.\<close>

definition umsyncfiletag :: "FileTag \<Rightarrow> ('x um_smgr_scheme, int) um" where
  "umsyncfiletag ftag =
     bindU (PathNameOpenFile (um_filetag_path ftag) False False) (\<lambda>fd.
     returnU (if fd = None then -1 else 0))"

definition umunlinkfiletag :: "FileTag \<Rightarrow> ('x um_smgr_scheme, int) um" where
  "umunlinkfiletag ftag =
     bindU (path_unlink (um_filetag_path ftag)) (\<lambda>ok. returnU (if ok then 0 else -1))"

definition umfiletagmatches :: "FileTag \<Rightarrow> FileTag \<Rightarrow> bool" where
  "umfiletagmatches ftag candidate =
     (case (ftag, candidate) of ((r, f, segno), (r', f', segno')) \<Rightarrow>
        if f = InvalidForkNumber \<and> segno = unat InvalidBlockNumber \<and> spcOid r = 0 \<and> relNumber r = 0
        then dbOid r = dbOid r'
        else if f = InvalidForkNumber \<and> segno = unat InvalidBlockNumber
        then RelFileLocatorEquals r r'
        else if segno = unat InvalidBlockNumber
        then RelFileLocatorEquals r r' \<and> f = f'
        else RelFileLocatorEquals r r' \<and> f = f' \<and> segno = segno')"

definition umgetmapcompactorrelocations :: "('x um_smgr_scheme, u64) um" where
  "umgetmapcompactorrelocations = MapStatsGetCompactorRelocations"

definition umgetmapreclaimenqueued :: "('x um_smgr_scheme, u64) um" where
  "umgetmapreclaimenqueued = MapStatsGetReclaimEnqueued"

definition umgetmapreclaimprocessed :: "('x um_smgr_scheme, u64) um" where
  "umgetmapreclaimprocessed = MapStatsGetReclaimProcessed"

definition umgetmapreclaimfailed :: "('x um_smgr_scheme, u64) um" where
  "umgetmapreclaimfailed = MapStatsGetReclaimFailed"

end
