(* ===== verification/UmbraRedo.thy ===== *)
theory UmbraRedo
  imports UmbraSmgr
begin

text \<open>
  Replay of the Umbra WAL records, \<^verbatim>\<open>umbra_redo\<close> of
  \<^verbatim>\<open>src/backend/access/transam/umbra_xlog.c\<close>.  A record is a value of \<open>umbra_wal\<close> together with its end
  position; the physical blocks it names are used as they are, so replay never allocates.
\<close>

definition perm_reln :: "RelFileLocator \<Rightarrow> RelFileLocatorBackend" where
  "perm_reln rnode = \<lparr>locator = rnode, backend = -1\<rparr>"

text \<open>\<^verbatim>\<open>smgropen\<close> calls the open callback when the handle is new; on an open handle the callback changes
  nothing.\<close>

definition smgropen :: "RelFileLocator \<Rightarrow> ('x um_smgr_scheme, RelFileLocatorBackend) um" where
  "smgropen rnode = bindU (umopen (perm_reln rnode)) (\<lambda>_. returnU (perm_reln rnode))"

definition redo_map_set ::
  "RelFileLocator \<Rightarrow> ForkNumber \<Rightarrow> BlockNumber \<Rightarrow> BlockNumber \<Rightarrow> BlockNumber \<Rightarrow> XLogRecPtr \<Rightarrow>
   ('x um_smgr_scheme, unit) um" where
  "redo_map_set rnode f lblkno old_pblkno new_pblkno lsn =
     bindU (smgropen rnode) (\<lambda>reln.
     bindU (umfile_ctx_acquire reln) (\<lambda>c.
     bindU (UmMetadataExists reln) (\<lambda>ex.
       if \<not> ex then returnU ()
       else
         bindU (if old_pblkno = InvalidBlockNumber then returnU False
                else
                  bindU (umfile_ctx_get_nblocks c f UMFILE_NBLOCKS_SPARSE) (\<lambda>nblocks.
                    if old_pblkno < nblocks
                    then
                      bindU (umfile_ctx_read c f old_pblkno BLCKSZ) (\<lambda>pagebuf.
                      bindU (umfile_ctx_extend c f new_pblkno pagebuf) (\<lambda>_.
                      bindU (umfile_ctx_register_dirty c f new_pblkno False False) (\<lambda>_.
                      returnU True)))
                    else returnU False)) (\<lambda>copied.
         bindU (MapSetMapping c rnode f lblkno new_pblkno lsn) (\<lambda>_.
         bindU (MapSBlockBumpNextFreePhysBlock c rnode f (new_pblkno + 1) lsn) (\<lambda>_.
         bindU (if old_pblkno \<noteq> InvalidBlockNumber then returnU copied
                else
                  bindU (umfile_ctx_extend c f new_pblkno zero_block) (\<lambda>_.
                  bindU (umfile_ctx_register_dirty c f new_pblkno False False) (\<lambda>_.
                  bindU (MapSBlockBumpLogicalNblocks c rnode f (lblkno + 1) lsn) (\<lambda>_.
                  returnU True)))) (\<lambda>materialized.
         whenU materialized (MapSBlockBumpPhysicalNblocks c rnode f (new_pblkno + 1) lsn))))))))"

definition redo_range_remap ::
  "'s um_env \<Rightarrow> RelFileLocator \<Rightarrow> ForkNumber \<Rightarrow> (BlockNumber \<times> BlockNumber) list \<Rightarrow> XLogRecPtr \<Rightarrow>
   ('x um_smgr_scheme, unit) um" where
  "redo_range_remap env rnode f entries lsn =
     bindU (smgropen rnode) (\<lambda>reln.
     bindU (UmMetadataExists reln) (\<lambda>ex.
       if \<not> ex then returnU ()
       else UmApplyReservedRangeRemap env reln f (fst (entries ! 0)) (map snd entries) lsn True))"

definition redo_range_remap_compact ::
  "'s um_env \<Rightarrow> RelFileLocator \<Rightarrow> ForkNumber \<Rightarrow> BlockNumber \<Rightarrow> BlockNumber \<Rightarrow> 16 word \<Rightarrow> XLogRecPtr \<Rightarrow>
   ('x um_smgr_scheme, unit) um" where
  "redo_range_remap_compact env rnode f first_lblkno first_pblkno count lsn =
     bindU (smgropen rnode) (\<lambda>reln.
     bindU (UmMetadataExists reln) (\<lambda>ex.
       if \<not> ex then returnU ()
       else UmApplyReservedRangeRemap env reln f first_lblkno
              (map (\<lambda>i. first_pblkno + of_nat i) [0..<unat count]) lsn True))"

definition redo_dense_fork ::
  "nat \<Rightarrow> RelFileLocator \<Rightarrow> XLogRecPtr \<Rightarrow> ForkNumber \<times> BlockNumber \<Rightarrow> ('x map_buf_scheme, unit) um" where
  "redo_dense_fork c rnode lsn = (\<lambda>(f, nblocks).
     if \<not> UmbraForkUsesMapTranslation f \<or> nblocks = InvalidBlockNumber then throwU (PANIC, E_INTERNAL)
     else
       bindU (set_mapping_range (map of_nat [0..<unat nblocks]) c rnode f 0 lsn) (\<lambda>_.
       bindU (MapSBlockBumpNextFreePhysBlock c rnode f nblocks lsn) (\<lambda>_.
       bindU (MapSBlockBumpPhysicalNblocks c rnode f nblocks lsn) (\<lambda>_.
       MapSBlockSetLogicalNblocks c rnode f nblocks lsn))))"

definition redo_skip_wal_dense_map ::
  "RelFileLocator \<Rightarrow> (ForkNumber \<times> BlockNumber) list \<Rightarrow> XLogRecPtr \<Rightarrow> ('x um_smgr_scheme, unit) um" where
  "redo_skip_wal_dense_map rnode entries lsn =
     bindU (smgropen rnode) (\<lambda>reln.
     bindU (umfile_ctx_acquire reln) (\<lambda>c.
     bindU (UmMetadataExists reln) (\<lambda>ex.
       if \<not> ex then returnU ()
       else
         bindU (MapInvalidateRelation rnode) (\<lambda>_.
         forU entries (redo_dense_fork c rnode lsn)))))"

definition redo_reclaim_unlink ::
  "RelFileLocator \<Rightarrow> ForkNumber \<Rightarrow> BlockNumber \<Rightarrow> ('x um_smgr_scheme, unit) um" where
  "redo_reclaim_unlink rnode f segno =
     bindU (umunlinkfiletag (rnode, f, unat segno)) (\<lambda>_. returnU ())"

fun umbra_redo :: "'s um_env \<Rightarrow> umbra_wal \<Rightarrow> XLogRecPtr \<Rightarrow> ('x um_smgr_scheme, unit) um" where
  "umbra_redo env (XLOG_UMBRA_MAP_SET rnode f lblkno old_pblkno new_pblkno) lsn =
     redo_map_set rnode f lblkno old_pblkno new_pblkno lsn"
| "umbra_redo env (XLOG_UMBRA_RANGE_REMAP rnode f entries) lsn = redo_range_remap env rnode f entries lsn"
| "umbra_redo env (XLOG_UMBRA_RANGE_REMAP_COMPACT rnode f first_lblkno first_pblkno count) lsn =
     redo_range_remap_compact env rnode f first_lblkno first_pblkno count lsn"
| "umbra_redo env (XLOG_UMBRA_SKIP_WAL_DENSE_MAP rnode entries) lsn = redo_skip_wal_dense_map rnode entries lsn"
| "umbra_redo env (XLOG_UMBRA_RECLAIM_UNLINK rnode f segno) lsn = redo_reclaim_unlink rnode f segno"

end
