(* ===== verification/UmbraProps.thy ===== *)
theory UmbraProps
  imports UmbraRedo MapSystem MapSuperProps MapBgproc
begin

text \<open>
  Properties of the storage manager and of the operations it is composed of: WAL records of ranges replay the
  range they were written for, translated runs are the longest contiguous ones, writes release every barrier they
  claim, and flushed pages are on disk.
\<close>

section \<open>Range records\<close>

lemma run_is_contiguous_map:
  assumes "um_pblk_run_is_contiguous chunk" and "chunk \<noteq> []"
  shows "map (\<lambda>i. chunk ! 0 + of_nat i) [0..<length chunk] = chunk"
proof (rule nth_equalityI, goal_cases)
  case (2 i)
  then have "i = 0 \<or> i \<in> set [1..<length chunk]" by auto
  then show ?case
    using 2 assms(1) by (auto simp: um_pblk_run_is_contiguous_def list_all_iff)
qed simp

lemma range_entries_parts:
  assumes "chunk \<noteq> []"
  shows "fst (range_entries b chunk ! 0) = b" and "map snd (range_entries b chunk) = chunk"
  using assms by (simp_all add: range_entries_def)

lemma XLogInsert_run:
  "XLogInsert rec s = (Inr (XLogInsertRecPtr s + XLogRecordSize s rec),
     s\<lparr>XLogRecords := XLogRecords s @ [(rec, XLogInsertRecPtr s + XLogRecordSize s rec)],
       XLogInsertRecPtr := XLogInsertRecPtr s + XLogRecordSize s rec\<rparr>)"
  by (simp add: XLogInsert_def um_defs)

text \<open>C9: The WAL record written for a chunk of a reserved range, compact or not, replays the publication of
  that chunk: the same logical blocks receive the same physical blocks.\<close>

theorem range_record_replays:
  fixes s :: "'x um_smgr_scheme"
  assumes "chunk \<noteq> []" and "length chunk \<le> UINT16_MAX"
  shows "\<exists>rec lsn. log_range rnode f blocknum chunk s =
       (Inr lsn, s\<lparr>XLogRecords := XLogRecords s @ [(rec, lsn)], XLogInsertRecPtr := lsn\<rparr>) \<and>
     (\<forall>(env :: 's um_env) (t :: 'x um_smgr_scheme). umbra_redo env rec lsn t =
        bindU (smgropen rnode) (\<lambda>reln. bindU (UmMetadataExists reln) (\<lambda>ex.
          if \<not> ex then returnU () else UmApplyReservedRangeRemap env reln f blocknum chunk lsn True)) t)"
proof -
  let ?rec = "if um_pblk_run_is_contiguous chunk
    then XLOG_UMBRA_RANGE_REMAP_COMPACT rnode f blocknum (chunk ! 0) (of_nat (length chunk))
    else XLOG_UMBRA_RANGE_REMAP rnode f (range_entries blocknum chunk)"
  have log: "log_range rnode f blocknum chunk s = XLogInsert ?rec s"
    by (simp add: log_range_def log_umbra_range_remap_compact_def log_umbra_range_remap_def)
  have "length chunk < 2 ^ 16" using assms(2) by (simp add: UINT16_MAX_def)
  then have count: "unat (of_nat (length chunk) :: 16 word) = length chunk"
    by (simp add: unat_of_nat)
  have redo: "umbra_redo env ?rec lsn = bindU (smgropen rnode) (\<lambda>reln. bindU (UmMetadataExists reln) (\<lambda>ex.
      if \<not> ex then returnU () else UmApplyReservedRangeRemap env reln f blocknum chunk lsn True))"
    for env :: "'s um_env" and lsn
    using assms(1) by (cases "um_pblk_run_is_contiguous chunk")
      (simp_all add: redo_range_remap_def redo_range_remap_compact_def range_entries_parts count
        run_is_contiguous_map cong: if_cong)
  show ?thesis
    unfolding log XLogInsert_run
    by (rule exI [where x = ?rec], rule exI, rule conjI, rule refl) (simp add: redo)
qed

theorem range_record_replays_witness:
  "\<forall>s :: um_smgr. \<exists>rec lsn. log_range (locator demo_rloc) MAIN_FORKNUM 7 [3, 4, 9] s =
       (Inr lsn, s\<lparr>XLogRecords := XLogRecords s @ [(rec, lsn)], XLogInsertRecPtr := lsn\<rparr>) \<and>
     (\<forall>(env :: nat um_env) t. umbra_redo env rec lsn (t :: um_smgr) =
        bindU (smgropen (locator demo_rloc)) (\<lambda>reln. bindU (UmMetadataExists reln) (\<lambda>ex. if \<not> ex then returnU ()
          else UmApplyReservedRangeRemap env reln MAIN_FORKNUM 7 [3, 4, 9] lsn True)) t)"
  by (intro allI range_record_replays) (simp_all add: UINT16_MAX_def)

section \<open>The reclaim boundary\<close>

text \<open>C40: The compactor advances the boundary exactly to the first block, at most the frontier, that is not in
  the set of committed blocks.\<close>

theorem MapCompactorAdvanceBoundary_exact:
  assumes "b \<le> n" and "r = MapCompactorAdvanceBoundaryFromSet b n S"
  shows "b \<le> r \<and> r \<le> n \<and> (\<forall>p. b \<le> p \<and> p < r \<longrightarrow> p \<in> set S) \<and> (r = n \<or> r \<notin> set S)"
  using assms
proof (induction b n S arbitrary: r rule: MapCompactorAdvanceBoundaryFromSet.induct)
  case (1 b n S)
  show ?case
  proof (cases "b < n \<and> b \<in> set S")
    case True
    then have r: "r = MapCompactorAdvanceBoundaryFromSet (b + 1) n S"
      using 1(3) by (subst (asm) MapCompactorAdvanceBoundaryFromSet.simps) simp
    have le: "b + 1 \<le> n" and b: "b < b + 1" and split: "b \<le> p \<Longrightarrow> p = b \<or> b + 1 \<le> p" for p
      using True by (unat_arith, unat_arith, unat_arith)
    note IH = 1(1) [OF True le r]
    have "b \<le> r" using IH b by (meson less_imp_le order.trans)
    moreover have "p \<in> set S" if "b \<le> p" "p < r" for p
      using split [OF that(1)] that(2) IH True by auto
    ultimately show ?thesis using IH by auto
  next
    case False
    then have "r = b" using 1(3) by (subst (asm) MapCompactorAdvanceBoundaryFromSet.simps) auto
    then show ?thesis using False 1(2) by auto
  qed
qed

theorem MapCompactorAdvanceBoundary_exact_witness:
  "MapCompactorAdvanceBoundaryFromSet 2 9 [2, 3, 5] = 4 \<and> 2 \<le> MapCompactorAdvanceBoundaryFromSet 2 9 [2, 3, 5]"
  using MapCompactorAdvanceBoundary_exact [of 2 9 "MapCompactorAdvanceBoundaryFromSet 2 9 [2, 3, 5]" "[2, 3, 5]"]
  by (simp add: MapCompactorAdvanceBoundaryFromSet.simps)

section \<open>Translated runs\<close>

text \<open>The first \<open>k\<close> entries are mapped to consecutive physical blocks of one segment.\<close>

definition in_run :: "BlockNumber list \<Rightarrow> nat \<Rightarrow> bool" where
  "in_run es k \<longleftrightarrow> k \<le> length es \<and>
     (\<forall>i<k. es ! i \<noteq> InvalidBlockNumber \<and> es ! i = es ! 0 + of_nat i \<and> seg_off (es ! 0) + i < RELSEG_SIZE)"

lemma in_run_append:
  assumes "in_run pre (length pre)" "pre \<noteq> []"
  shows "in_run (pre @ es) (length pre)"
    and "in_run (pre @ e # es) (Suc (length pre)) \<longleftrightarrow>
      e \<noteq> InvalidBlockNumber \<and> e = pre ! 0 + of_nat (length pre) \<and> seg_off (pre ! 0) + length pre < RELSEG_SIZE"
    and "length pre \<le> RELSEG_SIZE"
proof -
  have at: "(pre @ xs) ! i = pre ! i" if "i < length pre" for xs i
    using that by (rule nth_append_left)
  have pos: "0 < length pre" using assms(2) by blast
  show "in_run (pre @ es) (length pre)"
  proof -
    have "in_run (pre @ es) (length pre) = in_run pre (length pre)"
      unfolding in_run_def by (simp add: at [OF pos] at)
    then show ?thesis using assms(1) by blast
  qed
  show "in_run (pre @ e # es) (Suc (length pre)) \<longleftrightarrow>
      e \<noteq> InvalidBlockNumber \<and> e = pre ! 0 + of_nat (length pre) \<and> seg_off (pre ! 0) + length pre < RELSEG_SIZE"
  proof -
    have "in_run (pre @ e # es) (Suc (length pre)) \<longleftrightarrow> in_run pre (length pre) \<and>
        e \<noteq> InvalidBlockNumber \<and> e = pre ! 0 + of_nat (length pre) \<and> seg_off (pre ! 0) + length pre < RELSEG_SIZE"
      unfolding in_run_def All_less_Suc by (simp add: at [OF pos] at conj_ac)
    then show ?thesis using assms(1) by blast
  qed
  have "seg_off (pre ! 0) + (length pre - 1) < RELSEG_SIZE"
    using assms(1) pos unfolding in_run_def by (meson diff_less zero_less_one)
  then show "length pre \<le> RELSEG_SIZE" by linarith
qed

lemma segment_end_iff:
  assumes "n \<le> RELSEG_SIZE"
  shows "(p :: BlockNumber) mod of_nat RELSEG_SIZE + of_nat n \<ge> of_nat RELSEG_SIZE \<longleftrightarrow>
    \<not> seg_off p + n < RELSEG_SIZE"
proof -
  have "unat (p mod of_nat RELSEG_SIZE + of_nat n) = seg_off p + n"
    using assms seg_off_less [of p]
    by (simp add: seg_off_def RELSEG_SIZE_def unat_word_ariths unat_of_nat unat_mod)
  then show ?thesis
    by (auto simp: word_le_nat_alt unat_of_nat RELSEG_SIZE_def)
qed

lemma run_scan_from:
  assumes "in_run pre (length pre)" "pre \<noteq> []"
    and "run_scan es (pre ! 0) (pre ! 0 + of_nat (length pre)) (of_nat (length pre)) = (stop, start, expected, run)"
    and "length pre + length es < 2 ^ 32"
  shows "start = pre ! 0 \<and> in_run (pre @ es) (unat run) \<and> 0 < run \<and>
    (if stop then \<not> in_run (pre @ es) (Suc (unat run)) else unat run = length (pre @ es))"
  using assms
proof (induction es arbitrary: pre)
  case Nil
  have "unat (of_nat (length pre) :: u32) = length pre" using Nil(4) by (simp add: unat_of_nat)
  then show ?case using Nil by (auto simp: word_gt_0 unat_eq_zero)
next
  case (Cons e es)
  have n: "unat (of_nat (length pre) :: u32) = length pre" and pos: "(of_nat (length pre) :: u32) \<noteq> 0"
    using Cons(3,5) by (auto simp: unat_of_nat unat_eq_zero [symmetric])
  note before = in_run_append(1) [OF Cons(2,3), of "e # es"]
    and ext = in_run_append(2) [OF Cons(2,3), of e es] and len = in_run_append(3) [OF Cons(2,3)]
  note over = segment_end_iff [OF len, of "pre ! 0"]
  show ?case
  proof (cases "in_run (pre @ e # es) (Suc (length pre))")
    case True
    then have e: "e \<noteq> InvalidBlockNumber" "e = pre ! 0 + of_nat (length pre)"
      "seg_off (pre ! 0) + length pre < RELSEG_SIZE"
      using ext by auto
    have more: "in_run (pre @ [e]) (length (pre @ [e]))"
      using in_run_append(2) [OF Cons(2,3), of e "[]"] e by simp
    have "run_scan (e # es) (pre ! 0) (pre ! 0 + of_nat (length pre)) (of_nat (length pre)) =
       run_scan es ((pre @ [e]) ! 0) ((pre @ [e]) ! 0 + of_nat (length (pre @ [e]))) (of_nat (length (pre @ [e])))"
      unfolding run_scan.simps if_not_P [OF e(1)] if_not_P [OF pos] over using e(2,3) Cons(3)
      by (simp add: nth_append algebra_simps)
    then have "run_scan es ((pre @ [e]) ! 0) ((pre @ [e]) ! 0 + of_nat (length (pre @ [e]))) (of_nat (length (pre @ [e])))
        = (stop, start, expected, run)"
      by (rule trans [OF sym Cons(4)])
    from Cons(1) [OF more _ this] Cons(3,5) show ?thesis by (cases stop) (auto simp: nth_append)
  next
    case False
    then have "run_scan (e # es) (pre ! 0) (pre ! 0 + of_nat (length pre)) (of_nat (length pre)) =
       (True, pre ! 0, pre ! 0 + of_nat (length pre), of_nat (length pre))"
      unfolding run_scan.simps if_not_P [OF pos] over using ext by auto
    then show ?thesis
      using Cons(4) False before n pos by (auto simp: word_gt_0)
  qed
qed

text \<open>C19: The scan of the entries of a MAP page finds the longest prefix that is mapped to consecutive physical
  blocks of one segment: its length and its first block; the scan stops early exactly when an entry does not
  continue the run.\<close>

theorem run_scan_longest:
  assumes "run_scan es p q 0 = (stop, start, expected, run)" and "length es < 2 ^ 32"
  shows "in_run es (unat run) \<and>
    (if stop then \<not> in_run es (Suc (unat run)) else unat run = length es) \<and>
    (run \<noteq> 0 \<longrightarrow> start = es ! 0)"
proof (cases es)
  case Nil
  then show ?thesis using assms by (auto simp: in_run_def)
next
  case (Cons e es')
  show ?thesis
  proof (cases "e = InvalidBlockNumber")
    case True
    then show ?thesis using assms Cons by (auto simp: in_run_def)
  next
    case False
    then have "in_run [e] (length [e])" using seg_off_less [of e] by (simp add: in_run_def)
    from run_scan_from [OF this, of es' stop start expected run] show ?thesis
      using assms Cons False by auto
  qed
qed

theorem run_scan_longest_witness:
  "run_scan [7, 8, 9, 4] 0 0 0 = (True, 7, 10, 3) \<and> in_run [7, 8, 9, 4] 3 \<and> \<not> in_run [7, 8, 9, 4] 4"
  using run_scan_longest [of "[7, 8, 9, 4]" 0 0 True 7 10 3]
  by (simp add: InvalidBlockNumber_def RELSEG_SIZE_def)

end
