(* ===== verification/UmbraWrites.thy ===== *)
theory UmbraWrites
  imports UmbraSmgr MapSystem
begin

text \<open>
  The write path of \<^verbatim>\<open>umbra.c\<close>: whatever happens in \<^verbatim>\<open>umwritev\<close>, the write barriers it claims are
  released again.
\<close>

section \<open>Frames of the storage manager's helpers\<close>

lemma pin_same_smgr [simp]:
  "pin_same s (s\<lparr>smgr_private := x\<rparr>)" "pin_same s (s\<lparr>XLogRecords := y\<rparr>)" "pin_same s (s\<lparr>delayChkptStart := d\<rparr>)"
  by (simp_all add: pin_same_def)

lemma leaves_set_private [pin_leaves]: "leaves pin_same (set_private reln st)"
  unfolding set_private_def by (intro pin_rules) simp

lemma leaves_um_state_lookup [pin_leaves]: "leaves pin_same (um_state_lookup reln)"
  unfolding um_state_lookup_def by (intro pin_rules)

lemma leaves_um_state_acquire [pin_leaves]: "leaves pin_same (um_state_acquire reln)"
  unfolding um_state_acquire_def Let_def by (intro pin_rules pin_leaves)

lemma leaves_um_ctx_acquire [pin_leaves]: "leaves pin_same (um_ctx_acquire reln)"
  unfolding um_ctx_acquire_def by (intro pin_rules pin_leaves)

lemma leaves_um_map_state_cached [pin_leaves]: "leaves pin_same (um_map_state_cached reln)"
  unfolding um_map_state_cached_def by (intro pin_rules pin_leaves)

lemma leaves_um_classify_access [pin_leaves]: "leaves pin_same (um_classify_access reln f)"
  unfolding um_classify_access_def um_map_policy_for_access_def by (intro pin_rules pin_leaves)

lemma leaves_umfile_writev [fs_leaves]: "leaves fs_frame (umfile_writev c f b ws sk)"
  unfolding umfile_writev_def by (intro fs_rules fs_leaves) simp

lemmas file_pin = fs_leaves [THEN leaves_fs_sb, THEN leaves_sb_pin]
lemmas super_pin = sb_leaves [THEN leaves_sb_pin]

lemma leaves_um_report [pin_leaves]: "leaves pin_same (um_report_unmapped_map_entry reln f access l)"
  unfolding um_report_unmapped_map_entry_def by (intro pin_rules pin_leaves super_pin)

lemma leaves_umnblocks_for_access [pin_leaves]: "leaves pin_same (umnblocks_for_access reln f access)"
  unfolding umnblocks_for_access_def by (intro pin_rules pin_leaves super_pin file_pin)

lemma leaves_lookup_nblocks [pin_leaves]: "leaves pin_same (lookup_nblocks reln f access ls)"
  unfolding lookup_nblocks_def by (intro pin_rules pin_leaves)

lemma leaves_um_resolve_lblk_for_read [pin_leaves]: "leaves pin_same (um_resolve_lblk_for_read reln f access ls l)"
  unfolding um_resolve_lblk_for_read_def by (intro pin_rules pin_leaves)

lemma leaves_um_resolve_lblk_for_writeback [pin_leaves]:
  "leaves pin_same (um_resolve_lblk_for_writeback reln f access ls l)"
  unfolding um_resolve_lblk_for_writeback_def um_lblk_precedes_logical_eof_for_access_def
    um_is_stale_post_truncate_lblk_for_access_def
  by (intro pin_rules pin_leaves)

lemma bal_um_resolve: "bal F G \<delta> (um_resolve_lblk_for_access reln f access ls l mode) (\<lambda>_. \<delta>)"
proof -
  have miss: "bal F G \<delta> (case mode of
       UMBRA_ACCESS_RESOLVE_READ \<Rightarrow> um_resolve_lblk_for_read reln f access ls l
     | UMBRA_ACCESS_RESOLVE_WRITE \<Rightarrow> um_resolve_lblk_for_write reln f access ls l
     | UMBRA_ACCESS_RESOLVE_WRITEBACK \<Rightarrow> um_resolve_lblk_for_writeback reln f access ls l) (\<lambda>_. \<delta>)"
    by (cases mode) (simp_all add: bal_leaves pin_leaves um_resolve_lblk_for_write_def)
  show ?thesis unfolding um_resolve_lblk_for_access_def
    by (intro bal_skip pin_leaves bal_if bal_return bal_bind [OF bal_MapTryLookup] bal_option miss) simp_all
qed

section \<open>Barriers held by the writing backend\<close>

definition bar_claim :: "MapInflightBarrier \<Rightarrow> nat \<times> nat" where
  "bar_claim b = (bar_slot_id b, bar_entry_idx b)"

definition bar_pins :: "MapInflightBarrier list \<Rightarrow> nat \<Rightarrow> nat" where
  "bar_pins bars i = length (filter (\<lambda>b. bar_slot_id b = i) bars)"

text \<open>\<open>\<Phi> F G\<close> is what is known of the pins \<open>F\<close> and claims \<open>G\<close> of the other backends.  The state is one in which this
  backend holds the barriers \<open>bars\<close>, each with its claim and its pin, and at least the pins \<open>S\<close> besides.\<close>

definition holds ::
  "((nat \<Rightarrow> nat) \<Rightarrow> MapInflightLocalEntry list \<Rightarrow> bool) \<Rightarrow> MapInflightBarrier list \<Rightarrow> (nat \<Rightarrow> nat) \<Rightarrow>
   'x map_buf_scheme \<Rightarrow> bool" where
  "holds \<Phi> bars S s \<longleftrightarrow> (\<exists>F G es. \<Phi> F G \<and> mset (map claim_of es) = mset (map bar_claim bars) \<and>
     spare F (es @ G) (\<lambda>i. S i + bar_pins bars i) s)"

text \<open>What the other backends do while this one sleeps keeps \<open>\<Phi>\<close>, and takes nothing away from this backend.\<close>

definition quiet ::
  "((nat \<Rightarrow> nat) \<Rightarrow> MapInflightLocalEntry list \<Rightarrow> bool) \<Rightarrow> (nat \<Rightarrow> 'x map_buf_scheme \<Rightarrow> 'x map_buf_scheme) \<Rightarrow> bool" where
  "quiet \<Phi> yield \<longleftrightarrow> (\<forall>n F G es S s. \<Phi> F G \<and> spare F (es @ G) S s \<longrightarrow>
     (\<exists>F' G'. \<Phi> F' G' \<and> spare F' (es @ G') S (yield n s)))"

lemma bar_pins_mset: "mset bars = mset bars' \<Longrightarrow> bar_pins bars = bar_pins bars'"
  unfolding bar_pins_def fun_eq_iff by (metis mset_filter size_mset)

lemma bar_pins_simps [simp]:
  "bar_pins [] i = 0" "bar_pins (b # bars) i = (if bar_slot_id b = i then 1 else 0) + bar_pins bars i"
  "bar_pins (bars @ bars') i = bar_pins bars i + bar_pins bars' i"
  by (simp_all add: bar_pins_def)

lemma holds_mset: "mset bars = mset bars' \<Longrightarrow> holds \<Phi> bars S s \<Longrightarrow> holds \<Phi> bars' S s"
  unfolding holds_def using bar_pins_mset [of bars bars'] by simp

lemma holds_none: "\<Phi> F G \<Longrightarrow> spare F G S s \<Longrightarrow> holds \<Phi> [] S s"
  unfolding holds_def by (rule exI [of _ F], rule exI [of _ G], rule exI [of _ "[]"]) simp

lemma holds_noneD: "holds \<Phi> [] S s \<Longrightarrow> \<exists>F G. \<Phi> F G \<and> spare F G S s"
  unfolding holds_def by auto

lemma holds_claim:
  assumes "holds \<Phi> bars S s"
  shows "wpU (MapInflightTryClaimBarrier c r f l) (\<lambda>x t. case x of
      Inr (Some bar) \<Rightarrow> holds \<Phi> (bar # bars) S t | _ \<Rightarrow> holds \<Phi> bars S t) s"
proof -
  obtain F G es where p: "\<Phi> F G" "mset (map claim_of es) = mset (map bar_claim bars)"
    "spare F (es @ G) (\<lambda>i. S i + bar_pins bars i) s"
    using assms by (auto simp: holds_def)
  have keep: "holds \<Phi> bars S t" if "spare F (es @ G) (\<lambda>i. S i + bar_pins bars i) t" for t :: "'a map_buf_scheme"
    using p(1,2) that by (auto simp: holds_def)
  have more: "holds \<Phi> (bar # bars) S t"
    if t: "spare F (barrier_entry r f l bar # es @ G) (add_pin (bar_slot_id bar) (\<lambda>i. S i + bar_pins bars i)) t"
    for bar and t :: "'a map_buf_scheme"
  proof -
    have "add_pin (bar_slot_id bar) (\<lambda>i. S i + bar_pins bars i) = (\<lambda>i. S i + bar_pins (bar # bars) i)"
      by (auto simp: add_pin_def fun_eq_iff)
    then have "spare F ((barrier_entry r f l bar # es) @ G) (\<lambda>i. S i + bar_pins (bar # bars) i) t"
      using t by simp
    moreover have "mset (map claim_of (barrier_entry r f l bar # es)) = mset (map bar_claim (bar # bars))"
      using p(2) by (simp add: barrier_entry_def claim_of_def bar_claim_def)
    ultimately show ?thesis using p(1) unfolding holds_def by blast
  qed
  show ?thesis
    by (rule wpU_mono [OF MapInflightTryClaimBarrier_wp [OF p(3)]]) (auto split: sum.splits option.splits intro: keep more)
qed

lemma holds_release:
  assumes "holds \<Phi> (bar # bars) S s"
  shows "wpU (MapInflightReleaseBarrier (Some bar)) (\<lambda>x t. x = Inr () \<and> holds \<Phi> bars S t) s"
proof -
  obtain F G es where p: "\<Phi> F G" "mset (map claim_of es) = mset (map bar_claim (bar # bars))"
    "spare F (es @ G) (\<lambda>i. S i + bar_pins (bar # bars) i) s"
    using assms by (auto simp: holds_def)
  have "bar_claim bar \<in> set (map claim_of es)"
    using mset_eq_setD [OF p(2)] by simp
  then obtain e where e: "e \<in> set es" "claim_of e = bar_claim bar" by auto
  let ?es = "remove1 e es"
  have es: "mset es = mset (e # ?es)" using e(1) by simp
  have slot: "inf_slot_id e = bar_slot_id bar" using e(2) by (simp add: claim_of_def bar_claim_def)
  have "mset (map claim_of es) = mset (map claim_of (e # ?es))"
    unfolding mset_map es ..
  then have rest: "mset (map claim_of ?es) = mset (map bar_claim bars)"
    using p(2) e(2) by simp
  have "(\<lambda>i. S i + bar_pins (bar # bars) i) = add_pin (inf_slot_id e) (\<lambda>i. S i + bar_pins bars i)"
    by (auto simp: add_pin_def slot fun_eq_iff)
  moreover have "mset (es @ G) = mset (e # ?es @ G)" using e(1) by simp
  ultimately have "spare F (e # ?es @ G) (add_pin (inf_slot_id e) (\<lambda>i. S i + bar_pins bars i)) s"
    using p(3) spare_mset by metis
  from MapInflightReleaseBarrier_wp [OF this, of bar] e(2)
  have "wpU (MapInflightReleaseBarrier (Some bar))
      (\<lambda>x t. x = Inr () \<and> spare F (?es @ G) (\<lambda>i. S i + bar_pins bars i) t) s"
    by (simp add: bar_claim_def)
  then show ?thesis
    by (rule wpU_mono) (unfold holds_def, use p(1) rest in blast)
qed

lemma holds_bal:
  assumes "\<And>F G \<delta>. bal F G \<delta> m (\<lambda>_. \<delta>)" and "holds \<Phi> bars S s"
  shows "wpU m (\<lambda>_ t. holds \<Phi> bars S t) s"
proof -
  obtain F G es where p: "\<Phi> F G" "mset (map claim_of es) = mset (map bar_claim bars)"
    "spare F (es @ G) (\<lambda>i. S i + bar_pins bars i) s"
    using assms(2) by (auto simp: holds_def)
  have "wpU m (\<lambda>_ t. spare F (es @ G) (\<lambda>i. S i + bar_pins bars i) t) s"
    by (rule wpU_mono [OF balD [OF assms(1) [where \<delta> = "\<lambda>_. 0"]]]) (use p(3) in \<open>auto simp: after_def split: sum.splits\<close>)
  then show ?thesis
    by (rule wpU_mono) (use p(1,2) in \<open>auto simp: holds_def\<close>)
qed

lemma holds_yield: "quiet \<Phi> yield \<Longrightarrow> holds \<Phi> bars S s \<Longrightarrow> holds \<Phi> bars S (yield n s)"
  unfolding quiet_def holds_def by blast

section \<open>The write loop\<close>

lemma release_barriers_wp:
  assumes "holds \<Phi> (bars @ rest) S s"
  shows "wpU (um_release_write_barriers bars) (\<lambda>x t. x = Inr () \<and> holds \<Phi> rest S t) s"
  using assms unfolding um_release_write_barriers_def
proof (induction bars arbitrary: s)
  case (Cons b bars)
  have "wpU (MapInflightReleaseBarrier (Some b)) (\<lambda>x t. x = Inr () \<and> holds \<Phi> (bars @ rest) S t) s"
    using holds_release Cons(2) by simp
  then show ?case unfolding forU.simps
    by (rule wpU_bindI) (auto intro: Cons(1))
qed (simp add: wp)

text \<open>The error path of \<^verbatim>\<open>umwritev\<close>.\<close>

definition opt_list :: "'a option \<Rightarrow> 'a list" where
  "opt_list x = (case x of None \<Rightarrow> [] | Some y \<Rightarrow> [y])"

lemma release_all_wp:
  assumes "holds \<Phi> (opt_list pending @ run) S s"
  shows "wpU (bindU (MapInflightReleaseBarrier pending) (\<lambda>_. um_release_write_barriers run))
    (\<lambda>x t. x = Inr () \<and> holds \<Phi> [] S t) s"
proof (cases pending)
  case None
  then show ?thesis
    using release_barriers_wp [of \<Phi> run "[]" S s] assms by (simp add: opt_list_def MapInflightReleaseBarrier_def)
next
  case (Some b)
  have "wpU (MapInflightReleaseBarrier (Some b)) (\<lambda>x t. x = Inr () \<and> holds \<Phi> run S t) s"
    using holds_release assms Some by (simp add: opt_list_def)
  then show ?thesis unfolding Some
    by (rule wpU_bindI) (use release_barriers_wp [of \<Phi> run "[]" S] in auto)
qed

lemma guarded_wp:
  assumes "wpU m (\<lambda>x t. case x of Inl e \<Rightarrow> holds \<Phi> (opt_list pending @ run) S t | Inr y \<Rightarrow> Q y t) s"
  shows "wpU (guarded pending run m) (\<lambda>x t. case x of Inl e \<Rightarrow> holds \<Phi> [] S t | Inr y \<Rightarrow> Q y t) s"
proof (rule wpU_I)
  fix x t
  assume run: "guarded pending run m s = (x, t)"
  obtain x1 t1 where m: "m s = (x1, t1)" by fastforce
  note a = wpU_runD [OF assms m]
  show "case x of Inl e \<Rightarrow> holds \<Phi> [] S t | Inr y \<Rightarrow> Q y t"
  proof (cases x1)
    case (Inl e)
    obtain x2 t2 where h: "bindU (MapInflightReleaseBarrier pending) (\<lambda>_. um_release_write_barriers run) t1 = (x2, t2)"
      by fastforce
    have "x2 = Inr () \<and> holds \<Phi> [] S t2"
      using wpU_runD [OF release_all_wp h] a Inl by simp
    then show ?thesis using run m h Inl by (auto simp: guarded_def catchU_def)
  next
    case (Inr y)
    then show ?thesis using run m a by (auto simp: guarded_def catchU_def)
  qed
qed

lemma guarded_bal:
  assumes "\<And>F G \<delta>. bal F G \<delta> m (\<lambda>_. \<delta>)" and "holds \<Phi> (opt_list pending @ run) S s"
  shows "wpU (guarded pending run m) (\<lambda>x t. case x of Inl e \<Rightarrow> holds \<Phi> [] S t
    | Inr y \<Rightarrow> holds \<Phi> (opt_list pending @ run) S t) s"
  by (rule guarded_wp, rule wpU_mono [OF holds_bal [OF assms]]) (simp split: sum.splits)

lemma release_run_wp:
  assumes "holds \<Phi> (opt_list pending @ run) S s"
  shows "wpU (release_run pending run) (\<lambda>x t. x = Inr () \<and> holds \<Phi> (opt_list pending) S t) s"
  using assms
proof (induction run arbitrary: s)
  case (Cons b run)
  have "holds \<Phi> (b # opt_list pending @ run) S s"
    by (rule holds_mset [OF _ Cons(2)]) simp
  from holds_release [OF this]
  have rel: "wpU (MapInflightReleaseBarrier (Some b)) (\<lambda>x t. x = Inr () \<and> holds \<Phi> (opt_list pending @ run) S t) s" .
  obtain x t where run: "MapInflightReleaseBarrier (Some b) s = (x, t)" by fastforce
  then have t: "x = Inr ()" "holds \<Phi> (opt_list pending @ run) S t" using wpU_runD [OF rel run] by auto
  have "guarded pending (b # run) (MapInflightReleaseBarrier (Some b)) s = (Inr (), t)"
    using run t(1) by (simp add: guarded_def catchU_def)
  then show ?case
    using Cons(1) [OF t(2)] by (simp add: wpU_def bindU_def)
qed (simp add: wp)

lemma flush_run_wp:
  assumes "holds \<Phi> (opt_list pending @ map fst run) S s"
  shows "wpU (um_flush_write_barrier_run c f b pending run skip) (\<lambda>x t. case x of
      Inl e \<Rightarrow> holds \<Phi> [] S t | Inr _ \<Rightarrow> holds \<Phi> (opt_list pending) S t) s"
proof (cases "run = []")
  case True
  then show ?thesis using assms by (simp add: um_flush_write_barrier_run_def wp)
next
  case False
  have put: "wpU (guarded pending (map fst run) (umfile_writev c f b (map snd run) skip)) (\<lambda>x t. case x of
      Inl e \<Rightarrow> holds \<Phi> [] S t | Inr y \<Rightarrow> holds \<Phi> (opt_list pending @ map fst run) S t) s"
    by (rule guarded_bal [OF bal_leaves assms]) (intro file_pin)
  show ?thesis unfolding um_flush_write_barrier_run_def if_not_P [OF False]
    by (rule wpU_bindI [OF put], simp, rule wpU_mono [OF release_run_wp]) auto
qed

lemma claim_barrier_wp:
  assumes "quiet \<Phi> (env_yield env)" and "holds \<Phi> bars S s"
  shows "wpU (claim_barrier_loop n env c r f l k) (\<lambda>x t. case x of
      Inl e \<Rightarrow> holds \<Phi> bars S t | Inr bar \<Rightarrow> holds \<Phi> (bar # bars) S t) s"
  using assms(2)
proof (induction n arbitrary: s k)
  case (Suc n)
  show ?case unfolding claim_barrier_loop.simps
  proof (rule wpU_bindI [OF holds_claim [OF Suc(2)]], goal_cases)
    case (2 got t)
    then show ?case
      by (cases got) (auto simp: wp intro: Suc(1) holds_yield [OF assms(1)])
  qed auto
qed (simp add: wp)

lemma opt_list_simps [simp]: "opt_list None = []" "opt_list (Some b) = [b]"
  by (simp_all add: opt_list_def)

lemma holds_append1: "holds \<Phi> (bar # map fst run) S t \<Longrightarrow> holds \<Phi> (map fst (run @ [(bar, w)])) S t"
  by (erule holds_mset [rotated]) simp

lemma wpU_ifI: "(b \<Longrightarrow> wpU m Q s) \<Longrightarrow> (\<not> b \<Longrightarrow> wpU n Q s) \<Longrightarrow> wpU (if b then m else n) Q s"
  by simp

lemma um_report_raises: "wpU (um_report_unmapped_map_entry reln f access l) (\<lambda>x t. \<exists>e. x = Inl e) s"
proof -
  have get: "wpU (MapSBlockTryGetLogicalNblocks c r f) (\<lambda>_ _. True) t" for c r and t :: "'a um_smgr_scheme"
    by (simp add: wpU_def split: prod.splits)
  have ctx: "wpU (um_ctx_acquire reln) (\<lambda>_ _. True) s" by (simp add: wpU_def split: prod.splits)
  show ?thesis unfolding um_report_unmapped_map_entry_def
    by (rule wpU_bindI [OF ctx], simp, rule wpU_bindI [OF get]) (auto simp: wp)
qed

lemma resolve_write_pblk:
  "wpU (um_resolve_lblk_for_access reln f access ls l UMBRA_ACCESS_RESOLVE_WRITE)
     (\<lambda>x t. \<forall>y. x = Inr y \<longrightarrow> (\<exists>p. fst y = UMBRA_ACCESS_RESOLVED_PBLK p)) s"
proof -
  have look: "wpU (MapTryLookup c r f l) (\<lambda>_ _. True) t" for c r and t :: "'a um_smgr_scheme"
    by (simp add: wpU_def split: prod.splits)
  have ctx: "wpU (um_ctx_acquire reln) (\<lambda>_ _. True) s" by (simp add: wpU_def split: prod.splits)
  show ?thesis unfolding um_resolve_lblk_for_access_def
    by (rule wpU_bindI [OF ctx], simp, rule wpU_ifI, simp add: wp, rule wpU_bindI [OF look])
      (auto simp: wp um_resolve_lblk_for_write_def intro!: wpU_mono [OF um_report_raises] split: option.splits)
qed

lemma writev_loop_wp:
  fixes s :: "'x um_smgr_scheme"
  assumes q: "quiet \<Phi> (env_yield env)" and "holds \<Phi> (map fst run) S s"
  shows "wpU (writev_loop ws env reln c f access skip l st run mat mx) (\<lambda>_ t. holds \<Phi> [] S t) s"
  using assms(2)
proof (induction ws arbitrary: s l st run mat mx)
  case Nil
  show ?case unfolding writev_loop.simps
    by (rule wpU_bindI [OF flush_run_wp [of \<Phi> None]]) (use Nil in \<open>auto simp: wp\<close>)
next
  case (Cons w ws)
  have flush: "wpU (bindU (um_flush_write_barrier_run c f st (Some bar) run skip) (\<lambda>_. k)) (\<lambda>_ u. holds \<Phi> [] S u) t"
    if t: "holds \<Phi> (bar # map fst run) S t" and k: "\<And>u. holds \<Phi> [bar] S u \<Longrightarrow> wpU k (\<lambda>_ u. holds \<Phi> [] S u) u"
    for bar k and t :: "'x um_smgr_scheme"
    by (rule wpU_bindI [OF flush_run_wp [of \<Phi> "Some bar"]]) (use t k in auto)
  have fresh: "wpU (bindU (guarded (Some bar) [] (umfile_extend c f p w skip)) (\<lambda>_.
      bindU (guarded (Some bar) [] (MapInflightReleaseBarrier (Some bar))) (\<lambda>_.
        writev_loop ws env reln c f access skip (l + 1) InvalidBlockNumber [] mat' mx'))) (\<lambda>_ u. holds \<Phi> [] S u) t"
    if t: "holds \<Phi> [bar] S t" for bar p mat' mx' and t :: "'x um_smgr_scheme"
  proof -
    have put: "wpU (guarded (Some bar) [] (umfile_extend c f p w skip)) (\<lambda>x u. case x of Inl e \<Rightarrow> holds \<Phi> [] S u
        | Inr y \<Rightarrow> holds \<Phi> (opt_list (Some bar) @ []) S u) t"
      by (rule guarded_bal [OF bal_leaves], intro file_pin) (simp add: t)
    have rel: "wpU (guarded (Some bar) [] (MapInflightReleaseBarrier (Some bar))) (\<lambda>x t. case x of
        Inl e \<Rightarrow> holds \<Phi> [] S t | Inr y \<Rightarrow> holds \<Phi> [] S t) u" if "holds \<Phi> [bar] S u" for u :: "'x um_smgr_scheme"
      by (rule guarded_wp, rule wpU_mono [OF holds_release [OF that]]) auto
    show ?thesis
      by (rule wpU_bindI [OF put], simp, rule wpU_bindI [OF rel]) (auto intro: Cons(1))
  qed
  have place: "wpU (if p < mat
        then if run = [] then writev_loop ws env reln c f access skip (l + 1) p [(bar, w)] mat mx
          else if \<not> can_extend_run st (length run) p
          then bindU (um_flush_write_barrier_run c f st (Some bar) run skip) (\<lambda>_.
               writev_loop ws env reln c f access skip (l + 1) p [(bar, w)] mat mx)
          else writev_loop ws env reln c f access skip (l + 1) st (run @ [(bar, w)]) mat mx
        else bindU (um_flush_write_barrier_run c f st (Some bar) run skip) (\<lambda>_.
             bindU (guarded (Some bar) [] (umfile_extend c f p w skip)) (\<lambda>_.
             bindU (guarded (Some bar) [] (MapInflightReleaseBarrier (Some bar))) (\<lambda>_.
             writev_loop ws env reln c f access skip (l + 1) InvalidBlockNumber []
               (if mat < p + 1 then p + 1 else mat) (if mx = InvalidBlockNumber \<or> p > mx then p else mx)))))
      (\<lambda>_ u. holds \<Phi> [] S u) t"
    if t: "holds \<Phi> (bar # map fst run) S t" for bar p and t :: "'x um_smgr_scheme"
  proof (intro wpU_ifI, goal_cases)
    case 1
    then show ?case using Cons(1) [of "[(bar, w)]"] t by simp
  next
    case 2
    then show ?case using flush [OF t Cons(1) [of "[(bar, w)]"]] by simp
  next
    case 3
    show ?case by (rule Cons(1) [OF holds_append1 [OF t]])
  next
    case 4
    show ?case by (rule flush [OF t fresh])
  qed
  have claim: "wpU (guarded None (map fst run) (um_claim_write_barrier env reln f c l)) (\<lambda>x t. case x of
      Inl e \<Rightarrow> holds \<Phi> [] S t | Inr bar \<Rightarrow> holds \<Phi> (bar # map fst run) S t) s"
    by (rule guarded_wp)
      (unfold opt_list_simps append_Nil um_claim_write_barrier_def, rule claim_barrier_wp [OF q Cons(2)])
  have resolve: "wpU (guarded (Some bar) (map fst run)
        (um_resolve_lblk_for_access reln f access None l UMBRA_ACCESS_RESOLVE_WRITE)) (\<lambda>x t. case x of
      Inl e \<Rightarrow> holds \<Phi> [] S t
    | Inr y \<Rightarrow> holds \<Phi> (bar # map fst run) S t \<and> (\<exists>p. fst y = UMBRA_ACCESS_RESOLVED_PBLK p)) t"
    if t: "holds \<Phi> (bar # map fst run) S t" for bar and t :: "'x um_smgr_scheme"
    by (rule guarded_wp, rule wpU_mono [OF wpU_conj [OF holds_bal [OF bal_um_resolve t] resolve_write_pblk]])
      (auto split: sum.splits)
  show ?case unfolding writev_loop.simps
  proof (rule wpU_bindI [OF claim], goal_cases)
    case (2 bar t)
    then have "holds \<Phi> (bar # map fst run) S t" by simp
    from resolve [OF this] show ?case
    proof (rule wpU_bindI, goal_cases)
      case (2 x u)
      then show ?case by (cases x) (auto simp: place)
    qed auto
  qed auto
qed

text \<open>A computation that, entered without a barrier, ends without one.\<close>

definition keeps ::
  "((nat \<Rightarrow> nat) \<Rightarrow> MapInflightLocalEntry list \<Rightarrow> bool) \<Rightarrow> (nat \<Rightarrow> nat) \<Rightarrow> ('x map_buf_scheme, 'a) um \<Rightarrow> bool" where
  "keeps \<Phi> S m \<longleftrightarrow> (\<forall>s. holds \<Phi> [] S s \<longrightarrow> wpU m (\<lambda>_ t. holds \<Phi> [] S t) s)"

lemma keeps_leaves: "leaves pin_same m \<Longrightarrow> keeps \<Phi> S m"
  unfolding keeps_def by (blast intro: holds_bal bal_leaves)

lemma keeps_bind: "keeps \<Phi> S m \<Longrightarrow> (\<And>x. keeps \<Phi> S (k x)) \<Longrightarrow> keeps \<Phi> S (bindU m k)"
  unfolding keeps_def by (blast intro: wpU_bindI)

lemma keeps_if: "keeps \<Phi> S m \<Longrightarrow> keeps \<Phi> S n \<Longrightarrow> keeps \<Phi> S (if b then m else n)"
  by simp

lemma keeps_umwritev:
  assumes "quiet \<Phi> (env_yield env)"
  shows "keeps \<Phi> S (umwritev env reln f b ws skip)"
proof -
  have loop: "keeps \<Phi> S (writev_loop ws env reln c f access skip b st [] mat mx)" for c access st mat mx
    using writev_loop_wp [OF assms, of "[]" S] by (simp add: keeps_def)
  show ?thesis unfolding umwritev_def
    by (intro keeps_bind keeps_if loop keeps_leaves pin_rules pin_leaves file_pin)
qed

text \<open>C3: A write leaves no write barrier behind, whether it succeeds, fails or gives up waiting: if the other
  backends keep to what is known of their pins and claims while the writer sleeps, then afterwards the pending
  bits are exactly the claims of the other backends and the in-flight remaps of this one, the reference counts
  are exact, and no pin the backend had is lost.\<close>

theorem umwritev_releases_barriers:
  fixes s :: "'x um_smgr_scheme"
  assumes "quiet \<Phi> (env_yield env)" and "\<Phi> F G" and "pin_inv F G s"
  shows "wpU (umwritev env reln f blocknum buffers skipFsync) (\<lambda>x t.
    (\<exists>F' G'. \<Phi> F' G' \<and> pin_inv F' G' t) \<and> (\<forall>i. slack s i \<le> slack t i)) s"
proof -
  have "spare F G (slack s) s" by (simp add: spare_def assms(3))
  then have start: "holds \<Phi> [] (slack s) s" using assms(2) holds_none by blast
  have "wpU (umwritev env reln f blocknum buffers skipFsync) (\<lambda>_ t. holds \<Phi> [] (slack s) t) s"
    using keeps_umwritev [OF assms(1)] start unfolding keeps_def by blast
  then show ?thesis
    by (rule wpU_mono) (use holds_noneD in \<open>fastforce simp: spare_def\<close>)
qed

section \<open>A concrete state\<close>

definition demo_smgr :: um_smgr where
  "demo_smgr = run_as MapBackendInit (snd (MapShmemInit 1 0 (map_buf.extend demo_buf
     (map_wal_ext [] 64 (\<lambda>_. 8) False 0 0 (um_smgr_ext
        [demo_rloc \<mapsto> \<lparr>file_ctx = Some 0, map_state = UMBRA_MAP_POLICY_REQUIRE_MAP\<rparr>]
        (\<lambda>_ _. 0) (\<lambda>_. False) True False False ())))))"

definition demo_env :: "um_smgr um_env" where
  "demo_env = \<lparr>env_rounds = 1, env_yield = (\<lambda>_ s. s),
     env_gucs = \<lparr>map_prealloc_main_low = 64, map_prealloc_main_hard = 32, map_prealloc_main_batch = 128,
       map_prealloc_fsm_low = 4, map_prealloc_fsm_hard = 2, map_prealloc_fsm_batch = 8,
       map_prealloc_vm_low = 4, map_prealloc_vm_hard = 2, map_prealloc_vm_batch = 8\<rparr>,
     env_supported = True, zero_damaged_pages = False, IsBinaryUpgrade = False, io_max_combine_limit = 16\<rparr>"

lemma demo_smgr_inv: "pin_inv (\<lambda>_. 0) [] demo_smgr"
proof -
  let ?s0 = "map_buf.extend demo_buf (map_wal_ext [] 64 (\<lambda>_. 8) False 0 0 (um_smgr_ext
        [demo_rloc \<mapsto> \<lparr>file_ctx = Some 0, map_state = UMBRA_MAP_POLICY_REQUIRE_MAP\<rparr>]
        (\<lambda>_ _. 0) (\<lambda>_. False) True False False ())) :: um_smgr"
  have "MapShmemInit 1 0 ?s0 = (Inr (), snd (MapShmemInit 1 0 ?s0))"
    by (simp add: MapShmemInit_def MapSuperTableShmemInit_def Let_def runU)
  from MapShmemInit_ok [OF this, of 1]
  have "sys_ok ([] @ (MapBackendInit, []) # [], snd (MapShmemInit 1 0 ?s0))" by simp
  then have "pin_inv (all_pins []) (all_claims []) demo_smgr"
    unfolding sys_ok_split demo_smgr_def by (simp add: spare_def)
  moreover have "all_pins [] = (\<lambda>_. 0)" by (simp add: fun_eq_iff)
  ultimately show ?thesis by simp
qed

theorem umwritev_releases_barriers_witness:
  "wpU (umwritev demo_env demo_rloc MAIN_FORKNUM 0 [zero_block, zero_block] True)
     (\<lambda>x t. pin_inv (\<lambda>_. 0) [] t) demo_smgr"
  by (rule wpU_mono [OF umwritev_releases_barriers [where \<Phi> = "\<lambda>F G. F = (\<lambda>_. 0) \<and> G = []", OF _ _ demo_smgr_inv]])
    (auto simp: quiet_def demo_env_def)

end
