(* ===== verification/UmbraReads.thy ===== *)
theory UmbraReads
  imports UmbraWrites
begin

text \<open>
  The read path of \<^verbatim>\<open>umbra.c\<close>: the runs the MAP lookup returns never exceed what was asked for, so the loop
  of \<^verbatim>\<open>umreadv\<close> fills every buffer and no more.
\<close>

lemma wpU_any: "wpU m (\<lambda>_ _. True) s"
  by (simp add: wpU_def split: prod.splits)

lemma run_scan_bound:
  assumes "run_scan es p q k = (stop, p', q', k')" and "unat k + length es < 2 ^ 32"
  shows "unat k' \<le> unat k + length es"
  using assms
proof (induction es arbitrary: p q k)
  case (Cons e es)
  have "unat (k + 1) = Suc (unat k)" using Cons(3) by (simp add: unat_word_ariths)
  then show ?case
    using Cons by (fastforce split: if_splits)
qed simp

lemma run_loop_bound:
  fixes s :: "'x map_buf_scheme"
  assumes "unat k + unat rem < 2 ^ 32"
  shows "wpU (run_loop n c r f l rem p q k cur) (\<lambda>x _. \<forall>k' p'. x = Inr (k', p') \<longrightarrow> unat k' \<le> unat k + unat rem) s"
  using assms
proof (induction n arbitrary: s l rem p q k cur)
  case 0
  show ?case unfolding run_loop.simps by (rule wpU_bindI [OF wpU_any]) (auto simp: wp)
next
  case (Suc n)
  show ?case unfolding run_loop.simps
  proof (rule wpU_ifI, goal_cases)
    case 1
    show ?case by (rule wpU_bindI [OF wpU_any]) (auto simp: wp)
  next
    case 2
    let ?m = "\<lambda>e. min (unat MAP_ENTRIES_PER_PAGE - e) (unat rem)"
    have scan: "wpU (case run_scan (take (?m e) (drop e page)) p q k of
        (stop, start', expected', run') \<Rightarrow>
          if stop then bindU (MapUnpinBuffer slot) (\<lambda>_. returnU (run', start'))
          else run_loop n c r f (l + of_nat (?m e)) (rem - of_nat (?m e)) start' expected' run' (Some (slot, b)))
        (\<lambda>x _. \<forall>k' p'. x = Inr (k', p') \<longrightarrow> unat k' \<le> unat k + unat rem) t" for e b page slot and t :: "'x map_buf_scheme"
    proof (cases "run_scan (take (?m e) (drop e page)) p q k")
      case (fields stop p' q' k')
      have "length (take (?m e) (drop e page)) \<le> ?m e" unfolding length_take by (rule min.cobounded2)
      then have k': "unat k' \<le> unat k + ?m e"
        using run_scan_bound [OF fields] Suc(2) by linarith
      have rem: "unat (rem - of_nat (?m e)) = unat rem - ?m e"
        by (simp add: unat_sub word_le_nat_alt unat_of_nat le_less_trans [OF _ unat_u32_bound])
      have le: "unat k' + unat (rem - of_nat (?m e)) \<le> unat k + unat rem"
        using k' rem min.cobounded2 [of "unat MAP_ENTRIES_PER_PAGE - e" "unat rem"] by linarith
      then have "wpU (run_loop n c r f (l + of_nat (?m e)) (rem - of_nat (?m e)) p' q' k' (Some (slot, b)))
          (\<lambda>x _. \<forall>k'' p''. x = Inr (k'', p'') \<longrightarrow> unat k'' \<le> unat k' + unat (rem - of_nat (?m e))) t"
        using Suc(2) by (intro Suc(1)) linarith
      then have next_page: "wpU (run_loop n c r f (l + of_nat (?m e)) (rem - of_nat (?m e)) p' q' k' (Some (slot, b)))
          (\<lambda>x _. \<forall>k'' p''. x = Inr (k'', p'') \<longrightarrow> unat k'' \<le> unat k + unat rem) t"
        by (rule wpU_mono) (use le in force)
      have stop: "wpU (bindU (MapUnpinBuffer slot) (\<lambda>_. returnU (k', p')))
          (\<lambda>x _. \<forall>k'' p''. x = Inr (k'', p'') \<longrightarrow> unat k'' \<le> unat k + unat rem) t"
        by (rule wpU_bindI [OF wpU_any]) (use le in \<open>auto simp: wp\<close>)
      show ?thesis unfolding fields prod.case by (rule wpU_ifI [OF stop next_page])
    qed
    show ?case unfolding Let_def
      by (rule wpU_bindI [OF wpU_any], simp, clarify, rule wpU_bindI [OF wpU_any], simp, rule wpU_bindI [OF wpU_any], simp,
          rule scan)
  qed
qed

lemma lookup_run_bound:
  "wpU (MapTryLookupPblkRun c r f l n) (\<lambda>x _. \<forall>k p. x = Inr (k, p) \<longrightarrow> k \<le> n) s"
proof -
  have "wpU (run_loop (unat n) c r f l n 0 InvalidBlockNumber 0 None) (\<lambda>x _. \<forall>k p. x = Inr (k, p) \<longrightarrow> k \<le> n) t"
    for t :: "'a map_buf_scheme"
    by (rule wpU_mono [OF run_loop_bound]) (auto simp: word_le_nat_alt less_le_trans [OF unat_u32_bound])
  then show ?thesis unfolding MapTryLookupPblkRun_def
    by (intro wpU_ifI) (auto simp: wpU_returnU wpU_throwU intro!: wpU_bindI [OF wpU_any])
qed

lemma read_run_bound:
  assumes "0 < n"
  shows "wpU (um_resolve_mapped_read_run reln f access ls l n) (\<lambda>x _. \<forall>k p ls'. x = Inr (k, p, ls') \<longrightarrow> k \<le> n) s"
proof -
  have one: "(1 :: BlockNumber) \<le> n" using assms by (simp add: word_le_nat_alt word_less_nat_alt)
  have single: "wpU (bindU (um_resolve_lblk_for_access reln f access ls l UMBRA_ACCESS_RESOLVE_READ) (\<lambda>(r, ls).
         returnU (case r of UMBRA_ACCESS_RESOLVED_PBLK pblk \<Rightarrow> (1, pblk, ls) | _ \<Rightarrow> (0, p, ls))))
      (\<lambda>x _. \<forall>k p ls'. x = Inr (k, p, ls') \<longrightarrow> k \<le> n) t" for p and t :: "'a um_smgr_scheme"
    by (rule wpU_bindI [OF wpU_any]) (auto simp: wp one split: UmbraAccessResolveResult.splits)
  show ?thesis unfolding um_resolve_mapped_read_run_def
    by (rule wpU_bindI [OF wpU_any], simp, rule wpU_bindI [OF lookup_run_bound], simp, clarify, rule wpU_ifI)
      (simp add: wpU_returnU, rule single)
qed

lemma readv_length:
  "wpU (umfile_readv c f b n zd) (\<lambda>x _. \<forall>bs. x = Inr bs \<longrightarrow> length bs = n) s"
proof -
  have "wpU (with_vfd v (\<lambda>ino. bindU (getU (\<lambda>s. um_inode s ino)) (\<lambda>bs. bindU (getU InRecovery) (\<lambda>rec.
        let got = take n (drop (seg_off b) bs) in
        if length got = n then returnU got
        else if zd \<or> rec then returnU (got @ replicate (n - length got) zero_block)
        else throwU (ERROR, E_DATA_CORRUPTED)))))
      (\<lambda>x _. \<forall>bs. x = Inr bs \<longrightarrow> length bs = n) t" for v and t :: "'a um_fs_scheme"
    by (cases "umfd_vfd v") (auto simp: with_vfd_def wp Let_def)
  then show ?thesis unfolding umfile_readv_def
    by (intro wpU_ifI) (auto simp: wpU_returnU wpU_throwU simp del: length_take intro!: wpU_bindI [OF wpU_any])
qed

lemma readv_loop_length:
  fixes s :: "'x um_smgr_scheme"
  assumes "unat rem \<le> n"
  shows "wpU (readv_loop n env reln c f access aux ls l rem) (\<lambda>x _. \<forall>bs. x = Inr bs \<longrightarrow> length bs = unat rem) s"
  using assms
proof (induction n arbitrary: s ls l rem)
  case 0
  then show ?case by (simp add: wp)
next
  case (Suc n)
  show ?case unfolding readv_loop.simps
  proof (rule wpU_ifI, goal_cases)
    case 1
    then show ?case by (simp add: wp)
  next
    case 2
    then have pos: "0 < unat rem" by (simp add: unat_gt_0)
    let ?max = "if aux then 1 else rem"
    have max: "0 < ?max" "?max \<le> rem" using 2 pos by (auto simp: word_gt_0 word_le_nat_alt)
    have rest: "wpU (bindU (readv_loop n env reln c f access aux ls' (l + k) (rem - k)) (\<lambda>bs'. returnU (bs @ bs')))
        (\<lambda>x _. \<forall>bs. x = Inr bs \<longrightarrow> length bs = unat rem) t"
      if k: "k \<le> ?max" "k \<noteq> 0" and bs: "length bs = unat k" for k ls' bs and t :: "'x um_smgr_scheme"
    proof -
      have "k \<le> rem" using k(1) max(2) by (rule order.trans)
      then have u: "unat (rem - k) = unat rem - unat k" "unat k \<le> unat rem"
        by (simp_all add: unat_sub word_le_nat_alt)
      moreover have "0 < unat k" using k(2) by (simp add: unat_gt_0)
      ultimately have "unat (rem - k) \<le> n" using Suc(2) by linarith
      from Suc(1) [OF this] show ?thesis
        by (rule wpU_bindI) (use u bs in \<open>auto simp: wp\<close>)
    qed
    have hole: "wpU (bindU (readv_loop n env reln c f access aux ls' (l + 1) (rem - 1)) (\<lambda>bs. returnU (zero_block # bs)))
        (\<lambda>x _. \<forall>bs. x = Inr bs \<longrightarrow> length bs = unat rem) t" for ls' and t :: "'x um_smgr_scheme"
      using rest [of 1 "[zero_block]" ls' t] max by (auto simp: word_le_nat_alt word_less_nat_alt)
    show ?case
    proof (rule wpU_bindI [OF read_run_bound [OF max(1)]], simp, clarify, rule wpU_ifI, goal_cases)
      case 1
      show ?case by (rule hole)
    next
      case (2 k p ls' t)
      show ?case
        by (rule wpU_bindI [OF wpU_any], simp, rule wpU_bindI [OF readv_length], simp) (use 2 rest in auto)
    qed
  qed
qed

text \<open>C20: A read of \<open>n\<close> blocks that succeeds fills exactly \<open>n\<close> buffers, for mapped and for direct access: no
  run of translated blocks is longer than what remains, and \<open>n\<close> rounds of the loop are enough.\<close>

theorem umreadv_fills_buffers:
  "wpU (umreadv env reln f blocknum nblocks) (\<lambda>x t. \<forall>bs. x = Inr bs \<longrightarrow> length bs = unat nblocks) s"
  unfolding umreadv_def
  by (rule wpU_bindI [OF wpU_any], simp, rule wpU_bindI [OF wpU_any], simp)
    (auto intro: readv_length readv_loop_length wpU_bindI [OF wpU_any])

text \<open>The same relation with the first segment of each fork open.\<close>

definition demo_open :: um_smgr where
  "demo_open = demo_smgr\<lparr>um_ctxs := (\<lambda>c. \<lparr>ctx_rlocator = demo_rloc,
     seg_fds = (\<lambda>f. [\<lparr>umfd_vfd = Some 0, umfd_segno = 0\<rparr>])\<rparr>), um_inode := (\<lambda>i. [zero_block, demo_block])\<rparr>"

theorem umreadv_fills_buffers_witness:
  "\<exists>bs t. umreadv demo_env demo_rloc UMBRA_METADATA_FORKNUM 0 2 demo_open = (Inr bs, t) \<and> length bs = 2"
proof -
  have priv: "smgr_private demo_open demo_rloc = Some \<lparr>file_ctx = Some 0, map_state = UMBRA_MAP_POLICY_REQUIRE_MAP\<rparr>"
    by (simp add: demo_open_def demo_smgr_def upd_backend_def MapShmemInit_def MapSuperTableShmemInit_def Let_def runU
        map_buf.defs)
  have fs: "ctx_segs demo_open c f = [\<lparr>umfd_vfd = Some 0, umfd_segno = 0\<rparr>]" "um_inode demo_open i = [zero_block, demo_block]" for c f i
    by (simp_all add: demo_open_def ctx_segs_def)
  have "\<exists>bs t. umreadv demo_env demo_rloc UMBRA_METADATA_FORKNUM 0 2 demo_open = (Inr bs, t)"
    using priv by (simp add: umreadv_def bindU_def um_ctx_acquire_def um_state_acquire_def um_state_lookup_def runU
        um_classify_access_def um_map_policy_for_access_def um_fork_uses_map_translation_def um_state_uses_map_def
        umfile_readv_def umfile_getseg_some_def umfile_getseg_def fs seg_of_def seg_off_def with_vfd_def Let_def
        RELSEG_SIZE_def PG_IOV_MAX_def UmbraForkUsesMapTranslation_def)
  then show ?thesis
    using umreadv_fills_buffers [of demo_env demo_rloc UMBRA_METADATA_FORKNUM 0 2 demo_open] by (auto simp: wpU_def)
qed

end
