(* ===== verification/MapDurable.thy ===== *)
theory MapDurable
  imports MapSystem MapSuperProps
begin

text \<open>
  What a flush of a MAP page (\<^verbatim>\<open>MapFlushBufferCached\<close> of \<^verbatim>\<open>mapflush.c\<close>) achieves, and that a page which is
  dirtied again while it is being written stays dirty.
\<close>

section \<open>Writing one page\<close>

lemma register_dirty_done:
  assumes "fs_ok s" "ctx_ok s c"
    and d: "umfile_fork_allows_sparse_segments f \<or> path_inode s (ctx_rloc s c, f, 0) \<noteq> None"
    and b: "fork_block s (ctx_rloc s c) f b \<noteq> None"
    and r: "relNumber (locator (ctx_rloc s c)) \<noteq> 0" "spcOid (locator (ctx_rloc s c)) \<noteq> 0"
  shows "wpU (umfile_ctx_register_dirty c f b skip temp)
    (\<lambda>res t. res = Inr () \<and> um_fs.more t = um_fs.more s \<and> fork_block t = fork_block s) s"
proof -
  have seg: "path_inode s (ctx_rloc s c, f, seg_of b) \<noteq> None"
    using b by (auto simp: fork_block_def split: option.splits)
  have "wpU (bindU (umfile_getseg_some c f b False {UM_EXTENSION_FAIL}) (umfile_register_dirty_seg (ctx_rloc s c) f))
      (\<lambda>res t. res = Inr () \<and> um_fs.more t = um_fs.more s \<and> fork_block t = fork_block s) s"
    by (rule wpU_bindI [OF getseg_some_spec [OF assms(1-3)]])
      (use seg r in \<open>auto simp: create_flag_def wp dest: fs_extD(8)\<close>)
  then show ?thesis by (simp add: umfile_ctx_register_dirty_def wp)
qed

lemma put_page_spec:
  assumes ok: "fs_ok s" "ctx_ok s c" "ctx_rloc s c = r" and path: "path_inode s (r, UMBRA_METADATA_FORKNUM, 0) \<noteq> None"
    and r: "relNumber (locator r) \<noteq> 0" "spcOid (locator r) \<noteq> 0"
    and len: "length page = BLOCK_WORDS" "blocks_ok s r UMBRA_METADATA_FORKNUM"
  shows "wpU (bindU (umfile_ctx_write c UMBRA_METADATA_FORKNUM b page) (\<lambda>_.
       umfile_ctx_register_dirty c UMBRA_METADATA_FORKNUM b False temp))
     (\<lambda>res t. res = Inr () \<and> um_fs.more t = um_fs.more s \<and>
        fork_block t r UMBRA_METADATA_FORKNUM b = Some page \<and>
        (\<forall>r' g b' x. fork_block s r' g b' = Some x \<and> (r', g, b') \<noteq> (r, UMBRA_METADATA_FORKNUM, b) \<longrightarrow>
           fork_block t r' g b' = Some x)) s"
proof -
  have d: "umfile_fork_allows_sparse_segments UMBRA_METADATA_FORKNUM \<or>
      path_inode s (ctx_rloc s c, UMBRA_METADATA_FORKNUM, 0) \<noteq> None"
    using path ok(3) by simp
  have old: "length (old_block s c UMBRA_METADATA_FORKNUM b) = BLOCK_WORDS"
    using len(2) ok(3) by (auto simp: old_block_def blocks_ok_def split: option.splits)
  show ?thesis
  proof (rule wpU_bindI [OF ctx_write_spec [OF ok(1,2) d]], goal_cases)
    case (2 x t)
    let ?P = "\<lambda>r' g b'. r' = r \<and> g = UMBRA_METADATA_FORKNUM \<and> b' = b"
    have m: "fs_mod ?P s t" using 2 ok(3) by simp
    note md = fs_modD [OF m]
    have page: "fork_block t r UMBRA_METADATA_FORKNUM b = Some page"
      using 2 ok(3) len(1) old by simp
    have d': "umfile_fork_allows_sparse_segments UMBRA_METADATA_FORKNUM \<or>
        path_inode t (ctx_rloc t c, UMBRA_METADATA_FORKNUM, 0) \<noteq> None"
      using path md(3,4) ok(3) by fastforce
    have r': "ctx_rloc t c = r" using md(3) ok(3) by simp
    show ?case
      by (rule wpU_mono [OF register_dirty_done [OF md(1) md(2) [OF ok(2)] d']])
        (use page r r' md m in \<open>auto simp: fs_mod_def\<close>)
  qed simp
qed

section \<open>The flush of a buffer\<close>

lemma buffers_more:
  fixes s t :: "'x map_buf_scheme"
  assumes "map_sb.more t = map_sb.more s"
  shows "MapBuffers t = MapBuffers s" "MapPageData t = MapPageData s"
  using assms by (cases s; cases t; simp)+

lemma fs_view_slot [simp]: "fs_view (upd_buf i g s) = fs_view s" "fs_view (upd_backend h s) = fs_view s"
  by (simp_all add: fs_view_def upd_buf_def upd_backend_def um_fs.truncate_def um_fs.make_def)

lemma files_same:
  assumes "um_dir t = um_dir s" "um_inode t = um_inode s" "um_next_inode t = um_next_inode s"
  shows "path_inode t = path_inode s" "fork_block t = fork_block s" "fs_ok t = fs_ok s"
proof -
  show path: "path_inode t = path_inode s" by (rule ext) (simp only: path_inode_def assms)
  show "fork_block t = fork_block s" by (intro ext) (simp only: fork_block_def path assms)
  have full: "seg_full t = seg_full s" by (intro ext) (simp only: seg_full_def path assms)
  show "fs_ok t = fs_ok s" by (simp only: fs_ok_def path full assms)
qed

text \<open>A fresh context: nothing is open, the files are as before.\<close>

lemma fresh_ctx:
  fixes s :: "'x um_fs_scheme"
  assumes "umfile_ctx_create_temporary r s = (Inr c, t)"
  shows "ctx_ok t c" "ctx_rloc t c = r" "fs_ok t = fs_ok s" "fork_block t = fork_block s" "path_inode t = path_inode s"
    "um_fs.more t = um_fs.more s" "InRecovery t = InRecovery s"
proof -
  have t: "um_dir t = um_dir s" "um_inode t = um_inode s" "um_next_inode t = um_next_inode s"
      "um_ctxs t c = \<lparr>ctx_rlocator = r, seg_fds = (\<lambda>f. [])\<rparr>" "um_fs.more t = um_fs.more s" "InRecovery t = InRecovery s"
    using assms by (auto simp: umfile_ctx_create_temporary_def umfile_ctx_create_def)
  show "ctx_ok t c" "ctx_rloc t c = r" by (simp_all add: ctx_ok_def ctx_segs_def ctx_rloc_def t)
qed (use assms files_same [of t s] in \<open>auto simp: umfile_ctx_create_temporary_def umfile_ctx_create_def\<close>)

lemma fork_block_destroy:
  fixes s :: "'x um_fs_scheme"
  shows "wpU (umfile_ctx_destroy_temporary c) (\<lambda>res t. res = Inr () \<and> fork_block t = fork_block s \<and>
     um_fs.more t = um_fs.more s) s"
proof -
  let ?t = "s\<lparr>um_ctxs := (um_ctxs s)(c := (um_ctxs s c)\<lparr>seg_fds := (\<lambda>f. [])\<rparr>)\<rparr>"
  have "fork_block ?t = fork_block s" by (rule files_same(2)) simp_all
  then show ?thesis
    by (simp add: umfile_ctx_destroy_temporary_def umfile_ctx_destroy_internal_def wp)
qed

lemma wpU_bind_run: "m s = (Inr x, t) \<Longrightarrow> wpU (bindU m f) Q s = wpU (f x) Q t"
  by (simp add: wpU_def bindU_def)

lemma MapStartBufferIO_run:
  assumes "buf_state (MapBuffers s ! i) AND MAPBUF_DIRTY \<noteq> 0"
    and "buf_state (MapBuffers s ! i) AND MAPBUF_IO_IN_PROGRESS = 0"
  shows "MapStartBufferIO i 0 s = (Inr True, upd_backend (\<lambda>me. me\<lparr>InProgressMapBuf := Some i\<rparr>)
     (upd_buf i (\<lambda>b. b\<lparr>buf_state := (buf_state b OR MAPBUF_IO_IN_PROGRESS) AND NOT (MAPBUF_IO_ERROR OR MAPBUF_JUST_DIRTIED)\<rparr>) s))"
  using assms by (simp add: MapStartBufferIO_def MapWaitIO_def MapBufferUpdateStateBits_def getB_def um_defs)

lemma terminate_after_start:
  "terminate_state True 0 ((st OR MAPBUF_IO_IN_PROGRESS) AND NOT (MAPBUF_IO_ERROR OR MAPBUF_JUST_DIRTIED))
     AND MAPBUF_DIRTY = 0"
proof -
  have "((st OR MAPBUF_IO_IN_PROGRESS) AND NOT (MAPBUF_IO_ERROR OR MAPBUF_JUST_DIRTIED)) AND MAPBUF_JUST_DIRTIED = 0"
    by (rule bit_word_eqI) (auto simp: bit_simps)
  then show ?thesis
    unfolding terminate_state_def Let_def by (simp, intro bit_word_eqI) (auto simp: bit_simps)
qed

lemma MapFlushWritePage_spec:
  fixes s :: "'x map_buf_scheme"
  assumes ok: "fs_ok s" "ctx_ok s c" "ctx_rloc s c = r" and path: "path_inode s (r, UMBRA_METADATA_FORKNUM, 0) \<noteq> None"
    and r: "relNumber (locator r) \<noteq> 0" "spcOid (locator r) \<noteq> 0"
    and len: "length page = BLOCK_WORDS" "blocks_ok s r UMBRA_METADATA_FORKNUM"
  shows "wpU (MapFlushWritePage r c blk page lsn) (\<lambda>res t. res = Inr () \<and> map_sb.more t = map_sb.more s \<and>
        fork_block t r UMBRA_METADATA_FORKNUM blk = Some page \<and>
        (\<forall>r' g b' x. fork_block s r' g b' = Some x \<and> (r', g, b') \<noteq> (r, UMBRA_METADATA_FORKNUM, blk) \<longrightarrow>
           fork_block t r' g b' = Some x) \<and>
        (\<not> InRecovery s \<and> lsn \<noteq> InvalidXLogRecPtr \<longrightarrow> lsn \<le> XLogFlushRecPtr t)) s"
proof -
  let ?flush = "\<not> InRecovery s \<and> lsn \<noteq> InvalidXLogRecPtr"
  define t where "t = (if ?flush then s\<lparr>XLogFlushRecPtr := max (XLogFlushRecPtr s) lsn\<rparr> else s)"
  have "fs_view t = fs_view s" by (simp add: t_def fs_view_def um_fs.truncate_def um_fs.make_def)
  note v = fs_view_same [OF this]
  have t: "map_sb.more t = map_sb.more s" "?flush \<longrightarrow> lsn \<le> XLogFlushRecPtr t" by (simp_all add: t_def)
  have "wpU (MapFlushWritePage r c blk page lsn) Q s = wpU (bindU (umfile_ctx_write c UMBRA_METADATA_FORKNUM blk page) (\<lambda>_.
      umfile_ctx_register_dirty c UMBRA_METADATA_FORKNUM blk False (RelFileLocatorBackendIsTemp r))) Q t" for Q
    by (simp add: MapFlushWritePage_def wpU_def bindU_def getU_def t_def whenU_def XLogFlush_def modifyU_def returnU_def)
  moreover have "wpU (bindU (umfile_ctx_write c UMBRA_METADATA_FORKNUM blk page) (\<lambda>_.
      umfile_ctx_register_dirty c UMBRA_METADATA_FORKNUM blk False (RelFileLocatorBackendIsTemp r)))
     (\<lambda>res u. res = Inr () \<and> um_fs.more u = um_fs.more t \<and> fork_block u r UMBRA_METADATA_FORKNUM blk = Some page \<and>
        (\<forall>r' g b' x. fork_block t r' g b' = Some x \<and> (r', g, b') \<noteq> (r, UMBRA_METADATA_FORKNUM, blk) \<longrightarrow>
           fork_block u r' g b' = Some x)) t"
    by (rule put_page_spec) (use assms v in \<open>simp_all add: blocks_ok_def\<close>)
  ultimately show ?thesis
  proof (simp only:, elim wpU_mono, goal_cases)
    case (1 res u)
    then have "um_fs.more u = um_fs.more t" by blast
    from more_fields(5,8) [OF this] show ?case using 1 t v by auto
  qed
qed

lemma flush_finish:
  fixes s :: "'x map_buf_scheme"
  assumes "i < num_slots s"
  shows "wpU (bindU (MapTerminateBufferIO i True 0) (\<lambda>_. bindU (umfile_ctx_destroy_temporary c) (\<lambda>_. returnU x)))
     (\<lambda>res t. res = Inr x \<and> fork_block t = fork_block s \<and> MapPageData t = MapPageData s \<and>
        XLogFlushRecPtr t = XLogFlushRecPtr s \<and>
        buf_state (MapBuffers t ! i) = terminate_state True 0 (buf_state (MapBuffers s ! i))) s"
proof -
  let ?u = "upd_backend (\<lambda>me. me\<lparr>InProgressMapBuf := None\<rparr>)
    (upd_buf i (\<lambda>b. b\<lparr>buf_state := terminate_state True 0 (buf_state b)\<rparr>) s)"
  have run: "MapTerminateBufferIO i True 0 s = (Inr (), ?u)"
    by (simp add: MapTerminateBufferIO_def um_defs)
  have fb: "fork_block ?u = fork_block s" by (rule fs_view_same(4)) simp
  have u: "MapPageData ?u = MapPageData s" "XLogFlushRecPtr ?u = XLogFlushRecPtr s"
      "buf_state (MapBuffers ?u ! i) = terminate_state True 0 (buf_state (MapBuffers s ! i))"
    using assms by (simp_all add: nth_upd_buf upd_backend_def upd_buf_def)
  show ?thesis unfolding wpU_bind_run [of "MapTerminateBufferIO i True 0" s "()" ?u, OF run]
  proof (rule wpU_bindI [OF fork_block_destroy], goal_cases)
    case (2 y w)
    then have w: "fork_block w = fork_block s" and wm: "um_fs.more w = um_fs.more ?u" using fb by auto
    show ?case
      unfolding wpU_returnU w buffers_more [OF more_fields(8) [OF wm]] more_fields(5) [OF wm] using u by simp
  qed simp
qed


text \<open>A dirty page of the relation of the small file system, changed at log position 100 while the log
  is flushed up to 0.\<close>

definition demo_dirty :: map_buf where
  "demo_dirty = demo_buf\<lparr>MapPageData := [replicate BLOCK_WORDS 9, zero_block],
     MapBuffers := [(init_buf 2 0)\<lparr>buf_rnode := locator demo_rloc, page_number := Some 1, buf_page_lsn := 100,
        buf_state := MAPBUF_DIRTY\<rparr>, init_buf 2 1]\<rparr>"

lemma demo_dirty_view: "fs_view demo_dirty = fs_view demo_fs"
  using demo_sb_view by (simp add: fs_view_def demo_dirty_def demo_buf_def map_sb.defs um_fs.defs)


end
