(* ===== verification/MapLookup.thy ===== *)
theory MapLookup
  imports MapSystem
begin

text \<open>
  Publishing and looking up a mapping. The cached part of the map is the partial function \<open>cached_entry\<close> from
  logical blocks to physical blocks; \<^verbatim>\<open>MapSetMapping\<close> updates it at one point and \<^verbatim>\<open>MapTryLookup\<close> reads it.
\<close>

section \<open>The cached part of the map\<close>

definition cached_entry :: "'x map_buf_scheme \<Rightarrow> RelFileLocator \<Rightarrow> ForkNumber \<Rightarrow> BlockNumber \<Rightarrow> BlockNumber option" where
  "cached_entry s r f l = (case MapInflightDecode f l of
     Inl _ \<Rightarrow> None
   | Inr (b, k) \<Rightarrow> map_option (\<lambda>i. MapPageData s ! i ! k) (MapCacheHash s (r, f, b)))"

definition pages_full :: "'x map_buf_scheme \<Rightarrow> bool" where
  "pages_full s \<longleftrightarrow> length (MapPageData s) = num_slots s \<and> (\<forall>page\<in>set (MapPageData s). length page = BLOCK_WORDS)"

lemma decode_unique:
  assumes "MapInflightDecode f l = Inr (p, k)" and "MapInflightDecode f' l' = Inr (p, k)"
  shows "f = f' \<and> l = l'"
proof -
  have a: "map_page_nat f (unat l div 2048) = Some (unat p)" "k = unat l mod 2048"
    "map_page_nat f' (unat l' div 2048) = Some (unat p)" "k = unat l' mod 2048"
    using assms by (auto simp: MapInflightDecode_nat)
  then have "f = f'" "unat l div 2048 = unat l' div 2048"
    using map_decode_page_nat [OF a(1)] map_decode_page_nat [OF a(3)] by simp_all
  then show ?thesis
    using a div_mult_mod_eq [of "unat l" 2048] div_mult_mod_eq [of "unat l'" 2048]
    by (simp add: u32_eq_iff_unat)
qed

lemma decode_bounds:
  assumes "MapInflightDecode f l = Inr (p, k)"
  shows "p \<noteq> MAP_BLOCK_SUPER" "k < BLOCK_WORDS" "f \<noteq> UMBRA_METADATA_FORKNUM"
proof -
  have a: "map_page_nat f (unat l div 2048) = Some (unat p)" "k = unat l mod 2048"
    using assms by (auto simp: MapInflightDecode_nat)
  show "k < BLOCK_WORDS" using a(2) by (simp add: BLOCK_WORDS_def BLCKSZ_def)
  have "unat p \<noteq> 0" using map_decode_page_nat [OF a(1)] by simp
  then show "p \<noteq> MAP_BLOCK_SUPER" by (auto simp: MAP_BLOCK_SUPER_def)
  show "f \<noteq> UMBRA_METADATA_FORKNUM" using a(1) by auto
qed

section \<open>Hits\<close>

definition data_same :: "'x map_buf_scheme \<Rightarrow> 'x map_buf_scheme \<Rightarrow> bool" where
  "data_same s t \<longleftrightarrow> MapPageData t = MapPageData s"

interpretation dsk: step_rel data_same
  by unfold_locales (auto simp: data_same_def)

lemma fs_frame_data: "fs_frame s t \<Longrightarrow> data_same s t"
  by (cases s; cases t) (simp add: data_same_def fs_frame_def)

lemma leaves_fs_data: "leaves fs_frame m \<Longrightarrow> leaves data_same m"
  by (erule leaves_mono) (rule fs_frame_data)

lemma leaves_MapMarkBufferDirty_data: "leaves data_same (MapMarkBufferDirty c i l)"
  unfolding MapMarkBufferDirty_def MapEnsureBufferMaterialized_def getB_def MapBufferUpdateStateBits_def Let_def
  by (intro dsk.leaves_rules dsk.leaves_modify leaves_fs_data [OF leaves_umfile_ctx_fork_exists]
      leaves_fs_data [OF leaves_umfile_ctx_get_nblocks] leaves_fs_data [OF leaves_umfile_zeroextend])
    (simp_all add: data_same_def upd_buf_def)

lemma MapReadBuffer_hit:
  assumes "cache_ok s" and "MapCacheHash s (r, f, b) = Some i" and "b \<noteq> MAP_BLOCK_SUPER"
  shows "MapReadBuffer c r f b s = (if 511 \<le> rc (buf_state (MapBuffers s ! i)) then (Inl (ERROR, E_INTERNAL), s)
     else (Inr i, pin_slot i True s))"
proof -
  have "i < num_slots s" "buf_has_tag (MapBuffers s ! i) r f b" using cache_ok_hash [OF assms(1)] assms(2) by blast+
  then have "buf_has_tag (MapBuffers (pin_slot i True s) ! i) r f b"
    by (simp add: pin_slot_def nth_upd_buf buf_has_tag_def)
  then show ?thesis using assms(2,3)
    by (simp add: MapReadBuffer_def MapCacheLookup_def MapPinBuffer_run bindU_def runU getB_def)
qed

lemma MapTryLookup_hit:
  assumes inv: "cache_ok s" and dec: "MapInflightDecode f l = Inr (b, k)" and hit: "MapCacheHash s (r, f, b) = Some i"
    and rc: "rc (buf_state (MapBuffers s ! i)) < 511" "us (buf_state (MapBuffers s ! i)) \<le> 5"
  shows "\<exists>t. MapTryLookup c r f l s = (Inr (let v = MapPageData s ! i ! k in if v = InvalidBlockNumber then None else Some v), t)"
proof -
  let ?u = "pin_slot i True s"
  have i: "i < num_slots s" "buf_has_tag (MapBuffers s ! i) r f b" using cache_ok_hash [OF inv] hit by blast+
  have u: "buf_has_tag (MapBuffers ?u ! i) r f b" "private_pins ?u i \<noteq> 0" "MapPageData ?u = MapPageData s"
      "rc (buf_state (MapBuffers ?u ! i)) \<noteq> 0"
    using i pin_word_fields(1) [OF rc]
    by (simp_all add: pin_slot_def nth_upd_buf buf_has_tag_def upd_backend_def pin_private_def upd_buf_def)
  show ?thesis
    using hit rc u dec decode_bounds(3) [OF dec]
    by (simp add: MapTryLookup_def MapTryLookupCachedPblknoInternal_def MapTryLookupCachedEntry_def bindU_def runU
        MapCacheLookup_def MapPinBuffer_run MapUnpinBuffer_run getB_def page_entry_def Let_def liftU_def)
qed

section \<open>Publishing a mapping\<close>

lemma dirty_bit: "st AND MAPBUF_DIRTY \<noteq> 0 \<longleftrightarrow> bit st 14"
  using and_exp_eq_0_iff_not_bit [of st 14] by (simp add: MAPBUF_DIRTY_def)

lemma dirty_iff: "st AND MAPBUF_DIRTY \<noteq> 0 \<longleftrightarrow> odd (fl st)"
  unfolding dirty_bit using bit_iff_odd [of "unat st" 14] by (simp add: bit_unsigned_iff fl_def)

lemma just_dirtied_bit: "st AND MAPBUF_JUST_DIRTIED = 0 \<longleftrightarrow> \<not> bit st 17"
  using and_exp_eq_0_iff_not_bit [of st 17] by (simp add: MAPBUF_JUST_DIRTIED_def)

lemma dirty_set:
  "(st OR (MAPBUF_DIRTY OR MAPBUF_JUST_DIRTIED)) AND MAPBUF_DIRTY \<noteq> 0"
  "bit (st OR (MAPBUF_DIRTY OR MAPBUF_JUST_DIRTIED)) 17"
  using dirty_bit [of MAPBUF_DIRTY] unfolding dirty_bit
  by (simp_all add: bit_or_iff MAPBUF_DIRTY_def MAPBUF_JUST_DIRTIED_def)

lemma MapMarkBufferDirty_wp:
  assumes "i < num_slots s"
  shows "wpU (MapMarkBufferDirty c i lsn) (\<lambda>x t. pin_same s t \<and> MapPageData t = MapPageData s \<and>
     (x = Inr () \<longrightarrow> buf_state (MapBuffers t ! i) AND MAPBUF_DIRTY \<noteq> 0 \<and> bit (buf_state (MapBuffers t ! i)) 17)) s"
proof -
  have "wpU (MapMarkBufferDirty c i lsn)
      (\<lambda>x t. x = Inr () \<longrightarrow> buf_state (MapBuffers t ! i) AND MAPBUF_DIRTY \<noteq> 0 \<and> bit (buf_state (MapBuffers t ! i)) 17) s"
    unfolding MapMarkBufferDirty_def getB_def wpU_getU_bind
  proof (rule wpU_bindI, rule leaves_wpU [of pin_same, where s = s], goal_cases)
    case 1
    show ?case by (intro psk.leaves_when leaves_MapEnsureBufferMaterialized)
  next
    case (3 x t)
    then have "i < num_slots t" using assms by (simp add: pin_same_slots)
    then show ?case by (simp add: wp MapBufferUpdateStateBits_def nth_upd_buf dirty_set)
  qed simp
  then show ?thesis
    using leaves_wpU [OF leaves_MapMarkBufferDirty, of c i lsn s] leaves_wpU [OF leaves_MapMarkBufferDirty_data, of c i lsn s]
    unfolding wpU_def data_same_def by (auto split: prod.splits)
qed

lemma cached_entry_put:
  assumes ok: "cache_ok s" "pages_full s" and dec: "MapInflightDecode f l = Inr (b, k)"
    and hit: "MapCacheHash s (r, f, b) = Some i"
    and t: "MapCacheHash t = MapCacheHash s" "MapPageData t = (MapPageData s)[i := (MapPageData s ! i)[k := p]]"
  shows "cached_entry t r' f' l' = (if (r', f', l') = (r, f, l) then Some p else cached_entry s r' f' l')"
proof (cases "\<exists>b' k' j. MapInflightDecode f' l' = Inr (b', k') \<and> MapCacheHash s (r', f', b') = Some j")
  case True
  then obtain b' k' j where dec': "MapInflightDecode f' l' = Inr (b', k')" and hit': "MapCacheHash s (r', f', b') = Some j"
    by blast
  have i: "i < num_slots s" "buf_has_tag (MapBuffers s ! i) r f b" "j < num_slots s" "buf_has_tag (MapBuffers s ! j) r' f' b'"
    using cache_ok_hash [OF ok(1)] hit hit' by blast+
  have len: "i < length (MapPageData s)" "length (MapPageData s ! i) = BLOCK_WORDS" using ok(2) i by (auto simp: pages_full_def)
  have same: "j = i \<Longrightarrow> r' = r \<and> f' = f \<and> b' = b" using i by (auto simp: buf_has_tag_def)
  have "j = i \<Longrightarrow> k' = k \<Longrightarrow> l' = l" using same decode_unique [OF dec'] dec by blast
  then show ?thesis using same dec dec' hit hit' len decode_bounds(2) [OF dec]
    by (auto simp: cached_entry_def t nth_list_update)
next
  case False
  then show ?thesis using dec hit by (auto simp: cached_entry_def t split: sum.splits)
qed

lemma cached_entry_unpin [simp]: "cached_entry (unpin_slot i t) = cached_entry t"
proof -
  have "MapPageData (unpin_slot i t) = MapPageData t" "MapCacheHash (unpin_slot i t) = MapCacheHash t"
    by (simp_all add: unpin_slot_def upd_backend_def upd_buf_def)
  then show ?thesis by (intro ext) (simp only: cached_entry_def)
qed

lemma unpin_then_lookup:
  assumes inv: "pin_inv F G t" and slack: "0 < slack t i" and dec: "MapInflightDecode f l = Inr (b, k)"
    and hit: "MapCacheHash t (r, f, b) = Some i" and dirty: "buf_state (MapBuffers t ! i) AND MAPBUF_DIRTY \<noteq> 0"
    and w: "w = unpin_slot i t"
  shows "buf_state (MapBuffers w ! i) AND MAPBUF_DIRTY \<noteq> 0"
    and "\<exists>u. MapTryLookup c r f l w = (Inr (let v = MapPageData t ! i ! k in if v = InvalidBlockNumber then None else Some v), u)"
proof -
  have inv': "pin_inv F G w" using pin_inv_unpin [OF inv slack] w by simp
  have i: "i < num_slots t" using inv hit cache_ok_hash [of t r f b i] by (simp add: pin_inv_def)
  have "0 < rc (buf_state (MapBuffers t ! i))" using inv i slack by (simp add: pin_inv_def slack_def)
  note m = state_minus_one [OF this]
  have st: "buf_state (MapBuffers w ! i) = buf_state (MapBuffers t ! i) - 1" and
      same: "MapPageData w = MapPageData t" "MapCacheHash w = MapCacheHash t" "num_slots w = num_slots t"
    using i by (simp_all add: w unpin_slot_def nth_upd_buf upd_backend_def upd_buf_def)
  show "buf_state (MapBuffers w ! i) AND MAPBUF_DIRTY \<noteq> 0" using dirty m(3) unfolding st dirty_iff by simp
  have "rc (buf_state (MapBuffers w ! i)) < 511"
    unfolding st m(1) using rc_less [of "buf_state (MapBuffers t ! i)"] by linarith
  moreover have "us (buf_state (MapBuffers w ! i)) \<le> 5" using inv' i same(3) by (simp add: pin_inv_def)
  ultimately have hits: "\<exists>u. MapTryLookup c r f l w =
      (Inr (let v = MapPageData w ! i ! k in if v = InvalidBlockNumber then None else Some v), u)"
    using MapTryLookup_hit [OF _ dec, of w r i c] inv' hit same(2) by (simp add: pin_inv_def)
  then show "\<exists>u. MapTryLookup c r f l w =
      (Inr (let v = MapPageData t ! i ! k in if v = InvalidBlockNumber then None else Some v), u)"
    unfolding same(1) .
qed

text \<open>C5: While its MAP page is cached, publishing a mapping updates the map at that block and nowhere else: no other
  cached mapping changes, whatever the outcome, and when the call succeeds a lookup returns the new physical
  block, or finds the block unmapped if that is the invalid one, and the page is marked dirty.\<close>

theorem MapSetMapping_refines:
  assumes "pin_inv F G s" and "pages_full s" and "MapInflightDecode f l = Inr (b, k)"
    and "MapCacheHash s (r, f, b) = Some i"
  shows "wpU (MapSetMapping c r f l p lsn) (\<lambda>x t.
     (\<forall>r' f' l'. (r', f', l') \<noteq> (r, f, l) \<longrightarrow> cached_entry t r' f' l' = cached_entry s r' f' l') \<and>
     (x = Inr () \<longrightarrow> cached_entry t r f l = Some p \<and> buf_state (MapBuffers t ! i) AND MAPBUF_DIRTY \<noteq> 0 \<and>
        (\<exists>u. MapTryLookup c r f l t = (Inr (if p = InvalidBlockNumber then None else Some p), u)))) s"
proof (cases "511 \<le> rc (buf_state (MapBuffers s ! i))")
  case True
  then have "MapSetMapping c r f l p lsn s = (Inl (ERROR, E_INTERNAL), s)"
    using MapReadBuffer_hit [OF _ assms(4) decode_bounds(1) [OF assms(3)]] assms(1,3)
    by (simp add: MapSetMapping_def bindU_def liftU_def runU pin_inv_def)
  then show ?thesis by (simp add: wpU_def)
next
  case False
  have ok: "cache_ok s" using assms(1) by (simp add: pin_inv_def)
  have i: "i < num_slots s" using cache_ok_hash [OF ok] assms(4) by blast
  have rc: "rc (buf_state (MapBuffers s ! i)) < 511" using False by simp
  note pin = pin_inv_pin [OF assms(1) i rc, of True]
  define u where "u = (pin_slot i True s)\<lparr>MapPageData := (MapPageData s)[i := (MapPageData s ! i)[k := p]]\<rparr>"
  have u: "num_slots u = num_slots s" "MapCacheHash u = MapCacheHash s" "MapPageData u = (MapPageData s)[i := (MapPageData s ! i)[k := p]]"
    by (simp_all add: u_def pin_slot_def)
  define lsn' where "lsn' = (if lsn = InvalidXLogRecPtr
     then (if InRecovery u then XLogReplayRecPtr u else XLogWriteRecPtr u) else lsn)"
  have data: "MapPageData (pin_slot i True s) = MapPageData s" by (simp add: pin_slot_def)
  have "pin_same (pin_slot i True s) u" by (simp add: pin_same_def u_def)
  note inv_u = pin_same_inv [OF this pin(1)]
  have run: "MapSetMapping c r f l p lsn s = bindU (MapMarkBufferDirty c i lsn') (\<lambda>_. MapUnpinBuffer i) u"
    using MapReadBuffer_hit [OF ok assms(4) decode_bounds(1) [OF assms(3)]] assms(3) False
    by (simp add: MapSetMapping_def bindU_def liftU_def runU set_page_entry_def resolve_lsn_def lsn'_def data flip: u_def)
  have len: "MapPageData u ! i ! k = p"
    using assms(2) i decode_bounds(2) [OF assms(3)] by (simp add: u pages_full_def)
  have put: "cached_entry t r' f' l' = (if (r', f', l') = (r, f, l) then Some p else cached_entry s r' f' l')"
    if "MapCacheHash t = MapCacheHash u" "MapPageData t = MapPageData u" for t :: "'a map_buf_scheme" and r' f' l'
    by (rule cached_entry_put [OF ok assms(2-4)]) (use that u in simp_all)
  show ?thesis unfolding wpU_def run unfolding wpU_def [symmetric]
  proof (rule wpU_bindI [OF MapMarkBufferDirty_wp], goal_cases)
    case (2 e t)
    then show ?case using put [of t] by (simp add: pin_same_def)
  next
    case (3 x t)
    then have t: "pin_same u t" "MapPageData t = MapPageData u" "MapCacheHash t = MapCacheHash u"
        "buf_state (MapBuffers t ! i) AND MAPBUF_DIRTY \<noteq> 0" by (simp_all add: pin_same_def)
    note inv_t = pin_same_inv [OF t(1) inv_u(1)]
    have slack: "0 < slack t i" using inv_t(2) inv_u(2) pin(2) by (simp add: add_pin_def)
    have "MapCacheHash t (r, f, b) = Some i" using t(3) u(2) assms(4) by simp
    from unpin_then_lookup [OF inv_t(1) slack assms(3) this t(4) refl] show ?case
      using pin_inv_unpin(3) [OF inv_t(1) slack] put [OF t(3,2)] t(2) len by (simp add: wpU_def Let_def)
  qed (simp add: u i)
qed

text \<open>The page of the first blocks of a relation in the only slot of a cache, with nothing mapped.\<close>

definition demo_page :: map_buf where
  "demo_page = demo_empty\<lparr>MapBuffers := [(init_buf 1 0)\<lparr>buf_rnode := locator demo_rloc, buf_forknum := MAIN_FORKNUM,
       page_number := Some 3\<rparr>],
     MapPageData := [unmapped_page], MapCacheHash := [(locator demo_rloc, MAIN_FORKNUM, 3) \<mapsto> 0]\<rparr>"

theorem MapSetMapping_refines_witness:
  "\<exists>t. MapSetMapping 0 (locator demo_rloc) MAIN_FORKNUM 0 77 5 demo_page = (Inr (), t) \<and>
     (\<exists>u. MapTryLookup 0 (locator demo_rloc) MAIN_FORKNUM 0 t = (Inr (Some 77), u)) \<and>
     cached_entry t (locator demo_rloc) MAIN_FORKNUM 1 = Some InvalidBlockNumber"
proof -
  let ?r = "locator demo_rloc"
  have b: "MapBuffers demo_page = [(init_buf 1 0)\<lparr>buf_rnode := ?r, buf_forknum := MAIN_FORKNUM, page_number := Some 3\<rparr>]"
      "MapCacheHash demo_page = [(?r, MAIN_FORKNUM, 3) \<mapsto> 0]" "MyBackend demo_page = MapBackendInit"
      "MapPageData demo_page = [unmapped_page]"
    by (simp_all add: demo_page_def demo_empty_fields)
  have "cache_ok demo_page" by (auto simp: cache_ok_def b buf_has_tag_def init_buf_def)
  moreover have "\<not> pending_at (MapBuffers demo_page ! 0) k" if "k < 2048" for k
    using that by (simp add: b pending_at_def init_buf_def MAP_PENDING_BITMAP_WORDS_def MAP_PENDING_BITS_PER_WORD_def nth_replicate)
  then have "claims_ok [] demo_page" by (simp add: claims_ok_alt b count_ok_def init_buf_def)
  ultimately have inv: "pin_inv (\<lambda>_. 0) [] demo_page"
    by (simp add: pin_inv_def b init_buf_def own_count_def rc_def us_def MapBackendInit_def)
  have full: "pages_full demo_page" by (simp add: pages_full_def b unmapped_page_def)
  have dec: "MapInflightDecode MAIN_FORKNUM 1 = Inr (3, 1)" by (simp add: MapInflightDecode_nat)
  have e: "cached_entry demo_page ?r MAIN_FORKNUM 1 = Some InvalidBlockNumber"
    by (simp add: cached_entry_def dec b unmapped_page_def nth_replicate BLOCK_WORDS_def BLCKSZ_def)
  have "MapReadBuffer 0 ?r MAIN_FORKNUM 3 demo_page = (Inr 0, pin_slot 0 True demo_page)"
    using MapReadBuffer_hit [of demo_page ?r MAIN_FORKNUM 3 0 0] inv
    by (simp add: pin_inv_def b init_buf_def rc_def MAP_BLOCK_SUPER_def)
  then have run: "fst (MapSetMapping 0 ?r MAIN_FORKNUM 0 77 5 demo_page) = Inr ()"
    by (simp add: MapSetMapping_def demo_decode liftU_def bindU_def runU set_page_entry_def resolve_lsn_def InvalidXLogRecPtr_def
        MapMarkBufferDirty_def MapEnsureBufferMaterialized_def getB_def MapBufferUpdateStateBits_def MapUnpinBuffer_run
        pin_slot_def upd_backend_def upd_buf_def b init_buf_def pin_word_def pin_private_def whenU_def mapbuf_bits rc_def us_def)
  show ?thesis
    using MapSetMapping_refines [OF inv full demo_decode, of ?r 0 0 77 5] run e
    by (cases "MapSetMapping 0 ?r MAIN_FORKNUM 0 77 5 demo_page") (auto simp: wpU_def b InvalidBlockNumber_def)
qed

section \<open>Changes during output\<close>

lemma fl_bit: "14 \<le> n \<Longrightarrow> bit st n = bit (fl st) (n - 14)"
  using bit_drop_bit_eq [of 14 "unat st"]
  by (simp add: fl_def bit_unsigned_iff fun_eq_iff drop_bit_eq_div)

lemma terminate_bits:
  "terminate_state True 0 st AND MAPBUF_DIRTY \<noteq> 0 \<longleftrightarrow> bit st 14 \<and> bit st 17"
  "terminate_state True 0 st AND MAPBUF_IO_IN_PROGRESS = 0"
proof -
  have "bit MAPBUF_DIRTY 14" "\<not> bit MAPBUF_IO_IN_PROGRESS 14" "\<not> bit MAPBUF_IO_ERROR 14" "\<not> bit MAPBUF_CHECKPOINT_NEEDED 14"
    by (simp_all add: mapbuf_bits)
  then show "terminate_state True 0 st AND MAPBUF_DIRTY \<noteq> 0 \<longleftrightarrow> bit st 14 \<and> bit st 17"
    unfolding dirty_bit by (auto simp: terminate_state_def Let_def just_dirtied_bit bit_and_iff bit_not_iff bit_or_iff)
  show "terminate_state True 0 st AND MAPBUF_IO_IN_PROGRESS = 0"
    by (rule bit_word_eqI) (auto simp: terminate_state_def Let_def bit_and_iff bit_not_iff bit_or_iff)
qed

lemma MapStartBufferIO_slot:
  assumes "MapStartBufferIO i req s = (Inr True, t)"
  shows "num_slots t = num_slots s" "i < num_slots s \<Longrightarrow> \<not> bit (buf_state (MapBuffers t ! i)) 17"
proof -
  have t: "t = upd_backend (\<lambda>me. me\<lparr>InProgressMapBuf := Some i\<rparr>) (upd_buf i (\<lambda>b. b\<lparr>buf_state :=
      (buf_state b OR MAPBUF_IO_IN_PROGRESS) AND NOT (MAPBUF_IO_ERROR OR MAPBUF_JUST_DIRTIED)\<rparr>) s)"
    using assms by (auto simp: MapStartBufferIO_def MapWaitIO_def getB_def bindU_def runU whenU_def
        MapBufferUpdateStateBits_def split: if_splits)
  show "num_slots t = num_slots s" by (simp add: t)
  show "i < num_slots s \<Longrightarrow> \<not> bit (buf_state (MapBuffers t ! i)) 17"
    by (simp add: t nth_upd_buf bit_and_iff bit_not_iff bit_or_iff) (simp add: mapbuf_bits)
qed

text \<open>C8: When the output of a MAP page ends, the page is clean if nobody changed it since the output began, and
  stays dirty if somebody did, however often it was pinned and unpinned meanwhile: no change is lost.\<close>

theorem dirty_during_io_kept:
  assumes "i < num_slots s" and "MapStartBufferIO i 0 s = (Inr True, s1)"
    and "MapMarkBufferDirty c i lsn (run_as me s1) = (Inr (), s2)" and "i < num_slots u"
  shows "\<exists>t. MapTerminateBufferIO i True 0 u = (Inr (), t) \<and> buf_state (MapBuffers t ! i) AND MAPBUF_IO_IN_PROGRESS = 0 \<and>
     (fl (buf_state (MapBuffers u ! i)) = fl (buf_state (MapBuffers s1 ! i)) \<longrightarrow>
        buf_state (MapBuffers t ! i) AND MAPBUF_DIRTY = 0) \<and>
     (fl (buf_state (MapBuffers u ! i)) = fl (buf_state (MapBuffers s2 ! i)) \<longrightarrow>
        buf_state (MapBuffers t ! i) AND MAPBUF_DIRTY \<noteq> 0)"
proof -
  have s1: "num_slots s1 = num_slots s" "\<not> bit (buf_state (MapBuffers s1 ! i)) 17"
    using assms(1) MapStartBufferIO_slot [OF assms(2)] by simp_all
  have s2: "bit (buf_state (MapBuffers s2 ! i)) 14" "bit (buf_state (MapBuffers s2 ! i)) 17"
    using MapMarkBufferDirty_wp [of i "run_as me s1" c lsn] assms(1,3) s1(1) by (simp_all add: wpU_def dirty_bit)
  have bits: "fl st = fl (buf_state (MapBuffers s1 ! i)) \<Longrightarrow> \<not> bit st 17"
      "fl st = fl (buf_state (MapBuffers s2 ! i)) \<Longrightarrow> bit st 14 \<and> bit st 17" for st
    using s1(2) s2 unfolding fl_bit [of 14, OF order_refl] fl_bit [of 17, simplified] by simp_all
  obtain t where t: "MapTerminateBufferIO i True 0 u = (Inr (), t)"
      "buf_state (MapBuffers t ! i) = terminate_state True 0 (buf_state (MapBuffers u ! i))"
    using assms(4) by (simp add: MapTerminateBufferIO_def bindU_def runU nth_upd_buf)
  show ?thesis
    unfolding t(1) using terminate_bits [of "buf_state (MapBuffers u ! i)"] bits [of "buf_state (MapBuffers u ! i)"] t(2)
    by (intro exI [of _ t] conjI impI) auto
qed

theorem dirty_during_io_kept_witness:
  "\<exists>s1 s2 t. MapStartBufferIO 0 0 (demo_page\<lparr>MapBuffers := [(MapBuffers demo_page ! 0)\<lparr>buf_state := MAPBUF_DIRTY\<rparr>]\<rparr>) =
       (Inr True, s1) \<and>
     MapMarkBufferDirty 0 0 9 (run_as MapBackendInit s1) = (Inr (), s2) \<and>
     MapTerminateBufferIO 0 True 0 s2 = (Inr (), t) \<and> buf_state (MapBuffers t ! 0) AND MAPBUF_DIRTY \<noteq> 0"
proof -
  let ?s = "demo_page\<lparr>MapBuffers := [(MapBuffers demo_page ! 0)\<lparr>buf_state := MAPBUF_DIRTY\<rparr>]\<rparr>"
  obtain s1 where s1: "MapStartBufferIO 0 0 ?s = (Inr True, s1)"
      "MapBuffers s1 = [(MapBuffers demo_page ! 0)\<lparr>buf_state := 0xC000\<rparr>]"
    by (simp add: MapStartBufferIO_def MapWaitIO_def getB_def bindU_def runU whenU_def MapBufferUpdateStateBits_def
        upd_buf_def mapbuf_bits)
  have pn: "page_number (MapBuffers demo_page ! 0) = Some 3" by (simp add: demo_page_def)
  obtain s2 where s2: "MapMarkBufferDirty 0 0 9 (run_as MapBackendInit s1) = (Inr (), s2)" "num_slots s2 = 1"
    by (simp add: MapMarkBufferDirty_def MapEnsureBufferMaterialized_def getB_def bindU_def runU whenU_def
        MapBufferUpdateStateBits_def upd_buf_def mapbuf_bits s1(2) pn MAP_BLOCK_SUPER_def)
  show ?thesis
    using dirty_during_io_kept [OF _ s1(1) s2(1), of s2] s1(1) s2 by auto
qed

end
