(* ===== verification/MapReserve.thy ===== *)
theory MapReserve
  imports MapSystem MapSuperProps
begin

text \<open>
  Reserving physical blocks. The shared entry of a relation holds a reservation frontier per fork;
  \<^verbatim>\<open>MapTryReserveFreshPblkno\<close> hands out the frontier and moves it on. Interleaved with anything that never
  moves the frontier back, the blocks handed out increase, so none is handed out twice.
\<close>

section \<open>The reservation frontier\<close>

definition frontier :: "'x map_super_scheme \<Rightarrow> RelFileLocator \<Rightarrow> ForkNumber \<Rightarrow> BlockNumber option" where
  "frontier s r f = (case super_lookup s r of
     None \<Rightarrow> None
   | Some e \<Rightarrow> (case MapSuperGetReservedNextFree e f of Inl _ \<Rightarrow> None | Inr n \<Rightarrow> Some n))"

lemma super_ok_link:
  assumes ok: "super_ok s" and i: "owns (MapSuperEntries s) i r" and e: "same_link (MapSuperEntries s ! i) e'"
  shows "super_ok (upd_entry i (\<lambda>_. e') s)" "super_lookup (upd_entry i (\<lambda>_. e') s) r = Some e'"
proof -
  define g where "g e = (if e = MapSuperEntries s ! i then e' else e)" for e
  have g: "upd_entry i g s = upd_entry i (\<lambda>_. e') s" by (simp add: upd_entry_def g_def)
  have "super_ok (upd_entry i g s)"
    using ok e by (intro super_ok_upd_entry) (auto simp: g_def same_link_def)
  then show ok': "super_ok (upd_entry i (\<lambda>_. e') s)" by (simp add: g)
  then have "entries_ok (MapSuperEntries (upd_entry i (\<lambda>_. e') s)) (free_head (upd_entry i (\<lambda>_. e') s))"
    by (simp add: super_ok_def)
  from owns_super_lookup [OF this owns_upd_entry(1) [OF i e]]
  show "super_lookup (upd_entry i (\<lambda>_. e') s) r = Some e'"
    using owns_upd_entry(2) [OF i e] by simp
qed

lemma frontier_backend [simp]: "frontier (upd_backend h s) r f = frontier s r f" "super_ok (upd_backend h s) = super_ok s"
proof -
  have "MapSuperEntries (upd_backend h s) = MapSuperEntries s" by (simp add: upd_backend_def)
  then show "frontier (upd_backend h s) r f = frontier s r f"
    by (simp add: frontier_def super_lookup_def)
  show "super_ok (upd_backend h s) = super_ok s" by (simp add: super_ok_def upd_backend_def)
qed

lemma find_reserve:
  assumes ok: "super_ok s"
    and x: "(if nowait then MapSuperFindEntryTryLocked busy r else MapSuperFindEntryLocked r) s = (Inr (Some i), t)"
  shows "t = s \<and> owns (MapSuperEntries s) i r"
proof -
  have "fst (super_slot_lookup s r) = Some i" "t = s"
    using x by (auto simp: find_run MapSuperFindEntryTryLocked_def super_slot_lookup_def getU_def Let_def split: if_splits option.splits)
  then show ?thesis using lookup_spec [OF ok, of r] by (auto split: option.splits)
qed

lemma reserve_cases:
  assumes ok: "super_ok s" and run: "reserve_from_entry r f l nowait busy s = (Inr (Some p), t)"
  obtains i e' h where "owns (MapSuperEntries s) i r" "MapSuperGetReservedNextFree (MapSuperEntries s ! i) f = Inr p"
    "p \<noteq> InvalidBlockNumber - 1" "MapSuperSetReservedNextFree (MapSuperEntries s ! i) f (p + 1) = Inr e'"
    "t = upd_backend h (upd_entry i (\<lambda>_. e') s)"
proof -
  let ?find = "if nowait then MapSuperFindEntryTryLocked busy r else MapSuperFindEntryLocked r"
  obtain found u where find: "?find s = (Inr found, u)"
    using run by (auto simp: reserve_from_entry_def bindU_eq_Inr)
  obtain i where found: "found = Some i"
    using run find by (cases found) (auto simp: reserve_from_entry_def bindU_def runU)
  note own = find_reserve [OF ok find [unfolded found]]
  let ?e = "MapSuperEntries s ! i"
  have e: "getE i s = (Inr ?e, s)" by (simp add: getE_def getU_def MapSuperEntryBySlot_def)
  have fin: "MapInflightFinishClaim r f l q v = (Inr (), w) \<Longrightarrow> \<exists>h. w = upd_backend h v" for q v w
    by (auto simp: MapInflightFinishClaim_def bindU_def runU split: option.splits)
  have rest: "(if entry_untrusted ?e
       then (if \<not> InRecovery s then MapSBlockReportCorrupt r else returnU None)
       else bindU (liftU (MapSuperGetReservedNextFree ?e f)) (\<lambda>nxt.
         if nxt = InvalidBlockNumber - 1 then throwU (ERROR, E_PROGRAM_LIMIT)
         else bindU (updE i (\<lambda>e. MapSuperSetReservedNextFree e f (nxt + 1))) (\<lambda>_.
              bindU (MapInflightFinishClaim r f l nxt) (\<lambda>_. returnU (Some nxt))))) s = (Inr (Some p), t)"
    using run find own found e by (simp add: reserve_from_entry_def bindU_def runU getU_def)
  then have "\<not> entry_untrusted ?e" by (auto simp: MapSBlockReportCorrupt_def runU split: if_splits)
  with rest show thesis
    by (auto simp: bindU_eq_Inr liftU_def runU updE_def MapSuperEntryBySlot_def dest!: fin
        intro!: that [OF conjunct2 [OF own]] split: if_splits sum.splits)
qed

lemma reserve_step:
  assumes ok: "super_ok s" and run: "reserve_from_entry r f l nowait busy s = (Inr (Some p), t)"
    and top: "frontier s r f \<noteq> Some InvalidBlockNumber"
  shows "frontier s r f = Some p" "super_ok t" "frontier t r f = Some (p + 1)" "p < p + 1" "p + 1 \<noteq> InvalidBlockNumber"
proof -
  obtain i e' h where i: "owns (MapSuperEntries s) i r" "MapSuperGetReservedNextFree (MapSuperEntries s ! i) f = Inr p"
    "p \<noteq> InvalidBlockNumber - 1" "MapSuperSetReservedNextFree (MapSuperEntries s ! i) f (p + 1) = Inr e'"
    "t = upd_backend h (upd_entry i (\<lambda>_. e') s)"
    by (rule reserve_cases [OF ok run])
  have "super_lookup s r = Some (MapSuperEntries s ! i)"
    using ok i(1) owns_super_lookup unfolding super_ok_def by blast
  then show p: "frontier s r f = Some p" by (simp add: frontier_def i(2))
  then have "p \<noteq> InvalidBlockNumber" using top by simp
  then have "unat p \<noteq> 4294967295" "unat p \<noteq> 4294967294"
    using i(3) by (simp_all add: InvalidBlockNumber_def u32_eq_iff_unat)
  then have "unat p < 4294967294" using unat_u32_bound [of p] by linarith
  then show "p < p + 1" "p + 1 \<noteq> InvalidBlockNumber"
    by (simp_all add: InvalidBlockNumber_def u32_eq_iff_unat word_less_nat_alt unat_word_ariths)
  then have norm: "MapNormalizeForkBlockCount f (p + 1) = p + 1" by (simp add: MapNormalizeForkBlockCount_def)
  have link: "same_link (MapSuperEntries s ! i) e'"
    using i(4) by (cases f) (auto simp: MapSuperSetReservedNextFree_def same_link_def)
  note upd = super_ok_link [OF ok i(1) link]
  have "MapSuperGetReservedNextFree e' f = Inr (p + 1)"
    using reserved.get_set [OF i(4) [unfolded MapSuperSetReservedNextFree_def norm], of f] by simp
  then show "frontier t r f = Some (p + 1)" unfolding i(5) frontier_backend by (simp add: frontier_def upd(2))
  show "super_ok t" unfolding i(5) frontier_backend by (rule upd(1))
qed

text \<open>Reservations of one fork, in any order with steps that keep the table well formed and do not move the frontier
  of the fork back.\<close>

inductive reserving :: "RelFileLocator \<Rightarrow> ForkNumber \<Rightarrow> BlockNumber list \<Rightarrow> 'x map_buf_scheme \<Rightarrow> bool"
  for r f where
  start: "super_ok s \<Longrightarrow> frontier s r f \<noteq> Some InvalidBlockNumber \<Longrightarrow> reserving r f [] s"
| reserve: "reserving r f ps s \<Longrightarrow> reserve_from_entry r f l nowait busy s = (Inr (Some p), t) \<Longrightarrow> reserving r f (ps @ [p]) t"
| other: "reserving r f ps s \<Longrightarrow> super_ok t \<Longrightarrow> frontier s r f = Some n \<Longrightarrow> frontier t r f = Some n' \<Longrightarrow>
    n \<le> n' \<Longrightarrow> n' \<noteq> InvalidBlockNumber \<Longrightarrow> reserving r f ps t"

text \<open>C2: No physical block of a fork is reserved twice: the blocks handed out by successive reservations increase
  strictly and stay below the frontier, whatever else happens in between that does not move the frontier
  back.\<close>

theorem reservations_increase:
  assumes "reserving r f ps s"
  shows "sorted_wrt (<) ps \<and> (\<forall>p\<in>set ps. \<exists>n. frontier s r f = Some n \<and> p < n)"
proof -
  have "super_ok s \<and> frontier s r f \<noteq> Some InvalidBlockNumber \<and>
      sorted_wrt (<) ps \<and> (\<forall>p\<in>set ps. \<exists>n. frontier s r f = Some n \<and> p < n)"
    using assms
  proof induction
    case (reserve ps s l nowait busy p t)
    then show ?case
      using reserve_step [OF _ reserve(2)] by (fastforce simp: sorted_wrt_append intro: less_trans)
  qed (auto intro: less_le_trans)
  then show ?thesis by blast
qed

section \<open>A concrete run\<close>

lemma reserve_run:
  assumes ok: "super_ok s" and own: "owns (MapSuperEntries s) i r" and trust: "\<not> entry_untrusted (MapSuperEntries s ! i)"
    and n: "MapSuperGetReservedNextFree (MapSuperEntries s ! i) f = Inr n" "n \<noteq> InvalidBlockNumber - 1"
    and local: "MapInflightLocalFind r f l (MapInflightLocalEntries (MyBackend s)) = Some k"
    and e': "MapSuperSetReservedNextFree (MapSuperEntries s ! i) f (n + 1) = Inr e'"
  shows "reserve_from_entry r f l False False s = (Inr (Some n), upd_backend (\<lambda>me. me\<lparr>MapInflightLocalEntries :=
     (MapInflightLocalEntries me)[k := (MapInflightLocalEntries me ! k)\<lparr>inf_pblkno := n\<rparr>]\<rparr>) (upd_entry i (\<lambda>_. e') s))"
proof -
  have uniq: "\<forall>j. owns (MapSuperEntries s) j r \<longrightarrow> j = i"
    using ok own unfolding super_ok_def entries_ok_def by blast
  obtain x where x: "MapSuperFindEntryLocked r s = (Inr x, s)" by (simp add: find_run)
  moreover have "x \<noteq> None"
    using lookup_spec [OF ok, of r] own x by (auto simp: find_run split: option.splits)
  ultimately have "MapSuperFindEntryLocked r s = (Inr (Some i), s)"
    using find_reserve [OF ok, of False False r] uniq by fastforce
  moreover have "MyBackend (upd_entry i (\<lambda>_. e') s) = MyBackend s" by (simp add: upd_entry_def)
  ultimately show ?thesis
    using trust n local e' by (simp add: reserve_from_entry_def bindU_def getE_def runU MapSuperEntryBySlot_def updE_def
        MapInflightFinishClaim_def)
qed

definition demo_claim :: "BlockNumber \<Rightarrow> MapInflightLocalEntry" where
  "demo_claim l = \<lparr>inf_rnode = locator demo_rloc, inf_forknum = MAIN_FORKNUM, inf_lblkno = l,
     inf_pblkno = InvalidBlockNumber, inf_slot_id = 0, inf_entry_idx = unat l\<rparr>"

theorem reservations_increase_witness:
  "\<exists>ps s. reserving (locator demo_rloc) MAIN_FORKNUM ps (s :: map_buf) \<and> length ps = 2 \<and> sorted_wrt (<) ps"
proof -
  let ?r = "locator demo_rloc"
  obtain i where i: "trusted demo_cached ?r i" using demo_cached(2) by blast
  let ?e = "\<lambda>n. (MapSuperEntries demo_cached ! i)\<lparr>reserved_next_free_main := n\<rparr>"
  define s0 where "s0 = map_sb.extend (upd_entry i (\<lambda>_. ?e 7) demo_cached) (map_buf.fields [] [] Map.empty 0 FREENEXT_END
        None None [] 0 0 0 0 0 0 (MapBackendInit\<lparr>MapInflightLocalEntries := [demo_claim 0, demo_claim 1]\<rparr>))"
  have own: "owns (MapSuperEntries demo_cached) i ?r" "\<not> entry_untrusted (MapSuperEntries demo_cached ! i)"
    using i by (simp_all add: trusted_def)
  have "super_ok demo_cached" using demo_cached(1) by (simp add: sb_inv_def sb_ok_def)
  note link = super_ok_link [OF this own(1), of "?e 7"] owns_upd_entry [OF own(1), of "?e 7"]
  have s0: "super_ok s0" "owns (MapSuperEntries s0) i ?r" "MapSuperEntries s0 ! i = ?e 7"
      "MapInflightLocalEntries (MyBackend s0) = [demo_claim 0, demo_claim 1]"
    using link by (simp_all add: s0_def map_sb.defs map_buf.defs super_ok_def same_link_def)
  have trust: "\<not> entry_untrusted (?e n)" for n using own(2) by (simp add: entry_untrusted_def)
  have "super_lookup s0 ?r = Some (?e 7)"
    using owns_super_lookup [OF _ s0(2)] s0(1,3) by (auto simp: super_ok_def)
  then have front: "frontier s0 ?r MAIN_FORKNUM = Some 7" by (simp add: frontier_def)
  have find: "MapInflightLocalFind ?r MAIN_FORKNUM 0 [demo_claim 0, c] = Some 0"
      "MapInflightLocalFind ?r MAIN_FORKNUM 1 [(demo_claim 0)\<lparr>inf_pblkno := n\<rparr>, demo_claim 1] = Some 1" for c n
    by (simp_all add: MapInflightLocalFind_def inf_matches_def demo_claim_def)
  obtain t1 where t1: "reserve_from_entry ?r MAIN_FORKNUM 0 False False s0 = (Inr (Some 7), t1)"
      "owns (MapSuperEntries t1) i ?r" "MapSuperEntries t1 ! i = ?e 8"
      "MapInflightLocalEntries (MyBackend t1) = [(demo_claim 0)\<lparr>inf_pblkno := 7\<rparr>, demo_claim 1]"
    using reserve_run [OF s0(1,2), of MAIN_FORKNUM 7 0 0 "?e 8"] s0 trust find owns_upd_entry [OF s0(2), of "?e 8"]
    by (simp add: same_link_def InvalidBlockNumber_def MapSuperSetReservedNextFree_def MapNormalizeForkBlockCount_def
        upd_backend_def upd_entry_def)
  have "super_ok t1" by (rule reserve_step(2) [OF s0(1) t1(1)]) (simp add: front InvalidBlockNumber_def)
  then obtain t2 where t2: "reserve_from_entry ?r MAIN_FORKNUM 1 False False t1 = (Inr (Some 8), t2)"
    using reserve_run [OF _ t1(2), of MAIN_FORKNUM 8 1 1 "?e 9"] t1 trust find
    by (simp add: InvalidBlockNumber_def MapSuperSetReservedNextFree_def MapNormalizeForkBlockCount_def)
  have "reserving ?r MAIN_FORKNUM [] s0"
    using s0(1) front by (intro reserving.start) (simp_all add: InvalidBlockNumber_def)
  from reserving.reserve [OF reserving.reserve [OF this t1(1)] t2] have run: "reserving ?r MAIN_FORKNUM [7, 8] t2" by simp
  show ?thesis using reservations_increase [OF run] run by (intro exI [of _ "[7, 8]"] exI [of _ t2]) simp
qed

end
