(* ===== verification/UmbraXLog.thy ===== *)
theory UmbraXLog
  imports UmbraRedo
begin

text \<open>
  Block remaps owned by WAL records: the construction of a record in
  \<^verbatim>\<open>src/backend/access/transam/xloginsert.c\<close> as far as it concerns remaps (\<^verbatim>\<open>XLogRecordAssembleUmbra\<close>,
  \<^verbatim>\<open>XLogCommitBlockRemapsUmbra\<close>, \<^verbatim>\<open>XLogAbortBlockRemapsUmbra\<close>, \<^verbatim>\<open>XLogInsert\<close>), the capture of the
  physical block a checkpoint has to write (\<^verbatim>\<open>src/backend/storage/buffer/bufmgr.c\<close>), and the replay of a
  block reference (\<^verbatim>\<open>XLogReadBufferForRedoExtendedUmbra\<close> of \<^verbatim>\<open>xlogutils.c\<close>). A record is the list of its
  decoded block references; its bytes, the page images and their compression are not modelled, and of a
  registered page only its LSN is.
\<close>

section \<open>State\<close>

record registered_buffer =
  rb_in_use :: bool
  rb_flags :: "8 word"
  rb_rlocator :: RelFileLocator
  rb_forkno :: ForkNumber
  rb_block :: BlockNumber
  rb_page_lsn :: XLogRecPtr
  rb_rdata_len :: u32
  rb_buffer :: int
  has_remap :: bool
  remap_in_record :: bool
  remap_committed :: bool
  wal_owns_firstborn :: bool
  remap_reln :: "RelFileLocatorBackend option"
  rb_old_pblkno :: BlockNumber
  rb_new_pblkno :: BlockNumber
  remap_logical_nblocks :: BlockNumber
  remap_next_free_pblkno :: BlockNumber

definition REGBUF_FORCE_IMAGE :: "8 word" where "REGBUF_FORCE_IMAGE = 0x01"
definition REGBUF_NO_IMAGE :: "8 word" where "REGBUF_NO_IMAGE = 0x02"
definition REGBUF_WILL_INIT :: "8 word" where "REGBUF_WILL_INIT = 0x06"
definition REGBUF_KEEP_DATA :: "8 word" where "REGBUF_KEEP_DATA = 0x10"
definition REGBUF_LOGICAL_BIRTH :: "8 word" where "REGBUF_LOGICAL_BIRTH = 0x40"

record XLogRecordBlockRemapHeader =
  rbmh_old_pblkno :: BlockNumber
  rbmh_new_pblkno :: BlockNumber
  rbmh_logical_nblocks :: BlockNumber
  rbmh_next_free_pblkno :: BlockNumber

record DecodedBkpBlock =
  blk_id :: nat
  blk_rlocator :: RelFileLocator
  blk_forknum :: ForkNumber
  blk_blkno :: BlockNumber
  blk_will_init :: bool
  blk_same_rel :: bool
  blk_remap :: "XLogRecordBlockRemapHeader option"
  blk_has_image :: bool
  blk_apply_image :: bool
  blk_has_data :: bool

text \<open>The checkpointer's capture state: the epoch word and, per shared buffer, whether it is to be written, the
  epoch of the saved block and the block.\<close>

record um_xlog = um_smgr +
  registered_buffers :: "registered_buffer list"
  max_registered_block_id :: nat
  curinsert_has_block_remap :: bool
  begininsert_called :: bool
  XLogBlockRecords :: "(DecodedBkpBlock list \<times> XLogRecPtr) list"
  CkptBufferPblkCaptureEpoch :: u32
  buf_checkpoint_needed :: "int \<Rightarrow> bool"
  CkptBufferPblks :: "int \<Rightarrow> BlockNumber"
  CkptBufferPblkEpochs :: "int \<Rightarrow> u32"
  invalid_page_tab :: "(RelFileLocator \<times> ForkNumber \<times> BlockNumber \<times> bool) list"
  reachedConsistency :: bool
  ignore_invalid_pages :: bool

definition upd_regbuf :: "nat \<Rightarrow> (registered_buffer \<Rightarrow> registered_buffer) \<Rightarrow> ('x um_xlog_scheme, unit) um" where
  "upd_regbuf i g = modifyU (\<lambda>s. s\<lparr>registered_buffers := (registered_buffers s)[i := g (registered_buffers s ! i)]\<rparr>)"

definition get_regbuf :: "nat \<Rightarrow> ('x um_xlog_scheme, registered_buffer) um" where
  "get_regbuf i = getU (\<lambda>s. registered_buffers s ! i)"

section \<open>The physical block of a buffer at the start of a checkpoint\<close>

definition CKPT_BUFFER_PBLK_EPOCH_ACTIVE :: u32 where "CKPT_BUFFER_PBLK_EPOCH_ACTIVE = 0x80000000"
definition CKPT_BUFFER_PBLK_EPOCH_MASK :: u32 where "CKPT_BUFFER_PBLK_EPOCH_MASK = 0x7FFFFFFF"

definition CkptBufferPblkActiveEpoch :: "('x um_xlog_scheme, u32) um" where
  "CkptBufferPblkActiveEpoch = getU (\<lambda>s.
     if CkptBufferPblkCaptureEpoch s AND CKPT_BUFFER_PBLK_EPOCH_ACTIVE = 0 then 0
     else CkptBufferPblkCaptureEpoch s AND CKPT_BUFFER_PBLK_EPOCH_MASK)"

definition CheckPointBuffersPblkCaptureBegin :: "('x um_xlog_scheme, unit) um" where
  "CheckPointBuffersPblkCaptureBegin = modifyU (\<lambda>s.
     let epoch = (CkptBufferPblkCaptureEpoch s AND CKPT_BUFFER_PBLK_EPOCH_MASK) + 1;
         epoch = (if epoch = 0 \<or> epoch > CKPT_BUFFER_PBLK_EPOCH_MASK then 1 else epoch)
     in s\<lparr>CkptBufferPblkCaptureEpoch := CKPT_BUFFER_PBLK_EPOCH_ACTIVE OR epoch\<rparr>)"

definition CheckPointBuffersPblkCaptureEnd :: "('x um_xlog_scheme, unit) um" where
  "CheckPointBuffersPblkCaptureEnd = modifyU (\<lambda>s.
     s\<lparr>CkptBufferPblkCaptureEpoch := CkptBufferPblkCaptureEpoch s AND CKPT_BUFFER_PBLK_EPOCH_MASK\<rparr>)"

definition ClearCheckpointBufferPblk :: "int \<Rightarrow> ('x um_xlog_scheme, unit) um" where
  "ClearCheckpointBufferPblk buf = modifyU (\<lambda>s. s\<lparr>CkptBufferPblks := (CkptBufferPblks s)(buf := InvalidBlockNumber),
     CkptBufferPblkEpochs := (CkptBufferPblkEpochs s)(buf := 0)\<rparr>)"

text \<open>A buffer number is positive for a shared buffer, negative for a local one and 0 for none.\<close>

definition BufferSaveCheckpointPblk :: "int \<Rightarrow> BlockNumber \<Rightarrow> ('x um_xlog_scheme, unit) um" where
  "BufferSaveCheckpointPblk buffer checkpoint_pblk =
     (if buffer \<le> 0 \<or> checkpoint_pblk = InvalidBlockNumber then returnU ()
      else
        bindU CkptBufferPblkActiveEpoch (\<lambda>epoch.
          if epoch = 0 then returnU ()
          else
            bindU (getU id) (\<lambda>s.
              if \<not> buf_checkpoint_needed s buffer then returnU ()
              else if CkptBufferPblkEpochs s buffer = epoch \<and> CkptBufferPblks s buffer \<noteq> InvalidBlockNumber
              then returnU ()
              else modifyU (\<lambda>s. s\<lparr>CkptBufferPblks := (CkptBufferPblks s)(buffer := checkpoint_pblk),
                     CkptBufferPblkEpochs := (CkptBufferPblkEpochs s)(buffer := epoch)\<rparr>))))"

definition GetSavedCheckpointPblk :: "int \<Rightarrow> ('x um_xlog_scheme, BlockNumber option) um" where
  "GetSavedCheckpointPblk buf = getU (\<lambda>s.
     let checkpoint_epoch = CkptBufferPblkCaptureEpoch s AND CKPT_BUFFER_PBLK_EPOCH_MASK in
     if checkpoint_epoch = 0 then None
     else if buf_checkpoint_needed s buf \<and> CkptBufferPblkEpochs s buf = checkpoint_epoch \<and>
             CkptBufferPblks s buf \<noteq> InvalidBlockNumber
     then Some (CkptBufferPblks s buf) else None)"

section \<open>Registering blocks\<close>

definition smgrbumpcachednblocks ::
  "RelFileLocatorBackend \<Rightarrow> ForkNumber \<Rightarrow> BlockNumber \<Rightarrow> ('x um_smgr_scheme, unit) um" where
  "smgrbumpcachednblocks reln f nblocks =
     bindU (getU InRecovery) (\<lambda>rec.
     bindU (umnblocks_cached reln f) (\<lambda>cached.
     bindU (if rec \<and> cached = InvalidBlockNumber
            then bindU (umnblocks reln f) (\<lambda>authoritative.
                 returnU (if authoritative > nblocks then authoritative else nblocks))
            else returnU nblocks) (\<lambda>nblocks.
     bindU (umnblocks_cached reln f) (\<lambda>cached.
     whenU (cached = InvalidBlockNumber \<or> cached < nblocks)
       (modifyU (\<lambda>s. s\<lparr>smgr_cached_nblocks := (smgr_cached_nblocks s)(reln := (smgr_cached_nblocks s reln)(f := nblocks))\<rparr>))))))"

definition fresh_regbuf :: "registered_buffer \<Rightarrow> registered_buffer" where
  "fresh_regbuf b = b\<lparr>has_remap := False, remap_in_record := False, remap_committed := False,
     wal_owns_firstborn := False, remap_reln := None, rb_old_pblkno := InvalidBlockNumber,
     rb_new_pblkno := InvalidBlockNumber, remap_logical_nblocks := InvalidBlockNumber,
     remap_next_free_pblkno := InvalidBlockNumber\<rparr>"

definition XLogBeginInsert :: "('x um_xlog_scheme, unit) um" where
  "XLogBeginInsert =
     bindU (getU XLogInsertAllowed) (\<lambda>allowed.
       if \<not> allowed then throwU (ERROR, E_INTERNAL)
       else
         bindU (getU begininsert_called) (\<lambda>called.
           if called then throwU (ERROR, E_INTERNAL)
           else modifyU (\<lambda>s. s\<lparr>begininsert_called := True\<rparr>)))"

text \<open>The tag and the LSN of the buffer's page are arguments.\<close>

definition XLogRegisterBuffer ::
  "nat \<Rightarrow> int \<Rightarrow> RelFileLocator \<times> ForkNumber \<times> BlockNumber \<Rightarrow> XLogRecPtr \<Rightarrow> 8 word \<Rightarrow> ('x um_xlog_scheme, unit) um" where
  "XLogRegisterBuffer block_id buffer = (\<lambda>(rnode, f, blk) plsn fls.
     bindU (getU id) (\<lambda>s.
       if block_id \<ge> max_registered_block_id s \<and> block_id \<ge> length (registered_buffers s)
       then throwU (ERROR, E_INTERNAL)
       else
         bindU (modifyU (\<lambda>s. s\<lparr>max_registered_block_id := max (max_registered_block_id s) (Suc block_id)\<rparr>)) (\<lambda>_.
         upd_regbuf block_id (\<lambda>b. fresh_regbuf (b\<lparr>rb_rlocator := rnode, rb_forkno := f, rb_block := blk,
           rb_page_lsn := plsn, rb_flags := fls, rb_rdata_len := 0, rb_buffer := buffer, rb_in_use := True\<rparr>)))))"

definition XLogRegisterBlock ::
  "nat \<Rightarrow> RelFileLocator \<Rightarrow> ForkNumber \<Rightarrow> BlockNumber \<Rightarrow> XLogRecPtr \<Rightarrow> 8 word \<Rightarrow> ('x um_xlog_scheme, unit) um" where
  "XLogRegisterBlock block_id rnode f blk plsn fls =
     bindU (modifyU (\<lambda>s. s\<lparr>max_registered_block_id := max (max_registered_block_id s) (Suc block_id)\<rparr>)) (\<lambda>_.
     bindU (getU (\<lambda>s. length (registered_buffers s))) (\<lambda>n.
       if block_id \<ge> n then throwU (ERROR, E_INTERNAL)
       else
         upd_regbuf block_id (\<lambda>b. fresh_regbuf (b\<lparr>rb_rlocator := rnode, rb_forkno := f, rb_block := blk,
           rb_page_lsn := plsn, rb_flags := fls, rb_rdata_len := 0, rb_buffer := 0, rb_in_use := True\<rparr>))))"

definition abort_block :: "nat \<Rightarrow> ('x um_xlog_scheme, unit) um" where
  "abort_block i =
     bindU (get_regbuf i) (\<lambda>b.
       if \<not> rb_in_use b \<or> \<not> has_remap b \<or> remap_committed b then returnU ()
       else
         bindU (MapInflightRelease (rb_rlocator b) (rb_forkno b) (rb_block b)) (\<lambda>_.
         upd_regbuf i (\<lambda>b. b\<lparr>wal_owns_firstborn := False, remap_in_record := False\<rparr>)))"

definition XLogAbortBlockRemapsUmbra :: "('x um_xlog_scheme, unit) um" where
  "XLogAbortBlockRemapsUmbra =
     bindU (getU max_registered_block_id) (\<lambda>n. forU [0..<n] abort_block)"

definition XLogResetInsertion :: "('x um_xlog_scheme, unit) um" where
  "XLogResetInsertion =
     bindU XLogAbortBlockRemapsUmbra (\<lambda>_.
     modifyU (\<lambda>s. s\<lparr>registered_buffers :=
         map (\<lambda>b. fresh_regbuf (b\<lparr>rb_in_use := False, rb_buffer := 0\<rparr>)) (take (max_registered_block_id s) (registered_buffers s)) @
         drop (max_registered_block_id s) (registered_buffers s),
       max_registered_block_id := 0, curinsert_has_block_remap := False, begininsert_called := False\<rparr>))"

section \<open>Assembling a record\<close>

text \<open>What an insertion finds on its \<open>k\<close>-th attempt: the redo pointer and whether page images are wanted, whether the
  record has to be assembled again because they changed meanwhile, and the size of a record.\<close>

record wal_env =
  full_page_info :: "nat \<Rightarrow> XLogRecPtr \<times> bool"
  insert_retry :: "nat \<Rightarrow> bool"
  insert_rounds :: nat
  block_record_size :: "DecodedBkpBlock list \<Rightarrow> u64"
  wal_consistency_checking :: bool

definition XLR_CHECK_CONSISTENCY :: "8 word" where "XLR_CHECK_CONSISTENCY = 0x02"
definition XLOG_FPI_FOR_HINT :: "8 word" where "XLOG_FPI_FOR_HINT = 0xA0"

abbreviation regflag :: "registered_buffer \<Rightarrow> 8 word \<Rightarrow> bool" where
  "regflag b m \<equiv> rb_flags b AND m \<noteq> 0"

definition remap_handle :: "nat \<Rightarrow> ('x um_xlog_scheme, RelFileLocatorBackend) um" where
  "remap_handle i =
     bindU (get_regbuf i) (\<lambda>b.
     bindU (smgropen (rb_rlocator b)) (\<lambda>reln.
     bindU (upd_regbuf i (\<lambda>b. b\<lparr>remap_reln := Some reln\<rparr>)) (\<lambda>_.
     returnU reln)))"

definition XLogFillBlockRemapFrontierUmbra :: "nat \<Rightarrow> ('x um_xlog_scheme, unit) um" where
  "XLogFillBlockRemapFrontierUmbra i =
     bindU (get_regbuf i) (\<lambda>b.
     bindU (case remap_reln b of None \<Rightarrow> smgropen (rb_rlocator b) | Some r \<Rightarrow> returnU r) (\<lambda>reln.
     bindU (umfile_ctx_acquire reln) (\<lambda>c.
     bindU (MapSBlockTryGetLogicalNblocks c (rb_rlocator b) (rb_forkno b)) (\<lambda>logical.
     bindU (MapSBlockTryGetNextFreePhysBlock c (rb_rlocator b) (rb_forkno b)) (\<lambda>next_free.
     upd_regbuf i (\<lambda>b. b\<lparr>
       remap_logical_nblocks := (case logical of None \<Rightarrow> rb_block b + 1 | Some n \<Rightarrow> max n (rb_block b + 1)),
       remap_next_free_pblkno := (case next_free of None \<Rightarrow> rb_new_pblkno b + 1 | Some n \<Rightarrow> max n (rb_new_pblkno b + 1))\<rparr>))))))"

text \<open>Whether a block needs an image or a remap, and whether a handle was opened to find out.\<close>

definition image_or_remap ::
  "bool \<Rightarrow> 8 word \<Rightarrow> XLogRecPtr \<Rightarrow> bool \<Rightarrow> nat \<Rightarrow> ('x um_xlog_scheme, bool \<times> bool \<times> RelFileLocatorBackend option) um" where
  "image_or_remap xlog_rmgr info redo doPageWrites i =
     bindU (get_regbuf i) (\<lambda>b.
       if regflag b REGBUF_FORCE_IMAGE then returnU (True, False, None)
       else if regflag b REGBUF_NO_IMAGE \<or> \<not> doPageWrites then returnU (False, False, None)
       else if xlog_rmgr \<and> info = XLOG_FPI_FOR_HINT then returnU (rb_page_lsn b \<le> redo, False, None)
       else
         bindU (remap_handle i) (\<lambda>reln.
         bindU (UmWalOwnedRemapAvailable reln (rb_forkno b)) (\<lambda>available.
         returnU (\<not> available \<and> rb_page_lsn b \<le> redo, available \<and> rb_page_lsn b \<le> redo, Some reln))))"

definition open_handle ::
  "nat \<Rightarrow> RelFileLocatorBackend option \<Rightarrow> ('x um_xlog_scheme, RelFileLocatorBackend) um" where
  "open_handle i reln = (case reln of None \<Rightarrow> remap_handle i | Some r \<Rightarrow> returnU r)"

definition birth_remap ::
  "'x um_xlog_scheme um_env \<Rightarrow> nat \<Rightarrow> RelFileLocatorBackend option \<Rightarrow>
   ('x um_xlog_scheme, RelFileLocatorBackend option) um" where
  "birth_remap env i reln =
     bindU (get_regbuf i) (\<lambda>b.
       if has_remap b \<or> \<not> regflag b REGBUF_LOGICAL_BIRTH then returnU reln
       else
         bindU (open_handle i reln) (\<lambda>reln.
         bindU (UmWalOwnedFirstbornAvailable reln (rb_forkno b) (rb_block b)) (\<lambda>available.
           if \<not> available then returnU (Some reln)
           else
             bindU (UmMapTryLookupPblkno reln (rb_forkno b) (rb_block b)) (\<lambda>got.
               case got of
                 Some p \<Rightarrow> bindU (upd_regbuf i (\<lambda>b. b\<lparr>rb_new_pblkno := p\<rparr>)) (\<lambda>_. returnU (Some reln))
               | None \<Rightarrow>
                   bindU (UmMapReserveFreshPbkno env reln (rb_forkno b) (rb_block b)) (\<lambda>p.
                   bindU (upd_regbuf i (\<lambda>b. b\<lparr>rb_new_pblkno := p, rb_old_pblkno := InvalidBlockNumber,
                            has_remap := True, remap_committed := False\<rparr>)) (\<lambda>_.
                   returnU (Some reln)))))))"

definition ordinary_remap ::
  "'x um_xlog_scheme um_env \<Rightarrow> nat \<Rightarrow> RelFileLocatorBackend option \<Rightarrow> bool \<Rightarrow> ('x um_xlog_scheme, bool) um" where
  "ordinary_remap env i reln needs_remap =
     bindU (get_regbuf i) (\<lambda>b.
       if has_remap b then returnU True
       else if \<not> needs_remap then returnU False
       else
         bindU (open_handle i reln) (\<lambda>reln.
         bindU (UmMapGetNewPbkno env reln (rb_forkno b) (rb_block b)) (\<lambda>(old_pblkno, new_pblkno).
         bindU (upd_regbuf i (\<lambda>b. b\<lparr>rb_new_pblkno := new_pblkno, rb_old_pblkno := old_pblkno,
                  has_remap := True, remap_committed := False\<rparr>)) (\<lambda>_.
           if new_pblkno = old_pblkno then throwU (PANIC, E_INTERNAL) else returnU True))))"

text \<open>The choices of the first pass for one block: whether it needs a backup image, its data, includes an image and a
  remap. A block that is not in use contributes nothing.\<close>

definition assemble_block ::
  "'x um_xlog_scheme um_env \<Rightarrow> bool \<Rightarrow> 8 word \<Rightarrow> XLogRecPtr \<Rightarrow> bool \<Rightarrow> nat \<Rightarrow>
   ('x um_xlog_scheme, bool \<times> bool \<times> bool \<times> bool) um" where
  "assemble_block env xlog_rmgr info redo doPageWrites i =
     bindU (get_regbuf i) (\<lambda>b.
       if \<not> rb_in_use b then returnU (False, False, False, False)
       else
         bindU (upd_regbuf i (\<lambda>b. b\<lparr>remap_in_record := False, wal_owns_firstborn := False\<rparr>)) (\<lambda>_.
         bindU (image_or_remap xlog_rmgr info redo doPageWrites i) (\<lambda>(needs_backup, needs_remap, reln).
         bindU (birth_remap env i reln) (\<lambda>reln.
         bindU (ordinary_remap env i reln needs_remap) (\<lambda>include_remap.
         bindU (whenU include_remap (XLogFillBlockRemapFrontierUmbra i)) (\<lambda>_.
         let check = info AND XLR_CHECK_CONSISTENCY \<noteq> 0;
             include_image = (needs_backup \<or> check) \<and>
               \<not> (include_remap \<and> \<not> regflag b REGBUF_FORCE_IMAGE \<and> \<not> check);
             needs_data = (if rb_rdata_len b = 0 then False
                           else if regflag b REGBUF_KEEP_DATA then True
                           else \<not> needs_backup \<or> include_remap)
         in returnU (needs_backup, needs_data, include_image, include_remap)))))))"

primrec assemble_blocks ::
  "nat list \<Rightarrow> 'x um_xlog_scheme um_env \<Rightarrow> bool \<Rightarrow> 8 word \<Rightarrow> XLogRecPtr \<Rightarrow> bool \<Rightarrow>
   ('x um_xlog_scheme, (nat \<times> bool \<times> bool \<times> bool \<times> bool) list) um" where
  "assemble_blocks [] env xlog_rmgr info redo doPageWrites = returnU []"
| "assemble_blocks (i # is) env xlog_rmgr info redo doPageWrites =
     bindU (assemble_block env xlog_rmgr info redo doPageWrites i) (\<lambda>choice.
     bindU (assemble_blocks is env xlog_rmgr info redo doPageWrites) (\<lambda>cs.
     returnU ((i, choice) # cs)))"

text \<open>The second pass; \<open>prev\<close> is the relation of the last block used.\<close>

definition emit_block ::
  "RelFileLocator option \<Rightarrow> nat \<Rightarrow> bool \<times> bool \<times> bool \<times> bool \<Rightarrow> ('x um_xlog_scheme, DecodedBkpBlock option) um" where
  "emit_block prev i = (\<lambda>(needs_backup, needs_data, include_image, include_remap).
     bindU (get_regbuf i) (\<lambda>b.
       if \<not> rb_in_use b then returnU None
       else
         bindU (upd_regbuf i (\<lambda>b. b\<lparr>remap_in_record := include_remap, wal_owns_firstborn := False\<rparr>)) (\<lambda>_.
         bindU (whenU include_remap (modifyU (\<lambda>s. s\<lparr>curinsert_has_block_remap := True\<rparr>))) (\<lambda>_.
         returnU (Some \<lparr>blk_id = i, blk_rlocator = rb_rlocator b, blk_forknum = rb_forkno b, blk_blkno = rb_block b,
           blk_will_init = (rb_flags b AND REGBUF_WILL_INIT = REGBUF_WILL_INIT), blk_same_rel = (prev = Some (rb_rlocator b)),
           blk_remap = (if include_remap
              then Some \<lparr>rbmh_old_pblkno = rb_old_pblkno b, rbmh_new_pblkno = rb_new_pblkno b,
                         rbmh_logical_nblocks = remap_logical_nblocks b, rbmh_next_free_pblkno = remap_next_free_pblkno b\<rparr>
              else None),
           blk_has_image = include_image, blk_apply_image = (include_image \<and> needs_backup),
           blk_has_data = needs_data\<rparr>)))))"

primrec emit_blocks ::
  "(nat \<times> bool \<times> bool \<times> bool \<times> bool) list \<Rightarrow> RelFileLocator option \<Rightarrow> ('x um_xlog_scheme, DecodedBkpBlock list) um" where
  "emit_blocks [] prev = returnU []"
| "emit_blocks (c # cs) prev =
     bindU (emit_block prev (fst c) (snd c)) (\<lambda>blk.
     case blk of
       None \<Rightarrow> emit_blocks cs prev
     | Some d \<Rightarrow> bindU (emit_blocks cs (Some (blk_rlocator d))) (\<lambda>ds. returnU (d # ds)))"

definition XLogRecordAssembleUmbra ::
  "'x um_xlog_scheme um_env \<Rightarrow> wal_env \<Rightarrow> bool \<Rightarrow> 8 word \<Rightarrow> nat \<Rightarrow> ('x um_xlog_scheme, DecodedBkpBlock list) um" where
  "XLogRecordAssembleUmbra env w xlog_rmgr info k =
     bindU (modifyU (\<lambda>s. s\<lparr>curinsert_has_block_remap := False\<rparr>)) (\<lambda>_.
     bindU (getU max_registered_block_id) (\<lambda>n.
     bindU (assemble_blocks [0..<n] env xlog_rmgr
              (if wal_consistency_checking w then info OR XLR_CHECK_CONSISTENCY else info)
              (fst (full_page_info w k)) (snd (full_page_info w k))) (\<lambda>cs.
     emit_blocks cs None)))"

section \<open>Committing the remaps of a record\<close>

definition commit_block :: "XLogRecPtr \<Rightarrow> nat \<Rightarrow> ('x um_xlog_scheme, unit) um" where
  "commit_block record_endptr i =
     bindU (get_regbuf i) (\<lambda>b.
       case remap_reln b of
         None \<Rightarrow> returnU ()
       | Some reln \<Rightarrow>
           if \<not> rb_in_use b \<or> \<not> has_remap b \<or> \<not> remap_in_record b then returnU ()
           else
             bindU (umfile_ctx_acquire reln) (\<lambda>c.
             bindU (UmMapSetMapping reln (rb_forkno b) (rb_block b) (rb_new_pblkno b) record_endptr) (\<lambda>_.
             bindU (whenU (rb_old_pblkno b \<noteq> InvalidBlockNumber)
                      (BufferSaveCheckpointPblk (rb_buffer b) (rb_old_pblkno b))) (\<lambda>_.
             bindU (whenU (rb_old_pblkno b = InvalidBlockNumber)
                      (bindU (MapSBlockBumpLogicalNblocks c (rb_rlocator b) (rb_forkno b)
                                (if remap_logical_nblocks b \<noteq> InvalidBlockNumber then remap_logical_nblocks b
                                 else rb_block b + 1) record_endptr) (\<lambda>_.
                       smgrbumpcachednblocks reln (rb_forkno b) (rb_block b + 1)))) (\<lambda>_.
             bindU (MapSBlockBumpNextFreePhysBlock c (rb_rlocator b) (rb_forkno b)
                      (if remap_next_free_pblkno b \<noteq> InvalidBlockNumber then remap_next_free_pblkno b
                       else rb_new_pblkno b + 1) record_endptr) (\<lambda>_.
             bindU (MapInflightRelease (rb_rlocator b) (rb_forkno b) (rb_block b)) (\<lambda>_.
             upd_regbuf i (\<lambda>b. b\<lparr>wal_owns_firstborn := False, remap_committed := True\<rparr>))))))))"

definition XLogCommitBlockRemapsUmbra :: "XLogRecPtr \<Rightarrow> ('x um_xlog_scheme, unit) um" where
  "XLogCommitBlockRemapsUmbra record_endptr =
     bindU (getU max_registered_block_id) (\<lambda>n. forU [0..<n] (commit_block record_endptr))"

section \<open>Inserting a record\<close>

definition XLogInsertRecord ::
  "wal_env \<Rightarrow> DecodedBkpBlock list \<Rightarrow> ('x um_xlog_scheme, XLogRecPtr) um" where
  "XLogInsertRecord w blocks =
     bindU (getU (\<lambda>s. XLogInsertRecPtr s + block_record_size w blocks)) (\<lambda>lsn.
     bindU (modifyU (\<lambda>s. s\<lparr>XLogBlockRecords := XLogBlockRecords s @ [(blocks, lsn)], XLogInsertRecPtr := lsn\<rparr>)) (\<lambda>_.
     returnU lsn))"

text \<open>One round of the loop of \<^verbatim>\<open>XLogInsert\<close>: \<^const>\<open>None\<close> when the record has to be assembled again, otherwise the end
  of the record, whose remaps are then committed before the critical section and the delay of checkpoints end.\<close>

definition insert_attempt ::
  "'x um_xlog_scheme um_env \<Rightarrow> wal_env \<Rightarrow> bool \<Rightarrow> 8 word \<Rightarrow> nat \<Rightarrow> ('x um_xlog_scheme, XLogRecPtr option) um" where
  "insert_attempt env w xlog_rmgr info k =
     bindU (XLogRecordAssembleUmbra env w xlog_rmgr info k) (\<lambda>blocks.
     bindU (getU curinsert_has_block_remap) (\<lambda>remaps.
     bindU (getU delayChkptStart) (\<lambda>was.
     bindU (whenU (remaps \<and> \<not> was) (modifyU (\<lambda>s. s\<lparr>delayChkptStart := True\<rparr>))) (\<lambda>_.
     bindU (if insert_retry w k then returnU None
            else
              critU remaps (
                bindU (XLogInsertRecord w blocks) (\<lambda>lsn.
                bindU (XLogCommitBlockRemapsUmbra lsn) (\<lambda>_.
                returnU (Some lsn))))) (\<lambda>r.
     bindU (whenU (remaps \<and> \<not> was) (modifyU (\<lambda>s. s\<lparr>delayChkptStart := False\<rparr>))) (\<lambda>_.
     returnU r))))))"

primrec insert_loop ::
  "nat \<Rightarrow> 'x um_xlog_scheme um_env \<Rightarrow> wal_env \<Rightarrow> bool \<Rightarrow> 8 word \<Rightarrow> nat \<Rightarrow> ('x um_xlog_scheme, XLogRecPtr) um" where
  "insert_loop 0 env w xlog_rmgr info k = throwU (ERROR, E_WAIT)"
| "insert_loop (Suc n) env w xlog_rmgr info k =
     bindU (insert_attempt env w xlog_rmgr info k) (\<lambda>r.
       case r of Some lsn \<Rightarrow> returnU lsn | None \<Rightarrow> insert_loop n env w xlog_rmgr info (Suc k))"

definition XLR_CALLER_INFO_MASK :: "8 word" where "XLR_CALLER_INFO_MASK = 0xF3"
definition SizeOfXLogLongPHD :: XLogRecPtr where "SizeOfXLogLongPHD = 40"

definition XLogInsert_blocks ::
  "'x um_xlog_scheme um_env \<Rightarrow> wal_env \<Rightarrow> bool \<Rightarrow> 8 word \<Rightarrow> ('x um_xlog_scheme, XLogRecPtr) um" where
  "XLogInsert_blocks env w xlog_rmgr info =
     bindU (getU begininsert_called) (\<lambda>called.
       if \<not> called then throwU (ERROR, E_INTERNAL)
       else if info AND NOT XLR_CALLER_INFO_MASK \<noteq> 0 then throwU (PANIC, E_INTERNAL)
       else
         bindU (getU IsBootstrapProcessingMode) (\<lambda>boot.
           if boot \<and> \<not> xlog_rmgr
           then bindU XLogResetInsertion (\<lambda>_. returnU SizeOfXLogLongPHD)
           else
             bindU (catchU (insert_loop (insert_rounds w) env w xlog_rmgr info 0) XLogResetInsertion) (\<lambda>lsn.
             bindU XLogResetInsertion (\<lambda>_.
             returnU lsn))))"

section \<open>Replaying a block reference\<close>

datatype XLogRedoAction = BLK_NEEDS_REDO | BLK_DONE | BLK_RESTORED | BLK_NOTFOUND

text \<open>The buffer manager as replay uses it: reading a page into a shared buffer (zeroed and locked when the flag is
  set), restoring an image into it, its LSN, and writing it back.\<close>

record 's bufmgr =
  XLogReadBufferExtended :: "RelFileLocator \<Rightarrow> ForkNumber \<Rightarrow> BlockNumber \<Rightarrow> bool \<Rightarrow> ('s, int option) um"
  RestoreBlockImage :: "int \<Rightarrow> ('s, bool) um"
  BufferPageLSN :: "int \<Rightarrow> 's \<Rightarrow> XLogRecPtr"
  SetPageLSNUnlessNew :: "int \<Rightarrow> XLogRecPtr \<Rightarrow> ('s, unit) um"
  MarkBufferDirty :: "int \<Rightarrow> ('s, unit) um"
  FlushOneBuffer :: "int \<Rightarrow> ('s, unit) um"

definition log_invalid_page ::
  "RelFileLocator \<Rightarrow> ForkNumber \<Rightarrow> BlockNumber \<Rightarrow> bool \<Rightarrow> ('x um_xlog_scheme, unit) um" where
  "log_invalid_page rnode f blk present =
     bindU (getU id) (\<lambda>s.
       if reachedConsistency s \<and> \<not> ignore_invalid_pages s then throwU (PANIC, E_INTERNAL)
       else if \<exists>e\<in>set (invalid_page_tab s). fst e = rnode \<and> fst (snd e) = f \<and> fst (snd (snd e)) = blk then returnU ()
       else modifyU (\<lambda>s. s\<lparr>invalid_page_tab := (rnode, f, blk, present) # invalid_page_tab s\<rparr>))"

definition XLogUmbraMapStateForRedo ::
  "RelFileLocatorBackend \<Rightarrow> ForkNumber \<Rightarrow> ('x um_smgr_scheme, UmbraMapPolicy) um" where
  "XLogUmbraMapStateForRedo reln f =
     bindU (umfile_ctx_acquire reln) (\<lambda>c.
       if \<not> UmbraForkUsesMapTranslation f \<or> f = INIT_FORKNUM \<or> umisinternalfork f \<or> RelFileLocatorBackendIsTemp reln
       then returnU UMBRA_MAP_POLICY_BYPASS_MAP
       else
         bindU (UmMetadataExists reln) (\<lambda>ex.
         bindU (if ex then MapSBlockIsSkipWalPending c (locator reln) else returnU False) (\<lambda>pending.
         returnU (if pending then UMBRA_MAP_POLICY_SKIP_WAL_PENDING_MAP else UMBRA_MAP_POLICY_REQUIRE_MAP))))"

definition XLogUmbraEnsureMappedBlockForRedo ::
  "RelFileLocator \<Rightarrow> ForkNumber \<Rightarrow> BlockNumber \<Rightarrow> ('x um_xlog_scheme, bool) um" where
  "XLogUmbraEnsureMappedBlockForRedo rnode f blk =
     (if f = INIT_FORKNUM \<or> umisinternalfork f then returnU True
      else
        bindU (smgropen rnode) (\<lambda>reln.
        bindU (UmMetadataExists reln) (\<lambda>ex.
          if \<not> ex then bindU (XLogLogMissingRelationMetadata rnode) (\<lambda>_. returnU False)
          else
            bindU (UmMapTryLookupPblkno reln f blk) (\<lambda>got.
              if got \<noteq> None then returnU True
              else
                bindU (UmMapIsLogicalUnmaterialized reln f blk) (\<lambda>unmat.
                  if unmat then returnU True
                  else bindU (log_invalid_page rnode f blk False) (\<lambda>_. returnU False))))))"

definition XLogUmbraEnsureMetadataForRedo ::
  "RelFileLocator \<Rightarrow> ForkNumber \<Rightarrow> ('x um_smgr_scheme, bool) um" where
  "XLogUmbraEnsureMetadataForRedo rnode f =
     (if f = INIT_FORKNUM \<or> umisinternalfork f then returnU True
      else
        bindU (smgropen rnode) (\<lambda>reln.
        bindU (XLogUmbraMapStateForRedo reln f) (\<lambda>st.
        bindU (umsetmapstate reln st) (\<lambda>_.
          if st \<noteq> UMBRA_MAP_POLICY_REQUIRE_MAP then returnU True
          else
            bindU (UmMetadataExists reln) (\<lambda>ex.
            bindU (whenU (\<not> ex) (umcreaterelationmetadata reln)) (\<lambda>_.
            returnU True))))))"

definition restore_image ::
  "'x um_xlog_scheme bufmgr \<Rightarrow> RelFileLocator \<Rightarrow> ForkNumber \<Rightarrow> BlockNumber \<Rightarrow> XLogRecPtr \<Rightarrow>
   ('x um_xlog_scheme, XLogRedoAction \<times> int option) um" where
  "restore_image bm rnode f blk lsn =
     bindU (XLogReadBufferExtended bm rnode f blk True) (\<lambda>buf.
       case buf of
         None \<Rightarrow> throwU (PANIC, E_INTERNAL)
       | Some b \<Rightarrow>
           bindU (RestoreBlockImage bm b) (\<lambda>ok.
             if \<not> ok then throwU (ERROR, E_INTERNAL)
             else
               bindU (SetPageLSNUnlessNew bm b lsn) (\<lambda>_.
               bindU (MarkBufferDirty bm b) (\<lambda>_.
               bindU (whenU (f = INIT_FORKNUM) (FlushOneBuffer bm b)) (\<lambda>_.
               returnU (BLK_RESTORED, Some b))))))"

text \<open>Publishing the remap of a record with an image, or of one that initialises its page.\<close>

definition redo_publish_remap ::
  "RelFileLocatorBackend \<Rightarrow> RelFileLocator \<Rightarrow> ForkNumber \<Rightarrow> BlockNumber \<Rightarrow> XLogRecordBlockRemapHeader \<Rightarrow> XLogRecPtr \<Rightarrow>
   ('x um_smgr_scheme, unit) um" where
  "redo_publish_remap reln rnode f blk h lsn =
     bindU (umfile_ctx_acquire reln) (\<lambda>c.
     bindU (UmMapSetMapping reln f blk (rbmh_new_pblkno h) lsn) (\<lambda>_.
     bindU (MapSBlockBumpNextFreePhysBlock c rnode f
              (if rbmh_next_free_pblkno h \<noteq> InvalidBlockNumber then rbmh_next_free_pblkno h
               else rbmh_new_pblkno h + 1) lsn) (\<lambda>_.
     whenU (rbmh_old_pblkno h = InvalidBlockNumber)
       (bindU (MapSBlockBumpLogicalNblocks c rnode f
                 (if rbmh_logical_nblocks h \<noteq> InvalidBlockNumber then rbmh_logical_nblocks h else blk + 1) lsn) (\<lambda>_.
        smgrbumpcachednblocks reln f (blk + 1))))))"

definition redo_action ::
  "'x um_xlog_scheme bufmgr \<Rightarrow> int \<Rightarrow> XLogRecPtr \<Rightarrow> ('x um_xlog_scheme, XLogRedoAction \<times> int option) um" where
  "redo_action bm b lsn =
     bindU (getU (BufferPageLSN bm b)) (\<lambda>plsn.
     returnU (if lsn \<le> plsn then BLK_DONE else BLK_NEEDS_REDO, Some b))"

text \<open>\<open>zeromode\<close> says that the caller asks for a zeroed page; locks are not modelled.\<close>

definition XLogReadBufferForRedoExtendedUmbra ::
  "'x um_xlog_scheme bufmgr \<Rightarrow> DecodedBkpBlock \<Rightarrow> XLogRecPtr \<Rightarrow> bool \<Rightarrow>
   ('x um_xlog_scheme, XLogRedoAction \<times> int option) um" where
  "XLogReadBufferForRedoExtendedUmbra bm d lsn zeromode =
     (let rnode = blk_rlocator d; f = blk_forknum d; blk = blk_blkno d in
      if blk_will_init d \<noteq> zeromode then throwU (PANIC, E_INTERNAL)
      else
        bindU (XLogUmbraEnsureMetadataForRedo rnode f) (\<lambda>ok.
        if \<not> ok then returnU (BLK_NOTFOUND, None)
        else
          case blk_remap d of
            None \<Rightarrow>
              if blk_apply_image d then restore_image bm rnode f blk lsn
              else
                bindU (XLogReadBufferExtended bm rnode f blk zeromode) (\<lambda>buf.
                  case buf of None \<Rightarrow> returnU (BLK_NOTFOUND, None) | Some b \<Rightarrow> redo_action bm b lsn)
          | Some h \<Rightarrow>
              bindU (smgropen rnode) (\<lambda>reln.
                if blk_apply_image d
                then
                  bindU (redo_publish_remap reln rnode f blk h lsn) (\<lambda>_.
                  bindU (XLogUmbraEnsureMappedBlockForRedo rnode f blk) (\<lambda>mapped.
                    if \<not> mapped then returnU (BLK_NOTFOUND, None) else restore_image bm rnode f blk lsn))
                else if zeromode
                then
                  bindU (redo_publish_remap reln rnode f blk h lsn) (\<lambda>_.
                  bindU (XLogUmbraEnsureMappedBlockForRedo rnode f blk) (\<lambda>mapped.
                    if \<not> mapped then returnU (BLK_NOTFOUND, None)
                    else
                      bindU (XLogReadBufferExtended bm rnode f blk True) (\<lambda>buf.
                      returnU (if buf = None then BLK_NOTFOUND else BLK_NEEDS_REDO, buf))))
                else if rbmh_old_pblkno h = InvalidBlockNumber then throwU (PANIC, E_INTERNAL)
                else
                  bindU (UmMapSetMapping reln f blk (rbmh_old_pblkno h) lsn) (\<lambda>_.
                  bindU (XLogUmbraEnsureMappedBlockForRedo rnode f blk) (\<lambda>mapped.
                    if \<not> mapped then returnU (BLK_NOTFOUND, None)
                    else
                      bindU (XLogReadBufferExtended bm rnode f blk False) (\<lambda>buf.
                        case buf of
                          None \<Rightarrow> returnU (BLK_NOTFOUND, None)
                        | Some b \<Rightarrow>
                            bindU (MarkBufferDirty bm b) (\<lambda>_.
                            bindU (FlushOneBuffer bm b) (\<lambda>_.
                            bindU (UmMapSetMapping reln f blk (rbmh_new_pblkno h) lsn) (\<lambda>_.
                            bindU (whenU (rbmh_next_free_pblkno h \<noteq> InvalidBlockNumber)
                                     (bindU (umfile_ctx_acquire reln) (\<lambda>c.
                                      MapSBlockBumpNextFreePhysBlock c rnode f (rbmh_next_free_pblkno h) lsn))) (\<lambda>_.
                            redo_action bm b lsn))))))))))"

end
