(* ===== verification/Spec2Isabelle.thy ===== *)
theory Spec2Isabelle
  imports MapLayout MapSuperProps MapSystem UmbraRedo MapBgproc UmbraProps UmbraReads MapDurable MapLookup MapReserve UmbraXLog
begin

text \<open>
  The root of the development of the Umbra storage manager.
\<close>

end
